(* ===== verification/Prelude.thy ===== *)
theory Prelude
  imports Main "HOL-Library.Word" "HOL-Library.List_Lexorder" "HOL-Library.Char_ord"
begin

text \<open>
  What every component of the model shares: the widths of the machine integers, the checked,
  saturating and wrapping arithmetic of Rust's unsigned integers, the result type of fallible
  code and small facts on lists and maps. Rust's \<open>+\<close>, \<open>-\<close> and \<open>*\<close> are the word operations,
  which wrap around as they do in the release profile of the workspace (it does not turn
  overflow checks on); the operations with an overflow policy are the ones defined here.
  Strings are the byte lists of their UTF-8 form, ordered as \<open>str\<close> is, byte by byte.
\<close>

named_theorems arith_facts \<open>the readings of checked and saturating arithmetic as naturals\<close>
named_theorems result_facts \<open>elimination of the result type's combinators\<close>

type_synonym u8 = "8 word"
type_synonym u32 = "32 word"
type_synonym u64 = "64 word"
type_synonym u128 = "128 word"
type_synonym u256 = "256 word"

type_synonym ('e, 'a) result = "'e + 'a"

section \<open>Unsigned arithmetic with an overflow policy\<close>

definition checked_add :: "'a::len word \<Rightarrow> 'a word \<Rightarrow> 'a word option" where
  "checked_add a b = (if unat a + unat b < 2 ^ LENGTH('a) then Some (a + b) else None)"

definition checked_mul :: "'a::len word \<Rightarrow> 'a word \<Rightarrow> 'a word option" where
  "checked_mul a b = (if unat a * unat b < 2 ^ LENGTH('a) then Some (a * b) else None)"

definition saturating_add :: "'a::len word \<Rightarrow> 'a word \<Rightarrow> 'a word" where
  "saturating_add a b = (if unat a + unat b < 2 ^ LENGTH('a) then a + b else - 1)"

definition saturating_mul :: "'a::len word \<Rightarrow> 'a word \<Rightarrow> 'a word" where
  "saturating_mul a b = (if unat a * unat b < 2 ^ LENGTH('a) then a * b else - 1)"

definition saturating_sub :: "'a::len word \<Rightarrow> 'a word \<Rightarrow> 'a word" where
  "saturating_sub a b = (if b \<le> a then a - b else 0)"

definition abs_diff :: "'a::len word \<Rightarrow> 'a word \<Rightarrow> 'a word" where
  "abs_diff a b = (if a < b then b - a else a - b)"

lemma unat_less_pow [simp]: "unat (a :: 'a::len word) < 2 ^ LENGTH('a)"
  by (rule unsigned_less)

lemma unat_u64_less [simp]: "unat (a :: u64) < 18446744073709551616"
  using unat_less_pow [of a] by simp

lemma unat_u128_less [simp]: "unat (a :: u128) < 340282366920938463463374607431768211456"
  using unat_less_pow [of a] by simp

lemma unat_minus_one_word: "unat (- 1 :: 'a::len word) = 2 ^ LENGTH('a) - 1"
  by (simp add: unsigned_minus_1_eq_mask mask_eq_exp_minus_1)

lemma checked_add_Some [arith_facts]:
  "checked_add a b = Some (c :: 'a::len word) \<longleftrightarrow> unat c = unat a + unat b"
proof (cases "unat a + unat b < 2 ^ LENGTH('a)")
  case True
  then have "unat (a + b) = unat a + unat b" by (simp add: unat_word_ariths)
  with True show ?thesis by (auto simp: checked_add_def intro: word_unat_eq_iff [THEN iffD2])
next
  case False
  then have "unat c \<noteq> unat a + unat b" using unat_less_pow [of c] by linarith
  with False show ?thesis by (simp add: checked_add_def)
qed

lemma checked_mul_Some [arith_facts]:
  "checked_mul a b = Some (c :: 'a::len word) \<longleftrightarrow> unat c = unat a * unat b"
proof (cases "unat a * unat b < 2 ^ LENGTH('a)")
  case True
  then have "unat (a * b) = unat a * unat b" by (simp add: unat_word_ariths)
  with True show ?thesis by (auto simp: checked_mul_def intro: word_unat_eq_iff [THEN iffD2])
next
  case False
  then have "unat c \<noteq> unat a * unat b" using unat_less_pow [of c] by linarith
  with False show ?thesis by (simp add: checked_mul_def)
qed

lemma checked_add_None [arith_facts]:
  "checked_add a b = None \<longleftrightarrow> 2 ^ LENGTH('a) \<le> unat (a :: 'a::len word) + unat b"
  by (auto simp: checked_add_def)

lemma checked_mul_None [arith_facts]:
  "checked_mul a b = None \<longleftrightarrow> 2 ^ LENGTH('a) \<le> unat (a :: 'a::len word) * unat b"
  by (auto simp: checked_mul_def)

lemma checked_mul_eq:
  "checked_mul a b =
     (if unat a * unat b < 2 ^ LENGTH('a) then Some (of_nat (unat a * unat b) :: 'a::len word) else None)"
  by (simp add: checked_mul_def)

lemma checked_add_eq:
  "checked_add a b =
     (if unat a + unat b < 2 ^ LENGTH('a) then Some (of_nat (unat a + unat b) :: 'a::len word) else None)"
  by (simp add: checked_add_def)

lemma unat_of_nat_less: "n < 2 ^ LENGTH('a) \<Longrightarrow> unat (of_nat n :: 'a::len word) = n"
  by (simp add: unat_of_nat take_bit_nat_eq_self_iff)

lemma unat_saturating_add [arith_facts]:
  "unat (saturating_add a (b :: 'a::len word)) = min (unat a + unat b) (2 ^ LENGTH('a) - 1)"
  by (auto simp: saturating_add_def unat_word_ariths unat_minus_one_word)

lemma unat_saturating_mul [arith_facts]:
  "unat (saturating_mul a (b :: 'a::len word)) = min (unat a * unat b) (2 ^ LENGTH('a) - 1)"
  by (auto simp: saturating_mul_def unat_word_ariths unat_minus_one_word)

lemma unat_saturating_sub [arith_facts]:
  "unat (saturating_sub a (b :: 'a::len word)) = unat a - unat b"
  by (auto simp: saturating_sub_def unat_sub word_le_nat_alt)

lemma unat_abs_diff [arith_facts]:
  "unat (abs_diff a (b :: 'a::len word)) = (unat a - unat b) + (unat b - unat a)"
  by (auto simp: abs_diff_def unat_sub word_less_nat_alt word_le_nat_alt)

lemma saturating_sub_self [simp]: "saturating_sub a a = 0"
  by (simp add: saturating_sub_def)

section \<open>Results\<close>

definition ok_or :: "'e \<Rightarrow> 'a option \<Rightarrow> ('e, 'a) result" where
  "ok_or e r = (case r of None \<Rightarrow> Inl e | Some a \<Rightarrow> Inr a)"

definition bind_result :: "('e, 'a) result \<Rightarrow> ('a \<Rightarrow> ('e, 'b) result) \<Rightarrow> ('e, 'b) result" where
  "bind_result r f = (case r of Inl e \<Rightarrow> Inl e | Inr a \<Rightarrow> f a)"

lemma ok_or_Inr [result_facts]: "ok_or e r = Inr a \<longleftrightarrow> r = Some a"
  by (auto simp: ok_or_def split: option.splits)

lemma ok_or_Inl [result_facts]: "ok_or e r = Inl d \<longleftrightarrow> r = None \<and> d = e"
  by (auto simp: ok_or_def split: option.splits)

lemma bind_result_Inr [result_facts]:
  "bind_result r f = Inr b \<longleftrightarrow> (\<exists>a. r = Inr a \<and> f a = Inr b)"
  by (auto simp: bind_result_def split: sum.splits)

lemma bind_result_Inl [result_facts]:
  "bind_result r f = Inl e \<longleftrightarrow> r = Inl e \<or> (\<exists>a. r = Inr a \<and> f a = Inl e)"
  by (auto simp: bind_result_def split: sum.splits)

lemma bind_result_simps [simp]: "bind_result (Inl e) f = Inl e" "bind_result (Inr a) f = f a"
  by (simp_all add: bind_result_def)

definition unwrap_or :: "'a \<Rightarrow> 'a option \<Rightarrow> 'a" where
  "unwrap_or d x = (case x of None \<Rightarrow> d | Some a \<Rightarrow> a)"

lemma unwrap_or_simps [simp]: "unwrap_or d None = d" "unwrap_or d (Some a) = a"
  by (simp_all add: unwrap_or_def)

definition or_else :: "'a option \<Rightarrow> 'a option \<Rightarrow> 'a option" where
  "or_else x y = (case x of None \<Rightarrow> y | Some a \<Rightarrow> Some a)"

lemma or_else_simps [simp]: "or_else None y = y" "or_else (Some a) y = Some a"
  by (simp_all add: or_else_def)

section \<open>Hash maps\<close>

text \<open>
  A \<open>HashMap\<close> is a partial function; \<open>retain\<close> keeps the entries whose key passes a test and
  \<open>update_values\<close> rewrites every stored value in place (\<open>values_mut\<close>), in an order that does
  not matter because each value is rewritten on its own.
\<close>

definition retain :: "('k \<Rightarrow> bool) \<Rightarrow> ('k \<rightharpoonup> 'v) \<Rightarrow> ('k \<rightharpoonup> 'v)" where
  "retain p m = (\<lambda>k. if p k then m k else None)"

definition update_values :: "('v \<Rightarrow> 'v) \<Rightarrow> ('k \<rightharpoonup> 'v) \<Rightarrow> ('k \<rightharpoonup> 'v)" where
  "update_values f m = (\<lambda>k. map_option f (m k))"

lemma retain_apply [simp]: "retain p m k = (if p k then m k else None)"
  by (simp add: retain_def)

lemma update_values_apply [simp]: "update_values f m k = map_option f (m k)"
  by (simp add: update_values_def)

lemma dom_retain: "dom (retain p m) = {k \<in> dom m. p k}"
  by (auto simp: dom_def)

lemma dom_update_values: "dom (update_values f m) = dom m"
  by (auto simp: dom_def)

end
