(* ===== verification/OrdMap.thy ===== *)
theory OrdMap
  imports Prelude
begin

text \<open>
  The ordered collections of the standard library that the program iterates over:
  \<open>BTreeMap\<close> as the list of its entries in ascending key order and \<open>BTreeSet\<close> as the ascending
  list of its elements. The locale \<open>ordered_map\<close> is the contract the components rely on; the
  entry lists implement it.
\<close>

named_theorems ordmap_simps \<open>lookups in an ordered map after an update\<close>
named_theorems ordmap_wf \<open>the updates keep an ordered map's entries ascending\<close>

section \<open>The contract\<close>

locale ordered_map =
  fixes empty :: "'m"
    and insert :: "'k::linorder \<Rightarrow> 'v \<Rightarrow> 'm \<Rightarrow> 'm"
    and remove :: "'k \<Rightarrow> 'm \<Rightarrow> 'm"
    and get :: "'m \<Rightarrow> 'k \<Rightarrow> 'v option"
    and entries :: "'m \<Rightarrow> ('k \<times> 'v) list"
    and wf :: "'m \<Rightarrow> bool"
  assumes wf_empty: "wf empty"
    and wf_insert: "wf m \<Longrightarrow> wf (insert k v m)"
    and wf_remove: "wf m \<Longrightarrow> wf (remove k m)"
    and get_empty: "get empty k = None"
    and get_insert: "wf m \<Longrightarrow> get (insert k v m) j = (if j = k then Some v else get m j)"
    and get_remove: "wf m \<Longrightarrow> get (remove k m) j = (if j = k then None else get m j)"
    and get_entries: "wf m \<Longrightarrow> get m k = Some v \<longleftrightarrow> (k, v) \<in> set (entries m)"
    and entries_ascending: "wf m \<Longrightarrow> sorted_wrt (<) (map fst (entries m))"
begin

definition collect :: "('k \<times> 'v) list \<Rightarrow> 'm" where
  "collect kvs = fold (\<lambda>(k, v). insert k v) kvs empty"

lemma wf_fold: "wf m \<Longrightarrow> wf (fold (\<lambda>(k, v). insert k v) kvs m)"
  by (induction kvs arbitrary: m) (auto simp: wf_insert)

lemma wf_collect: "wf (collect kvs)"
  by (simp add: collect_def wf_fold wf_empty)

lemma get_fold:
  "wf m \<Longrightarrow> get (fold (\<lambda>(k, v). insert k v) kvs m) j
     = (case map_of (rev kvs) j of None \<Rightarrow> get m j | Some v \<Rightarrow> Some v)"
  by (induction kvs arbitrary: m)
     (auto simp: wf_insert get_insert map_add_def split: option.splits)

text \<open>The last entry of a key wins, as it does when an iterator is collected.\<close>

lemma get_collect: "get (collect kvs) j = map_of (rev kvs) j"
  by (simp add: collect_def get_fold wf_empty get_empty split: option.splits)

lemma distinct_keys: "wf m \<Longrightarrow> distinct (map fst (entries m))"
  using entries_ascending by (auto dest: strict_sorted_imp_sorted strict_sorted_iff [THEN iffD1])

lemma first_is_least:
  "wf m \<Longrightarrow> entries m = (k, v) # rest \<Longrightarrow> get m j = Some w \<Longrightarrow> k \<le> j"
  using entries_ascending [of m] get_entries [of m j w] by (fastforce simp: less_imp_le)

lemma last_is_greatest:
  assumes "wf m" and "entries m = front @ [(k, v)]" and "get m j = Some w"
  shows "j \<le> k"
  using assms entries_ascending [of m] get_entries [of m j w]
  by (fastforce simp: sorted_wrt_append less_imp_le)

lemma entries_Nil_iff: "wf m \<Longrightarrow> entries m = [] \<longleftrightarrow> (\<forall>k. get m k = None)"
proof
  assume wf: "wf m" and none: "\<forall>k. get m k = None"
  then have "(k, v) \<notin> set (entries m)" for k v using get_entries [OF wf] by simp
  then show "entries m = []" by (metis list.set_intros(1) neq_Nil_conv surj_pair)
next
  assume "wf m" "entries m = []"
  then show "\<forall>k. get m k = None" using get_entries [of m] by (metis empty_iff not_None_eq set_empty)
qed

lemma set_keys: "wf m \<Longrightarrow> set (map fst (entries m)) = {k. get m k \<noteq> None}"
  using get_entries by force

end

section \<open>Entry lists\<close>

type_synonym ('k, 'v) btree = "('k \<times> 'v) list"

fun bt_insert :: "'k::linorder \<Rightarrow> 'v \<Rightarrow> ('k, 'v) btree \<Rightarrow> ('k, 'v) btree" where
  "bt_insert k v [] = [(k, v)]"
| "bt_insert k v (e # m) =
     (if fst e < k then e # bt_insert k v m
      else if fst e = k then (k, v) # m
      else (k, v) # e # m)"

definition bt_remove :: "'k \<Rightarrow> ('k, 'v) btree \<Rightarrow> ('k, 'v) btree" where
  "bt_remove k m = filter (\<lambda>e. fst e \<noteq> k) m"

definition bt_get :: "('k, 'v) btree \<Rightarrow> 'k \<Rightarrow> 'v option" where
  "bt_get m = map_of m"

definition bt_wf :: "('k::linorder, 'v) btree \<Rightarrow> bool" where
  "bt_wf m \<longleftrightarrow> sorted_wrt (<) (map fst m)"

definition bt_first :: "('k, 'v) btree \<Rightarrow> ('k \<times> 'v) option" where
  "bt_first m = (case m of [] \<Rightarrow> None | e # _ \<Rightarrow> Some e)"

definition bt_last :: "('k, 'v) btree \<Rightarrow> ('k \<times> 'v) option" where
  "bt_last m = (if m = [] then None else Some (last m))"

definition bt_collect :: "('k::linorder \<times> 'v) list \<Rightarrow> ('k, 'v) btree" where
  "bt_collect kvs = fold (\<lambda>(k, v). bt_insert k v) kvs []"

lemma keys_bt_insert: "set (map fst (bt_insert k v m)) = insert k (set (map fst m))"
  by (induction m) auto

lemma bt_wf_insert [ordmap_wf]: "bt_wf m \<Longrightarrow> bt_wf (bt_insert k v m)"
proof (induction m)
  case (Cons e m)
  have "\<forall>j \<in> set (map fst m). fst e < j" using Cons.prems by (auto simp: bt_wf_def)
  moreover have "bt_wf m" using Cons.prems by (simp add: bt_wf_def)
  ultimately show ?case
    using Cons.IH Cons.prems keys_bt_insert [of k v m]
    by (fastforce simp: bt_wf_def simp del: set_map)
qed (simp add: bt_wf_def)

lemma bt_wf_remove [ordmap_wf]: "bt_wf m \<Longrightarrow> bt_wf (bt_remove k m)"
  by (induction m) (auto simp: bt_wf_def bt_remove_def)

lemma bt_wf_Nil [ordmap_wf, simp]: "bt_wf []"
  by (simp add: bt_wf_def)

lemma bt_get_insert_wf: "bt_wf m \<Longrightarrow> bt_get (bt_insert k v m) j = (if j = k then Some v else bt_get m j)"
  by (induction m) (auto simp: bt_get_def bt_wf_def)

lemma bt_get_remove_any: "bt_get (bt_remove k m) j = (if j = k then None else bt_get m j)"
  by (induction m) (auto simp: bt_get_def bt_remove_def)

lemma bt_get_iff_entry: "bt_wf m \<Longrightarrow> bt_get m k = Some v \<longleftrightarrow> (k, v) \<in> set m"
  unfolding bt_get_def bt_wf_def
  by (rule map_of_eq_Some_iff) (auto simp: strict_sorted_iff)

interpretation bt: ordered_map "[]" bt_insert bt_remove bt_get "\<lambda>m. m" bt_wf
  by unfold_locales
    (simp_all add: bt_wf_insert bt_wf_remove bt_get_insert_wf bt_get_remove_any bt_get_iff_entry,
     simp_all add: bt_get_def bt_wf_def)

lemma bt_collect_is_collect: "bt_collect = bt.collect"
  by (intro ext) (simp add: bt_collect_def bt.collect_def)

lemmas bt_get_insert [ordmap_simps] = bt.get_insert
lemmas bt_get_remove [ordmap_simps] = bt_get_remove_any

lemma bt_get_Nil [ordmap_simps, simp]: "bt_get [] k = None"
  by (simp add: bt_get_def)

lemma bt_get_collect [ordmap_simps]: "bt_get (bt_collect kvs) k = map_of (rev kvs) k"
  by (simp add: bt_collect_is_collect bt.get_collect)

lemma bt_wf_collect [ordmap_wf, simp]: "bt_wf (bt_collect kvs)"
  by (simp add: bt_collect_is_collect bt.wf_collect)

lemma bt_first_least:
  assumes "bt_wf m" and "bt_first m = Some (k, v)"
  shows "bt_get m k = Some v \<and> (\<forall>j w. bt_get m j = Some w \<longrightarrow> k \<le> j)"
proof -
  from assms(2) obtain rest where m: "m = (k, v) # rest" by (auto simp: bt_first_def split: list.splits)
  then show ?thesis using assms(1) bt.first_is_least [OF assms(1) m] bt.get_entries [OF assms(1)] by auto
qed

lemma bt_last_greatest:
  assumes "bt_wf m" and "bt_last m = Some (k, v)"
  shows "bt_get m k = Some v \<and> (\<forall>j w. bt_get m j = Some w \<longrightarrow> j \<le> k)"
proof -
  from assms(2) have "m = butlast m @ [(k, v)]"
    by (auto simp: bt_last_def split: if_splits) (metis append_butlast_last_id)
  then show ?thesis using assms(1) bt.last_is_greatest [OF assms(1)] bt.get_entries [OF assms(1)]
    by (metis in_set_conv_decomp)
qed

lemma bt_first_None [simp]: "bt_first m = None \<longleftrightarrow> m = []"
  by (simp add: bt_first_def split: list.splits)

lemma bt_last_None [simp]: "bt_last m = None \<longleftrightarrow> m = []"
  by (simp add: bt_last_def)

lemma bt_distinct: "bt_wf m \<Longrightarrow> distinct (map fst m)"
  by (rule bt.distinct_keys)

lemma bt_keys: "bt_wf m \<Longrightarrow> set (map fst m) = {k. bt_get m k \<noteq> None}"
  by (rule bt.set_keys)

text \<open>An entry list is determined by its lookups.\<close>

lemma bt_ext:
  assumes "bt_wf m" and "bt_wf n" and "\<And>k. bt_get m k = bt_get n k"
  shows "m = n"
proof -
  have "(k, v) \<in> set m \<longleftrightarrow> (k, v) \<in> set n" for k v
    using assms bt_get_iff_entry by metis
  then have eq: "set m = set n" by auto
  moreover have "inj_on fst (set m \<union> set n)"
    using bt_distinct [OF assms(1)] eq by (simp add: distinct_map)
  ultimately show ?thesis
    using assms(1,2) bt_distinct
    by (intro map_sorted_distinct_set_unique [where f = fst])
      (auto simp: bt_wf_def intro: strict_sorted_imp_sorted)
qed

section \<open>Ordered sets\<close>

definition bset_collect :: "'a::linorder list \<Rightarrow> 'a list" where
  "bset_collect xs = sort (remdups xs)"

definition bset_difference :: "'a list \<Rightarrow> 'a list \<Rightarrow> 'a list" where
  "bset_difference xs ys = filter (\<lambda>x. x \<notin> set ys) xs"

definition bset_intersection :: "'a list \<Rightarrow> 'a list \<Rightarrow> 'a list" where
  "bset_intersection xs ys = filter (\<lambda>x. x \<in> set ys) xs"

definition bset_wf :: "'a::linorder list \<Rightarrow> bool" where
  "bset_wf xs \<longleftrightarrow> sorted_wrt (<) xs"

lemma set_bset_collect [simp]: "set (bset_collect xs) = set xs"
  by (simp add: bset_collect_def)

lemma bset_wf_collect [simp]: "bset_wf (bset_collect xs)"
  by (simp add: bset_wf_def bset_collect_def strict_sorted_iff)

lemma bset_wf_difference: "bset_wf xs \<Longrightarrow> bset_wf (bset_difference xs ys)"
  by (simp add: bset_wf_def bset_difference_def sorted_wrt_filter)

lemma set_bset_difference [simp]: "set (bset_difference xs ys) = set xs - set ys"
  by (auto simp: bset_difference_def)

lemma set_bset_intersection [simp]: "set (bset_intersection xs ys) = set xs \<inter> set ys"
  by (auto simp: bset_intersection_def)

lemma bset_collect_id: "bset_wf xs \<Longrightarrow> bset_collect xs = xs"
  by (metis bset_wf_collect bset_wf_def set_bset_collect strict_sorted_equal)

lemma bset_wf_eq: "bset_wf xs \<Longrightarrow> bset_wf ys \<Longrightarrow> set xs = set ys \<Longrightarrow> xs = ys"
  by (metis bset_wf_def strict_sorted_equal)

lemma bset_collect_eq_iff: "bset_collect xs = bset_collect ys \<longleftrightarrow> set xs = set ys"
proof
  assume "bset_collect xs = bset_collect ys"
  then have "set (bset_collect xs) = set (bset_collect ys)" by (rule arg_cong)
  then show "set xs = set ys" by simp
next
  assume "set xs = set ys"
  then show "bset_collect xs = bset_collect ys"
    by (intro bset_wf_eq [OF bset_wf_collect bset_wf_collect]) simp
qed

end
