(* ===== verification/RustText.thy ===== *)
theory RustText
  imports Prelude
begin

text \<open>
  The text operations of the standard library the program uses: decimal digits, the parsers and
  printers of unsigned integers, \<open>split\<close>, \<open>trim\<close> and \<open>trim_end_matches\<close>. A string is the byte
  list of its UTF-8 form.
\<close>

named_theorems text_facts \<open>digits, parsing and printing\<close>

section \<open>Digits\<close>

definition is_digit :: "char \<Rightarrow> bool" where
  "is_digit c \<longleftrightarrow> 48 \<le> (of_char c :: nat) \<and> (of_char c :: nat) \<le> 57"

definition digit_val :: "char \<Rightarrow> nat" where
  "digit_val c = of_char c - 48"

definition digit_char :: "nat \<Rightarrow> char" where
  "digit_char d = char_of (48 + d)"

fun digits_val :: "nat \<Rightarrow> string \<Rightarrow> nat" where
  "digits_val acc [] = acc"
| "digits_val acc (c # cs) = digits_val (10 * acc + digit_val c) cs"

abbreviation all_digits :: "string \<Rightarrow> bool" where
  "all_digits s \<equiv> list_all is_digit s"

lemma digit_char_roundtrip [text_facts, simp]:
  "d < 10 \<Longrightarrow> digit_val (digit_char d) = d" "d < 10 \<Longrightarrow> is_digit (digit_char d)"
  by (simp_all add: digit_val_def digit_char_def is_digit_def of_char_of)

lemma digit_chars [simp]:
  "digit_char 0 = CHR ''0''" "digit_char 1 = CHR ''1''" "digit_char (Suc 0) = CHR ''1''"
  "digit_char 2 = CHR ''2''" "digit_char 3 = CHR ''3''" "digit_char 4 = CHR ''4''"
  "digit_char 5 = CHR ''5''" "digit_char 6 = CHR ''6''" "digit_char 7 = CHR ''7''"
  "digit_char 8 = CHR ''8''" "digit_char 9 = CHR ''9''"
  by code_simp+

lemma digit_val_less: "is_digit c \<Longrightarrow> digit_val c < 10"
  by (auto simp: is_digit_def digit_val_def)

lemma digit_char_digit_val: "is_digit c \<Longrightarrow> digit_char (digit_val c) = c"
  by (auto simp: is_digit_def digit_val_def digit_char_def)

lemma digit_zero [simp]: "is_digit CHR ''0''" "digit_val CHR ''0'' = 0"
  by (simp_all add: is_digit_def digit_val_def)

lemma not_digits [simp]: "\<not> is_digit CHR ''.''" "\<not> is_digit CHR ''-''" "\<not> is_digit CHR ''+''"
  by (simp_all add: is_digit_def)

lemma digits_val_append [text_facts]: "digits_val a (xs @ ys) = digits_val (digits_val a xs) ys"
  by (induction xs arbitrary: a) auto

lemma digits_val_acc: "digits_val a xs = a * 10 ^ length xs + digits_val 0 xs"
proof (induction xs arbitrary: a)
  case (Cons c cs)
  show ?case
    using Cons.IH [of "10 * a + digit_val c"] Cons.IH [of "digit_val c"]
    by (simp add: algebra_simps)
qed simp

lemma digits_val_zeros [simp]: "digits_val 0 (replicate n CHR ''0'') = 0"
  by (induction n) auto

lemma digits_val_trailing_zeros:
  "digits_val a (xs @ replicate n CHR ''0'') = digits_val a xs * 10 ^ n"
  by (subst digits_val_append) (simp add: digits_val_acc [of "digits_val a xs"])

lemma digits_val_mono_acc: "a \<le> digits_val a xs"
proof -
  have "a * 1 \<le> a * 10 ^ length xs" by (intro mult_le_mono2) simp
  then show ?thesis by (subst digits_val_acc) linarith
qed

lemma digits_val_less: "all_digits xs \<Longrightarrow> digits_val 0 xs < 10 ^ length xs"
proof (induction xs rule: rev_induct)
  case (snoc c cs)
  then show ?case using digit_val_less [of c] by (auto simp: digits_val_append)
qed simp

section \<open>Printing\<close>

fun show_nat :: "nat \<Rightarrow> string" where
  "show_nat n = (if n < 10 then [digit_char n] else show_nat (n div 10) @ [digit_char (n mod 10)])"

declare show_nat.simps [simp del]

definition pad_left :: "nat \<Rightarrow> string \<Rightarrow> string" where
  "pad_left w s = replicate (w - length s) CHR ''0'' @ s"

lemma digits_val_show_nat [text_facts, simp]: "digits_val 0 (show_nat n) = n"
proof (induction n rule: show_nat.induct)
  case (1 n)
  then show ?case by (subst show_nat.simps) (simp add: digits_val_append)
qed

lemma all_digits_show_nat [text_facts, simp]: "all_digits (show_nat n)"
proof (induction n rule: show_nat.induct)
  case (1 n)
  then show ?case by (subst show_nat.simps) simp
qed

lemma show_nat_neq_Nil [text_facts, simp]: "show_nat n \<noteq> []"
  by (subst show_nat.simps) simp

lemma length_show_nat_le: "n < 10 ^ Suc k \<Longrightarrow> length (show_nat n) \<le> Suc k"
proof (induction k arbitrary: n)
  case 0
  then show ?case by (subst show_nat.simps) simp
next
  case (Suc k)
  then have "n div 10 < 10 ^ Suc k" by (simp add: less_mult_imp_div_less)
  then show ?case using Suc.IH [of "n div 10"] by (subst show_nat.simps) simp
qed

lemma pad_left_facts:
  "digits_val 0 (pad_left w s) = digits_val 0 s"
  "all_digits (pad_left w s) \<longleftrightarrow> all_digits s"
  "length s \<le> w \<Longrightarrow> length (pad_left w s) = w"
  by (auto simp: pad_left_def digits_val_append list_all_iff)

section \<open>Parsing\<close>

text \<open>
  \<open>str::parse\<close> at an unsigned type: an optional plus sign, at least one digit, nothing else, and
  a value that fits the type.
\<close>

definition parse_nat :: "string \<Rightarrow> nat option" where
  "parse_nat s =
     (let d = (case s of c # r \<Rightarrow> if c = CHR ''+'' then r else s | [] \<Rightarrow> s)
      in if d \<noteq> [] \<and> all_digits d then Some (digits_val 0 d) else None)"

definition parse_uint :: "string \<Rightarrow> 'a::len word option" where
  "parse_uint s =
     (case parse_nat s of
        None \<Rightarrow> None
      | Some n \<Rightarrow> if n < 2 ^ LENGTH('a) then Some (of_nat n) else None)"

definition show_word :: "'a::len word \<Rightarrow> string" where
  "show_word w = show_nat (unat w)"

lemma parse_nat_digits: "all_digits d \<Longrightarrow> d \<noteq> [] \<Longrightarrow> parse_nat d = Some (digits_val 0 d)"
  by (cases d) (auto simp: parse_nat_def)

lemma parse_uint_digits:
  "all_digits d \<Longrightarrow> d \<noteq> [] \<Longrightarrow>
   (parse_uint d :: 'a::len word option)
     = (if digits_val 0 d < 2 ^ LENGTH('a) then Some (of_nat (digits_val 0 d)) else None)"
  by (simp add: parse_uint_def parse_nat_digits)

lemma parse_uint_show_word [text_facts, simp]: "parse_uint (show_word w) = Some (w :: 'a::len word)"
  by (simp add: show_word_def parse_uint_digits)

lemma parse_uint_Some:
  "parse_uint s = Some (w :: 'a::len word) \<Longrightarrow> parse_nat s = Some (unat w)"
  by (auto simp: parse_uint_def unat_of_nat take_bit_nat_eq_self_iff split: option.splits if_splits)

lemma show_word_facts [text_facts, simp]: "all_digits (show_word w)" "show_word w \<noteq> []"
  by (simp_all add: show_word_def)

section \<open>Splitting and trimming\<close>

fun split_on :: "char \<Rightarrow> string \<Rightarrow> string list" where
  "split_on sep [] = [[]]"
| "split_on sep (c # cs) =
     (if c = sep then [] # split_on sep cs
      else case split_on sep cs of [] \<Rightarrow> [[c]] | p # ps \<Rightarrow> (c # p) # ps)"

lemma split_on_neq_Nil [simp]: "split_on sep s \<noteq> []"
  by (induction s) (auto split: list.splits)

lemma split_on_none [text_facts]: "sep \<notin> set s \<Longrightarrow> split_on sep s = [s]"
  by (induction s) auto

lemma split_on_append [text_facts]:
  "sep \<notin> set p \<Longrightarrow> split_on sep (p @ sep # rest) = p # split_on sep rest"
  by (induction p) auto

lemma all_digits_no_dot: "all_digits s \<Longrightarrow> CHR ''.'' \<notin> set s"
  by (auto simp: list_all_iff)

text \<open>
  \<open>trim\<close> removes the code points with the property White\_Space. \<open>ws_prefix\<close> is the length of
  such a code point at the head of a byte string (0 when there is none), \<open>ws_suffix\<close> its mirror
  on the reversed string.
\<close>

definition ws_byte :: "char \<Rightarrow> bool" where
  "ws_byte c \<longleftrightarrow> (let n = (of_char c :: nat) in 9 \<le> n \<and> n \<le> 13 \<or> n = 32)"

definition ws_two :: "nat \<Rightarrow> nat \<Rightarrow> bool" where
  "ws_two a b \<longleftrightarrow> a = 194 \<and> (b = 133 \<or> b = 160)"

definition ws_three :: "nat \<Rightarrow> nat \<Rightarrow> nat \<Rightarrow> bool" where
  "ws_three a b c \<longleftrightarrow>
     a = 225 \<and> b = 154 \<and> c = 128
   \<or> a = 226 \<and> b = 128 \<and> (128 \<le> c \<and> c \<le> 138 \<or> c = 168 \<or> c = 169 \<or> c = 175)
   \<or> a = 226 \<and> b = 129 \<and> c = 159
   \<or> a = 227 \<and> b = 128 \<and> c = 128"

fun ws_prefix :: "string \<Rightarrow> nat" where
  "ws_prefix (a # b # c # s) =
     (if ws_byte a then 1
      else if ws_two (of_char a) (of_char b) then 2
      else if ws_three (of_char a) (of_char b) (of_char c) then 3 else 0)"
| "ws_prefix [a, b] = (if ws_byte a then 1 else if ws_two (of_char a) (of_char b) then 2 else 0)"
| "ws_prefix [a] = (if ws_byte a then 1 else 0)"
| "ws_prefix [] = 0"

fun ws_suffix :: "string \<Rightarrow> nat" where
  "ws_suffix (c # b # a # s) =
     (if ws_byte c then 1
      else if ws_two (of_char b) (of_char c) then 2
      else if ws_three (of_char a) (of_char b) (of_char c) then 3 else 0)"
| "ws_suffix [b, a] = (if ws_byte b then 1 else if ws_two (of_char a) (of_char b) then 2 else 0)"
| "ws_suffix [a] = (if ws_byte a then 1 else 0)"
| "ws_suffix [] = 0"

lemma ws_prefix_Nil_drop: "ws_prefix s \<noteq> 0 \<Longrightarrow> length (drop (ws_prefix s) s) < length s"
  by (cases s) auto

lemma ws_suffix_Nil_drop: "ws_suffix s \<noteq> 0 \<Longrightarrow> length (drop (ws_suffix s) s) < length s"
  by (cases s) auto

function trim_front :: "(string \<Rightarrow> nat) \<Rightarrow> string \<Rightarrow> string" where
  "trim_front ws s =
     (if ws s \<noteq> 0 \<and> s \<noteq> [] then trim_front ws (drop (ws s) s) else s)"
  by pat_completeness auto
termination
  by (relation "measure (\<lambda>(ws, s). length s)") (auto simp: neq_Nil_conv)

declare trim_front.simps [simp del]

definition trim :: "string \<Rightarrow> string" where
  "trim s = rev (trim_front ws_suffix (rev (trim_front ws_prefix s)))"

definition trim_end_zeros :: "string \<Rightarrow> string" where
  "trim_end_zeros s = rev (dropWhile (\<lambda>c. c = CHR ''0'') (rev s))"

definition trim_end_dots :: "string \<Rightarrow> string" where
  "trim_end_dots s = rev (dropWhile (\<lambda>c. c = CHR ''.'') (rev s))"

lemma digit_not_ws: "is_digit c \<Longrightarrow> \<not> ws_byte c \<and> of_char c \<noteq> (194::nat) \<and>
    of_char c \<noteq> (225::nat) \<and> of_char c \<noteq> (226::nat) \<and> of_char c \<noteq> (227::nat)"
  by (auto simp: is_digit_def ws_byte_def Let_def)

lemma ws_prefix_digit:
  assumes "is_digit c"
  shows "ws_prefix (c # s) = 0"
proof -
  note facts = digit_not_ws [OF assms]
  show ?thesis
  proof (cases s)
    case (Cons b r)
    then show ?thesis using facts by (cases r) (simp_all add: ws_two_def ws_three_def)
  qed (simp add: facts)
qed

lemma ws_suffix_digit:
  assumes "is_digit c"
  shows "ws_suffix (c # s) = 0"
proof -
  have small: "(of_char c :: nat) < 128" using assms by (simp add: is_digit_def)
  note facts = digit_not_ws [OF assms]
  show ?thesis
  proof (cases s)
    case (Cons b r)
    then show ?thesis using facts small by (cases r) (auto simp: ws_two_def ws_three_def)
  qed (simp add: facts)
qed

lemma trim_front_stop: "ws s = 0 \<Longrightarrow> trim_front ws s = s"
  by (subst trim_front.simps) simp

lemma trim_digit_ends:
  assumes "s \<noteq> []" and "is_digit (hd s)" and "is_digit (last s)"
  shows "trim s = s"
proof -
  have "ws_prefix s = 0" using assms(1,2) ws_prefix_digit [of "hd s" "tl s"] by simp
  moreover have "rev s = last s # rev (butlast s)"
    using assms(1) by (metis append_butlast_last_id rev_eq_Cons_iff rev_rev_ident)
  then have "ws_suffix (rev s) = 0" by (metis assms(3) ws_suffix_digit)
  ultimately show ?thesis by (simp add: trim_def trim_front_stop)
qed

lemma trim_end_zeros_snoc:
  "trim_end_zeros (s @ [c]) = (if c = CHR ''0'' then trim_end_zeros s else s @ [c])"
  by (simp add: trim_end_zeros_def)

lemma trim_end_zeros_pad: "\<exists>n. s = trim_end_zeros s @ replicate n CHR ''0''"
proof (induction s rule: rev_induct)
  case Nil
  then show ?case by (simp add: trim_end_zeros_def)
next
  case (snoc c s)
  show ?case
  proof (cases "c = CHR ''0''")
    case True
    from snoc obtain n where "s = trim_end_zeros s @ replicate n CHR ''0''" ..
    then have "s @ [c] = trim_end_zeros (s @ [c]) @ replicate (Suc n) CHR ''0''"
      using True by (metis append.assoc replicate_Suc replicate_append_same trim_end_zeros_snoc)
    then show ?thesis ..
  next
    case False
    then show ?thesis by (intro exI [of _ 0]) (simp add: trim_end_zeros_snoc)
  qed
qed

lemma trim_end_zeros_append:
  "\<not> list_all (\<lambda>c. c = CHR ''0'') s \<Longrightarrow> trim_end_zeros (p @ s) = p @ trim_end_zeros s"
  by (auto simp: trim_end_zeros_def list_all_iff dropWhile_append2 dropWhile_append1)

section \<open>ASCII case\<close>

definition to_ascii_lower :: "char \<Rightarrow> char" where
  "to_ascii_lower c =
     (let n = (of_char c :: nat) in if 65 \<le> n \<and> n \<le> 90 then char_of (n + 32) else c)"

definition ascii_lowercase :: "string \<Rightarrow> string" where
  "ascii_lowercase s = map to_ascii_lower s"

end
