(* ===== verification/CoreTypes.thy ===== *)
theory CoreTypes
  imports Prelude
begin

text \<open>
  The shared vocabulary of the workspace (\<open>rtt-core\<close>: \<open>trigger.rs\<close>, \<open>market.rs\<close>,
  \<open>feed_source.rs\<close>, \<open>public_event.rs\<close>, \<open>polymarket.rs\<close>): triggers, snapshots, market metadata,
  source identities, update notices and their payloads. A record's fields carry a short prefix
  because Isabelle's field names are global; the string newtypes are strings.
\<close>

section \<open>trigger.rs\<close>

datatype side = Buy | Sell

datatype order_type = GTC | GTD | FOK | FAK

record trigger_message =
  tm_trigger_id :: u64
  tm_token_id :: string
  tm_side :: side
  tm_price :: string
  tm_size :: string
  tm_order_type :: order_type
  tm_timestamp_ns :: u64

record price_level =
  pl_price :: string
  pl_size :: string

record order_book_snapshot =
  obs_asset_id :: string
  obs_best_bid :: "price_level option"
  obs_best_ask :: "price_level option"
  obs_timestamp_ms :: u64
  obs_hash :: string

record trade_event =
  te_asset_id :: string
  te_price :: string
  te_size :: string
  te_side :: side
  te_timestamp_ms :: u64

section \<open>market.rs\<close>

type_synonym string_value = string
type_synonym market_id = string_value
type_synonym asset_id = string_value
type_synonym tick_size = string_value
type_synonym min_order_size = string_value

datatype outcome_side = OutcomeYes | OutcomeNo

record outcome_token =
  ot_asset_id :: asset_id
  ot_side :: outcome_side

datatype market_status = MarketActive | MarketClosed | MarketSuspended | MarketUnknown

datatype reward_freshness = RewardFresh | RewardStaleButUsable | RewardUnknown

record reward_params =
  rp_rate_bps :: "u64 option"
  rp_max_spread :: "string_value option"
  rp_min_size :: "string_value option"
  rp_min_notional :: "string_value option"
  rp_updated_at_ms :: "u64 option"
  rp_freshness :: reward_freshness

record market_meta =
  mm_market_id :: market_id
  mm_yes_asset :: outcome_token
  mm_no_asset :: outcome_token
  mm_condition_id :: "string option"
  mm_tick_size :: tick_size
  mm_min_order_size :: "min_order_size option"
  mm_status :: market_status
  mm_reward :: "reward_params option"

definition outcome_token_new :: "asset_id \<Rightarrow> outcome_side \<Rightarrow> outcome_token" where
  "outcome_token_new a s = \<lparr>ot_asset_id = a, ot_side = s\<rparr>"

definition asset_for_side :: "market_meta \<Rightarrow> outcome_side \<Rightarrow> asset_id" where
  "asset_for_side m s =
     (case s of OutcomeYes \<Rightarrow> ot_asset_id (mm_yes_asset m) | OutcomeNo \<Rightarrow> ot_asset_id (mm_no_asset m))"

definition side_for_asset :: "market_meta \<Rightarrow> asset_id \<Rightarrow> outcome_side option" where
  "side_for_asset m a =
     (if ot_asset_id (mm_yes_asset m) = a then Some OutcomeYes
      else if ot_asset_id (mm_no_asset m) = a then Some OutcomeNo
      else None)"

definition is_tradable :: "market_meta \<Rightarrow> bool" where
  "is_tradable m \<longleftrightarrow> mm_status m = MarketActive"

lemma asset_for_side_for_asset:
  "side_for_asset m a = Some s \<Longrightarrow> asset_for_side m s = a"
  by (auto simp: side_for_asset_def asset_for_side_def split: if_splits)

section \<open>feed\_source.rs and polymarket.rs\<close>

type_synonym source_id = string

datatype source_kind = PolymarketWs | PolymarketRest | ExternalReference | ExternalTrade | Synthetic

datatype instrument_kind = KindSource | KindMarket | KindAsset | KindSymbol

record instrument_ref =
  ir_source_id :: source_id
  ir_kind :: instrument_kind
  ir_instrument_id :: string

definition instrument_asset :: "source_id \<Rightarrow> string \<Rightarrow> instrument_ref" where
  "instrument_asset s i = \<lparr>ir_source_id = s, ir_kind = KindAsset, ir_instrument_id = i\<rparr>"

definition instrument_market :: "source_id \<Rightarrow> string \<Rightarrow> instrument_ref" where
  "instrument_market s i = \<lparr>ir_source_id = s, ir_kind = KindMarket, ir_instrument_id = i\<rparr>"

definition instrument_symbol :: "source_id \<Rightarrow> string \<Rightarrow> instrument_ref" where
  "instrument_symbol s i = \<lparr>ir_source_id = s, ir_kind = KindSymbol, ir_instrument_id = i\<rparr>"

definition instrument_source :: "source_id \<Rightarrow> instrument_ref" where
  "instrument_source s = \<lparr>ir_source_id = s, ir_kind = KindSource, ir_instrument_id = ''_source''\<rparr>"

text \<open>The name \<open>{:?}\<close> prints for an instrument kind; the stores use it as part of their keys.\<close>

definition instrument_kind_debug :: "instrument_kind \<Rightarrow> string" where
  "instrument_kind_debug k =
     (case k of KindSource \<Rightarrow> ''Source'' | KindMarket \<Rightarrow> ''Market''
              | KindAsset \<Rightarrow> ''Asset'' | KindSymbol \<Rightarrow> ''Symbol'')"

lemma instrument_kind_debug_inj [simp]:
  "instrument_kind_debug k = instrument_kind_debug l \<longleftrightarrow> k = l"
  by (cases k; cases l) (simp_all add: instrument_kind_debug_def)

definition clob_host :: string where
  "clob_host = ''clob.polymarket.com''"

definition clob_port :: "16 word" where
  "clob_port = 443"

definition public_source_id :: source_id where
  "public_source_id = ''polymarket-public''"

section \<open>public\_event.rs\<close>

datatype update_kind =
    UKBookSnapshot | UKBookDelta | UKBestBidAsk | UKTradeTick | UKReferencePrice
  | UKTickSizeChange | UKReconnect | UKSourceStatus | UKCustom

record update_notice =
  un_source_id :: source_id
  un_source_kind :: source_kind
  un_subject :: instrument_ref
  un_kind :: update_kind
  un_version :: u64
  un_source_hash :: "string option"

record book_level =
  bl_price :: string_value
  bl_size :: string_value

record book_snapshot_update =
  bs_market_id :: market_id
  bs_asset_id :: asset_id
  bs_bids :: "book_level list"
  bs_asks :: "book_level list"
  bs_timestamp_ms :: u64
  bs_source_hash :: "string option"

record book_delta_update =
  bd_market_id :: market_id
  bd_asset_id :: asset_id
  bd_price :: string_value
  bd_size :: string_value
  bd_side :: side
  bd_timestamp_ms :: u64
  bd_best_bid :: "string_value option"
  bd_best_ask :: "string_value option"
  bd_source_hash :: "string option"

record best_bid_ask_update =
  bba_market_id :: market_id
  bba_asset_id :: asset_id
  bba_best_bid :: string_value
  bba_best_ask :: string_value
  bba_spread :: "string_value option"
  bba_timestamp_ms :: u64

record trade_tick_update =
  tt_market_id :: "market_id option"
  tt_asset_id :: "asset_id option"
  tt_price :: string_value
  tt_size :: "string_value option"
  tt_side :: "side option"
  tt_timestamp_ms :: u64

record reference_price_update =
  rpu_price :: string_value
  rpu_notional :: "string_value option"
  rpu_timestamp_ms :: u64

record tick_size_change_update =
  tsc_market_id :: market_id
  tsc_asset_id :: asset_id
  tsc_old_tick_size :: tick_size
  tsc_new_tick_size :: tick_size
  tsc_timestamp_ms :: u64

record reconnect_update =
  rc_sequence :: u64
  rc_timestamp_ms :: u64

record source_status_update =
  ss_healthy :: bool
  ss_stale_after_ms :: "u64 option"
  ss_observed_at_ms :: u64
  ss_detail :: "string option"

datatype normalized_update_payload =
    BookSnapshot book_snapshot_update
  | BookDelta book_delta_update
  | BestBidAsk best_bid_ask_update
  | TradeTick trade_tick_update
  | ReferencePrice reference_price_update
  | TickSizeChange tick_size_change_update
  | Reconnect reconnect_update
  | SourceStatus source_status_update

record normalized_update =
  nu_notice :: update_notice
  nu_payload :: normalized_update_payload

definition payload_kind :: "normalized_update_payload \<Rightarrow> update_kind" where
  "payload_kind p =
     (case p of
        BookSnapshot _ \<Rightarrow> UKBookSnapshot
      | BookDelta _ \<Rightarrow> UKBookDelta
      | BestBidAsk _ \<Rightarrow> UKBestBidAsk
      | TradeTick _ \<Rightarrow> UKTradeTick
      | ReferencePrice _ \<Rightarrow> UKReferencePrice
      | TickSizeChange _ \<Rightarrow> UKTickSizeChange
      | Reconnect _ \<Rightarrow> UKReconnect
      | SourceStatus _ \<Rightarrow> UKSourceStatus)"

text \<open>The asset a payload names, for the payloads that the book stores apply.\<close>

definition payload_book_asset :: "normalized_update_payload \<Rightarrow> asset_id option" where
  "payload_book_asset p =
     (case p of
        BookSnapshot s \<Rightarrow> Some (bs_asset_id s)
      | BookDelta d \<Rightarrow> Some (bd_asset_id d)
      | BestBidAsk b \<Rightarrow> Some (bba_asset_id b)
      | TickSizeChange t \<Rightarrow> Some (tsc_asset_id t)
      | _ \<Rightarrow> None)"

end
