(* ===== verification/ClobOrder.thy ===== *)
theory ClobOrder
  imports CoreTypes RustText
begin

text \<open>
  Orders and their amounts (\<open>rtt-core/src/clob_order.rs\<close>): the decimal parser, the maker and
  taker amounts in base units of \<open>10^-6\<close>, the salt, the order and its JSON form. The types of
  \<open>alloy\<close> are words; its printers are arguments of the definitions that print.
\<close>

section \<open>Data\<close>

type_synonym address = "160 word"

record clob_order =
  o_salt :: u256
  o_maker :: address
  o_signer :: address
  o_taker :: address
  o_token_id :: u256
  o_maker_amount :: u256
  o_taker_amount :: u256
  o_expiration :: u256
  o_nonce :: u256
  o_fee_rate_bps :: u256
  o_side :: u8
  o_signature_type :: u8

definition exchange_address :: address where
  "exchange_address = 0x4bFb41d5B3570DeFd03C39a9A4D8dE6Bd8B8982E"

definition neg_risk_exchange_address :: address where
  "neg_risk_exchange_address = 0xC5d563A36AE78145C45a50134d48A1215220f80a"

datatype clob_side = ClobBuy | ClobSell

definition clob_side_of :: "side \<Rightarrow> clob_side" where
  "clob_side_of s = (case s of Buy \<Rightarrow> ClobBuy | Sell \<Rightarrow> ClobSell)"

definition clob_side_u8 :: "clob_side \<Rightarrow> u8" where
  "clob_side_u8 s = (case s of ClobBuy \<Rightarrow> 0 | ClobSell \<Rightarrow> 1)"

datatype signature_type = SigEoa | SigPoly | SigGnosisSafe

definition signature_type_u8 :: "signature_type \<Rightarrow> u8" where
  "signature_type_u8 t = (case t of SigEoa \<Rightarrow> 0 | SigPoly \<Rightarrow> 1 | SigGnosisSafe \<Rightarrow> 2)"

datatype amount_error =
    InvalidFormat string string
  | UnsupportedPrecision string string nat
  | AmountOverflow string string

fun amount_error_text :: "amount_error \<Rightarrow> string" where
  "amount_error_text (InvalidFormat field value) = field @ '' has invalid decimal format: '' @ value"
| "amount_error_text (UnsupportedPrecision field value max_decimals) =
     field @ '' exceeds supported precision ('' @ show_nat max_decimals @ '' decimals max): '' @ value"
| "amount_error_text (AmountOverflow field value) = field @ '' overflow while converting amount: '' @ value"

section \<open>The decimal parser\<close>

definition usdc_decimals :: nat where
  "usdc_decimals = 6"

definition base_unit_scale :: u128 where
  "base_unit_scale = 10 ^ usdc_decimals"

text \<open>
  The loop over the bytes, with its five variables: the whole part, the fractional part, the
  number of fractional digits, whether a dot and whether a digit were seen.
\<close>

definition push_digit :: "u128 \<Rightarrow> char \<Rightarrow> u128 option" where
  "push_digit acc c = Option.bind (checked_mul acc 10) (\<lambda>scaled. checked_add scaled (of_nat (digit_val c)))"

fun scan_amount :: "string \<Rightarrow> string \<Rightarrow> u128 \<Rightarrow> u128 \<Rightarrow> nat \<Rightarrow> bool \<Rightarrow> bool \<Rightarrow> string
    \<Rightarrow> (amount_error, u128 \<times> u128 \<times> nat \<times> bool) result" where
  "scan_amount field value whole frac fd saw_dot saw_digit [] = Inr (whole, frac, fd, saw_digit)"
| "scan_amount field value whole frac fd saw_dot saw_digit (c # cs) =
     (if is_digit c then
        if saw_dot then
          if usdc_decimals \<le> fd then Inl (UnsupportedPrecision field value usdc_decimals)
          else bind_result (ok_or (AmountOverflow field value) (push_digit frac c))
                 (\<lambda>frac'. scan_amount field value whole frac' (fd + 1) saw_dot True cs)
        else bind_result (ok_or (AmountOverflow field value) (push_digit whole c))
               (\<lambda>whole'. scan_amount field value whole' frac fd saw_dot True cs)
      else if c = CHR ''.'' \<and> \<not> saw_dot then
        scan_amount field value whole frac fd True saw_digit cs
      else Inl (InvalidFormat field value))"

definition parse_scaled_decimal :: "string \<Rightarrow> string \<Rightarrow> (amount_error, u128) result" where
  "parse_scaled_decimal value field =
     (if value = [] then Inl (InvalidFormat field value)
      else bind_result (scan_amount field value 0 0 0 False False value)
        (\<lambda>(whole, frac, fd, saw_digit).
           if \<not> saw_digit then Inl (InvalidFormat field value)
           else bind_result (ok_or (AmountOverflow field value) (checked_mul whole base_unit_scale))
             (\<lambda>scaled_whole. bind_result
                (ok_or (AmountOverflow field value) (checked_mul frac (10 ^ (usdc_decimals - fd))))
                (\<lambda>scaled_frac. ok_or (AmountOverflow field value)
                   (checked_add scaled_whole scaled_frac)))))"

definition compute_amounts ::
    "string \<Rightarrow> string \<Rightarrow> clob_side \<Rightarrow> (amount_error, u256 \<times> u256) result" where
  "compute_amounts price sz side =
     bind_result (parse_scaled_decimal price ''price'') (\<lambda>price_scaled.
     bind_result (parse_scaled_decimal sz ''size'') (\<lambda>token_amount.
     bind_result (ok_or (AmountOverflow ''makerAmount''
                           (''price='' @ price @ '' size='' @ sz))
                    (map_option (\<lambda>v. v div base_unit_scale) (checked_mul price_scaled token_amount)))
       (\<lambda>usdc_amount.
          case side of
            ClobBuy \<Rightarrow> Inr (ucast usdc_amount, ucast token_amount)
          | ClobSell \<Rightarrow> Inr (ucast token_amount, ucast usdc_amount))))"

section \<open>The salt, the JSON order and the payload\<close>

definition generate_salt :: "u64 \<Rightarrow> u64" where
  "generate_salt raw = and raw (push_bit 53 1 - 1)"

record order_json =
  oj_salt :: u64
  oj_maker :: string
  oj_signer :: string
  oj_taker :: string
  oj_token_id :: string
  oj_maker_amount :: string
  oj_taker_amount :: string
  oj_expiration :: string
  oj_nonce :: string
  oj_fee_rate_bps :: string
  oj_side :: string
  oj_signature_type :: u8
  oj_signature :: string

text \<open>
  \<open>salt.to::<u64>()\<close> panics on a salt of 64 bits or more: \<open>None\<close>. The printers of addresses and
  256-bit integers are \<open>alloy\<close>'s.
\<close>

definition u256_to_u64 :: "u256 \<Rightarrow> u64 option" where
  "u256_to_u64 w = (if unat w < 2 ^ 64 then Some (ucast w) else None)"

definition order_json_from_order ::
    "(address \<Rightarrow> string) \<Rightarrow> (u256 \<Rightarrow> string) \<Rightarrow> clob_order \<Rightarrow> string \<Rightarrow> order_json option" where
  "order_json_from_order show_addr show_u256 ord sig =
     (case u256_to_u64 (o_salt ord) of
        None \<Rightarrow> None
      | Some salt \<Rightarrow> Some
          \<lparr>oj_salt = salt,
           oj_maker = show_addr (o_maker ord),
           oj_signer = show_addr (o_signer ord),
           oj_taker = show_addr (o_taker ord),
           oj_token_id = show_u256 (o_token_id ord),
           oj_maker_amount = show_u256 (o_maker_amount ord),
           oj_taker_amount = show_u256 (o_taker_amount ord),
           oj_expiration = show_u256 (o_expiration ord),
           oj_nonce = show_u256 (o_nonce ord),
           oj_fee_rate_bps = show_u256 (o_fee_rate_bps ord),
           oj_side = (if o_side ord = 0 then ''BUY'' else ''SELL''),
           oj_signature_type = o_signature_type ord,
           oj_signature = sig\<rparr>)"

record signed_order_payload =
  sp_order :: order_json
  sp_order_type :: string
  sp_owner :: string

definition order_type_text :: "order_type \<Rightarrow> string" where
  "order_type_text t =
     (case t of GTC \<Rightarrow> ''GTC'' | GTD \<Rightarrow> ''GTD'' | FOK \<Rightarrow> ''FOK'' | FAK \<Rightarrow> ''FAK'')"

definition signed_order_payload_new ::
    "(address \<Rightarrow> string) \<Rightarrow> (u256 \<Rightarrow> string) \<Rightarrow> clob_order \<Rightarrow> string \<Rightarrow> order_type \<Rightarrow> string
      \<Rightarrow> signed_order_payload option" where
  "signed_order_payload_new show_addr show_u256 ord sig ot owner =
     map_option (\<lambda>oj. \<lparr>sp_order = oj, sp_order_type = order_type_text ot, sp_owner = owner\<rparr>)
       (order_json_from_order show_addr show_u256 ord sig)"

section \<open>A reference for the decimal parser\<close>

text \<open>
  The value a decimal text denotes, in millionths, over the naturals: digits with at most one dot,
  at least one digit in all and at most six after the dot.
\<close>

definition decimal_micros :: "string \<Rightarrow> nat option" where
  "decimal_micros s =
     (case split_on CHR ''.'' s of
        [w] \<Rightarrow> if w \<noteq> [] \<and> all_digits w then Some (digits_val 0 w * 10 ^ 6) else None
      | [w, f] \<Rightarrow>
          if w @ f \<noteq> [] \<and> all_digits w \<and> all_digits f \<and> length f \<le> 6
          then Some (digits_val 0 w * 10 ^ 6 + digits_val 0 f * 10 ^ (6 - length f)) else None
      | _ \<Rightarrow> None)"

lemma unat_base_unit_scale [simp]: "unat base_unit_scale = 10 ^ 6"
  by (simp add: base_unit_scale_def usdc_decimals_def)

lemma push_digit_Some:
  "is_digit c \<Longrightarrow> push_digit acc c = Some acc' \<longleftrightarrow> unat acc' = 10 * unat acc + digit_val c"
proof -
  assume "is_digit c"
  then have d: "unat (of_nat (digit_val c) :: u128) = digit_val c"
    using digit_val_less [of c] by (simp add: unat_of_nat)
  show ?thesis
  proof (cases "checked_mul acc 10")
    case None
    then have "2 ^ 128 \<le> unat acc * 10" by (simp add: arith_facts)
    moreover have "unat acc' < 2 ^ 128" using unat_less_pow [of acc'] by simp
    ultimately have "unat acc' \<noteq> 10 * unat acc + digit_val c" by linarith
    with None show ?thesis by (simp add: push_digit_def)
  next
    case (Some s)
    then have "unat s = unat acc * 10" by (simp add: arith_facts)
    with Some d show ?thesis by (simp add: push_digit_def checked_add_Some mult.commute)
  qed
qed

lemma push_digit_None:
  "is_digit c \<Longrightarrow> push_digit acc c = None \<longleftrightarrow> 2 ^ 128 \<le> 10 * unat acc + digit_val c"
proof -
  assume d: "is_digit c"
  show ?thesis
  proof
    assume none: "push_digit acc c = None"
    show "2 ^ 128 \<le> 10 * unat acc + digit_val c"
    proof (rule ccontr)
      assume "\<not> 2 ^ 128 \<le> 10 * unat acc + digit_val c"
      then have "push_digit acc c = Some (of_nat (10 * unat acc + digit_val c))"
        using push_digit_Some [OF d] by (simp add: unat_of_nat del: of_nat_add of_nat_mult)
      with none show False by simp
    qed
  next
    assume big: "2 ^ 128 \<le> 10 * unat acc + digit_val c"
    show "push_digit acc c = None"
    proof (rule ccontr)
      assume "push_digit acc c \<noteq> None"
      then obtain a where "push_digit acc c = Some a" by auto
      then show False using push_digit_Some [OF d] big unat_less_pow [of a] by simp
    qed
  qed
qed

lemma push_digit_eq:
  "is_digit c \<Longrightarrow> push_digit acc c =
     (if 10 * unat acc + digit_val c < 2 ^ 128 then Some (of_nat (10 * unat acc + digit_val c)) else None)"
  using push_digit_None [of c acc] push_digit_Some [of c acc]
  by (auto simp: unat_of_nat simp del: of_nat_add of_nat_mult)

lemma scan_fraction:
  "all_digits cs \<Longrightarrow> k + length cs \<le> 6 \<Longrightarrow>
   scan_amount fld v w f k True b cs =
     (if digits_val (unat f) cs < 2 ^ 128
      then Inr (w, of_nat (digits_val (unat f) cs), k + length cs, b \<or> cs \<noteq> [])
      else Inl (AmountOverflow fld v))"
proof (induction cs arbitrary: f k b)
  case (Cons c cs)
  have "10 * unat f + digit_val c \<le> digits_val (10 * unat f + digit_val c) cs"
    by (rule digits_val_mono_acc)
  then show ?case
    using Cons.IH [of "Suc k" "of_nat (10 * unat f + digit_val c)" True] Cons.prems
    by (auto simp: push_digit_eq usdc_decimals_def ok_or_def unat_of_nat simp del: of_nat_add of_nat_mult)
qed simp

lemma scan_whole:
  "all_digits p \<Longrightarrow>
   scan_amount fld v w f k False b (p @ rest) =
     (if digits_val (unat w) p < 2 ^ 128
      then scan_amount fld v (of_nat (digits_val (unat w) p)) f k False (b \<or> p \<noteq> []) rest
      else Inl (AmountOverflow fld v))"
proof (induction p arbitrary: w b)
  case (Cons c cs)
  have "10 * unat w + digit_val c \<le> digits_val (10 * unat w + digit_val c) cs"
    by (rule digits_val_mono_acc)
  then show ?case
    using Cons.IH [of "of_nat (10 * unat w + digit_val c)" True] Cons.prems
    by (auto simp: push_digit_eq ok_or_def unat_of_nat simp del: of_nat_add of_nat_mult)
qed simp

lemma scan_fraction_ok:
  "scan_amount fld v w f k True b cs = Inr r \<Longrightarrow> k \<le> 6 \<Longrightarrow> all_digits cs \<and> k + length cs \<le> 6"
  by (induction cs arbitrary: f k b)
     (fastforce simp: result_facts usdc_decimals_def split: if_splits)+

lemma scan_whole_ok:
  "scan_amount fld v w f 0 False b cs = Inr r \<Longrightarrow>
   all_digits cs \<or> (\<exists>p q. cs = p @ CHR ''.'' # q \<and> all_digits p \<and> all_digits q \<and> length q \<le> 6)"
proof (induction cs arbitrary: w b)
  case (Cons c cs)
  show ?case
  proof (cases "is_digit c")
    case True
    with Cons.prems obtain w' where "scan_amount fld v w' f 0 False True cs = Inr r"
      by (auto simp: result_facts)
    from Cons.IH [OF this] show ?thesis
    proof
      assume "\<exists>p q. cs = p @ CHR ''.'' # q \<and> all_digits p \<and> all_digits q \<and> length q \<le> 6"
      then obtain p q where "c # cs = (c # p) @ CHR ''.'' # q" "all_digits (c # p)" "all_digits q" "length q \<le> 6"
        using True by auto
      then show ?thesis by blast
    qed (simp add: True)
  next
    case False
    with Cons.prems have "c = CHR ''.''" "scan_amount fld v w f 0 True b cs = Inr r"
      by (auto split: if_splits)
    moreover from this(2) have "all_digits cs" "length cs \<le> 6"
      using scan_fraction_ok by fastforce+
    ultimately have "c # cs = [] @ CHR ''.'' # cs \<and> all_digits [] \<and> all_digits cs \<and> length cs \<le> 6"
      by simp
    then show ?thesis by blast
  qed
qed simp

lemma decimal_micros_digits:
  "all_digits w \<Longrightarrow> decimal_micros w = (if w = [] then None else Some (digits_val 0 w * 10 ^ 6))"
  by (simp add: decimal_micros_def split_on_none all_digits_no_dot)

lemma decimal_micros_dot:
  "all_digits w \<Longrightarrow> all_digits f \<Longrightarrow> length f \<le> 6 \<Longrightarrow>
   decimal_micros (w @ CHR ''.'' # f) =
     (if w @ f = [] then None else Some (digits_val 0 w * 10 ^ 6 + digits_val 0 f * 10 ^ (6 - length f)))"
  by (simp add: decimal_micros_def split_on_none split_on_append all_digits_no_dot)

lemma decimal_micros_Some:
  assumes "decimal_micros s = Some n"
  obtains "all_digits s" "s \<noteq> []"
  | w f where "s = w @ CHR ''.'' # f" "all_digits w" "all_digits f" "length f \<le> 6" "w @ f \<noteq> []"
proof -
  have join: "s = (case ps of [] \<Rightarrow> [] | p # qs \<Rightarrow> p @ concat (map (\<lambda>q. CHR ''.'' # q) qs))"
    if "split_on CHR ''.'' s = ps" for ps s
    using that by (induction s arbitrary: ps) (force split: list.splits if_splits)+
  show ?thesis
    using assms join [OF refl, of s] that
    by (fastforce simp: decimal_micros_def split: list.splits if_splits)
qed

lemma unat_ten_power: "k \<le> 6 \<Longrightarrow> unat (10 ^ k :: u128) = 10 ^ k"
proof -
  assume "k \<le> 6"
  then have "(10 :: nat) ^ k \<le> 10 ^ 6" by (intro power_increasing) simp_all
  then have "unat (of_nat (10 ^ k) :: u128) = 10 ^ k" by (intro unat_of_nat_less) simp
  then show ?thesis by simp
qed

lemma parse_whole:
  assumes "all_digits w" and "w \<noteq> []"
  shows "parse_scaled_decimal w fld =
    (if digits_val 0 w * 10 ^ 6 < 2 ^ 128 then Inr (of_nat (digits_val 0 w * 10 ^ 6))
     else Inl (AmountOverflow fld w))"
proof (cases "digits_val 0 w < 2 ^ 128")
  case True
  then show ?thesis
    using assms scan_whole [OF assms(1), of fld w 0 0 0 False "[]"] unat_of_nat_less [where 'a = 128, OF _]
    by (simp add: parse_scaled_decimal_def checked_mul_eq checked_add_eq ok_or_def unat_of_nat_less
        usdc_decimals_def del: of_nat_mult)
next
  case False
  then show ?thesis
    using assms scan_whole [OF assms(1), of fld w 0 0 0 False "[]"]
    by (simp add: parse_scaled_decimal_def)
qed

lemma parse_dotted:
  assumes "all_digits w" and "all_digits f" and "length f \<le> 6" and "w @ f \<noteq> []"
  shows "parse_scaled_decimal (w @ CHR ''.'' # f) fld =
    (let n = digits_val 0 w * 10 ^ 6 + digits_val 0 f * 10 ^ (6 - length f)
     in if n < 2 ^ 128 then Inr (of_nat n) else Inl (AmountOverflow fld (w @ CHR ''.'' # f)))"
proof (cases "digits_val 0 w < 2 ^ 128")
  case True
  let ?s = "w @ CHR ''.'' # f"
  let ?F = "digits_val 0 f"
  have F: "?F * 10 ^ (6 - length f) < 10 ^ 6"
  proof -
    have "?F * 10 ^ (6 - length f) < 10 ^ length f * 10 ^ (6 - length f)"
      by (intro mult_strict_right_mono digits_val_less assms(2)) simp
    also have "\<dots> = 10 ^ 6" using assms(3) by (simp flip: power_add)
    finally show ?thesis .
  qed
  then have "?F \<le> 10 ^ 6"
    by (metis less_imp_le_nat mult.right_neutral mult_le_mono2 one_le_numeral one_le_power order.trans)
  then have F_small: "?F < 2 ^ 128" by simp
  have scan: "scan_amount fld ?s 0 0 0 False False ?s =
      Inr (of_nat (digits_val 0 w), of_nat ?F, length f, True)"
    using scan_whole [OF assms(1), of fld ?s 0 0 0 False "CHR ''.'' # f"]
      scan_fraction [OF assms(2), of 0 fld ?s _ 0 "w \<noteq> []"] assms(3,4) True F_small
    by auto
  have "unat (10 ^ (6 - length f) :: u128) = 10 ^ (6 - length f)" by (rule unat_ten_power) simp
  then show ?thesis
    using scan True F F_small
    by (simp add: parse_scaled_decimal_def checked_mul_eq checked_add_eq ok_or_def unat_of_nat_less
        usdc_decimals_def Let_def del: of_nat_mult of_nat_add)
next
  case False
  then show ?thesis
    using assms(1) scan_whole [OF assms(1), of fld "w @ CHR ''.'' # f" 0 0 0 False "CHR ''.'' # f"]
    by (simp add: parse_scaled_decimal_def Let_def)
qed

lemma parse_ok_decimal:
  assumes "parse_scaled_decimal s fld = Inr v"
  shows "decimal_micros s \<noteq> None"
proof -
  from assms obtain w f k where scan: "scan_amount fld s 0 0 0 False False s = Inr (w, f, k, True)"
    by (auto simp: parse_scaled_decimal_def result_facts split: if_splits)
  from scan_whole_ok [OF scan] show ?thesis
  proof
    assume "all_digits s"
    moreover have "s \<noteq> []" using scan by auto
    ultimately show ?thesis by (simp add: decimal_micros_digits)
  next
    assume "\<exists>p q. s = p @ CHR ''.'' # q \<and> all_digits p \<and> all_digits q \<and> length q \<le> 6"
    then obtain p q where s: "s = p @ CHR ''.'' # q" "all_digits p" "all_digits q" "length q \<le> 6" by blast
    moreover have "p @ q \<noteq> []" using scan s(1) by auto
    ultimately show ?thesis by (simp add: decimal_micros_dot)
  qed
qed

lemma parse_decimal:
  assumes "decimal_micros s = Some n"
  shows "parse_scaled_decimal s fld = (if n < 2 ^ 128 then Inr (of_nat n) else Inl (AmountOverflow fld s))"
  using assms
proof (rule decimal_micros_Some)
  assume "all_digits s" "s \<noteq> []"
  with assms parse_whole show ?thesis by (auto simp: decimal_micros_digits)
next
  fix w f
  assume "s = w @ CHR ''.'' # f" "all_digits w" "all_digits f" "length f \<le> 6" "w @ f \<noteq> []"
  with assms parse_dotted [of w f fld] show ?thesis by (auto simp: decimal_micros_dot Let_def)
qed

text \<open>
  C14. The decimal parser of order amounts computes the value its text denotes: on every decimal
  with at most six fractional digits it returns exactly that many millionths when they fit 128
  bits and reports an overflow otherwise, and it rejects every other text.
\<close>

theorem parse_scaled_decimal_correct:
  "case decimal_micros s of
     Some n \<Rightarrow> parse_scaled_decimal s fld =
       (if n < 2 ^ 128 then Inr (of_nat n) else Inl (AmountOverflow fld s))
   | None \<Rightarrow> \<exists>e. parse_scaled_decimal s fld = Inl e"
proof (cases "decimal_micros s")
  case None
  then show ?thesis using parse_ok_decimal by (cases "parse_scaled_decimal s fld") auto
qed (simp add: parse_decimal)

lemma parse_scaled_decimal_Inr:
  "parse_scaled_decimal s fld = Inr v \<longleftrightarrow> decimal_micros s = Some (unat v)"
proof
  assume ok: "parse_scaled_decimal s fld = Inr v"
  with parse_ok_decimal obtain n where "decimal_micros s = Some n" by fastforce
  with ok parse_decimal [OF this, of fld] show "decimal_micros s = Some (unat v)"
    by (auto simp: unat_of_nat_less split: if_splits)
next
  assume "decimal_micros s = Some (unat v)"
  from parse_decimal [OF this, of fld] show "parse_scaled_decimal s fld = Inr v"
    by simp
qed

text \<open>
  C15. The amounts of an order are exact: both texts being decimals in range, a buy offers
  \<open>floor (price * size)\<close> base units of USDC for the size in tokens, a sell the reverse, and the
  only failure is the overflow of the 128-bit product.
\<close>

theorem compute_amounts_exact:
  assumes "decimal_micros price = Some p" and "decimal_micros sz = Some q"
    and "p < 2 ^ 128" and "q < 2 ^ 128"
  shows "compute_amounts price sz s =
    (if p * q < 2 ^ 128
     then Inr (case s of ClobBuy \<Rightarrow> (of_nat (p * q div 10 ^ 6), of_nat q)
                       | ClobSell \<Rightarrow> (of_nat q, of_nat (p * q div 10 ^ 6)))
     else Inl (AmountOverflow ''makerAmount'' (''price='' @ price @ '' size='' @ sz)))"
proof -
  have pq: "parse_scaled_decimal price ''price'' = Inr (of_nat p)"
      "parse_scaled_decimal sz ''size'' = Inr (of_nat q)"
    using assms by (simp_all add: parse_scaled_decimal_Inr unat_of_nat_less)
  have u: "unat (of_nat p :: u128) = p" "unat (of_nat q :: u128) = q"
    using assms(3,4) by (simp_all add: unat_of_nat_less)
  have big: "ucast (w :: u128) = (of_nat (unat w) :: u256)" for w
    by (rule word_unat_eq_iff [THEN iffD2], subst unat_of_nat_less)
      (simp_all add: less_le_trans [OF unat_u128_less] unsigned_ucast_eq take_bit_nat_eq_self)
  have "unat (of_nat (p * q) div base_unit_scale :: u128) = p * q div 10 ^ 6" if "p * q < 2 ^ 128"
    using that by (simp add: unat_div unat_of_nat_less del: of_nat_mult)
  then show ?thesis
    using pq u by (auto simp: compute_amounts_def checked_mul_eq ok_or_def big split: clob_side.splits
        simp del: of_nat_mult)
qed

theorem compute_amounts_exact_witness:
  "compute_amounts ''0.45'' ''10'' ClobBuy = Inr (4500000, 10000000)"
  using compute_amounts_exact [of "''0.45''" 450000 "''10''" 10000000 ClobBuy]
  by (simp add: decimal_micros_def is_digit_def digit_val_def)

text \<open>
  Rounding never costs the maker of a buy more than the limit price: the USDC amount is at most
  price times size, and less than one base unit below it.
\<close>

theorem buy_never_above_limit:
  assumes "compute_amounts price sz ClobBuy = Inr (maker, taker)"
  shows "\<exists>p q. decimal_micros price = Some p \<and> decimal_micros sz = Some q \<and> unat taker = q \<and>
           unat maker * 10 ^ 6 \<le> p * q \<and> p * q < (unat maker + 1) * 10 ^ 6"
proof -
  from assms obtain pw qw where ok: "parse_scaled_decimal price ''price'' = Inr pw"
      "parse_scaled_decimal sz ''size'' = Inr qw"
    by (auto simp: compute_amounts_def result_facts)
  let ?p = "unat pw" and ?q = "unat qw"
  have dm: "decimal_micros price = Some ?p" "decimal_micros sz = Some ?q"
    using ok by (simp_all add: parse_scaled_decimal_Inr)
  with assms have small: "?p * ?q < 2 ^ 128" and
    res: "maker = of_nat (?p * ?q div 10 ^ 6)" "taker = of_nat ?q"
    using compute_amounts_exact [OF dm, of ClobBuy] by (simp_all split: if_splits)
  have "?p * ?q div 10 ^ 6 < 2 ^ 128" using small by (simp add: div_less_dividend le_less_trans [OF div_le_dividend])
  then have "unat maker = ?p * ?q div 10 ^ 6" unfolding res by (intro unat_of_nat_less) simp
  moreover have "unat taker = ?q" unfolding res
    by (intro unat_of_nat_less) (simp add: less_le_trans [OF unat_u128_less])
  ultimately show ?thesis using dm div_times_less_eq_dividend [of "?p * ?q" "10 ^ 6"]
    dividend_less_div_times [of "10 ^ 6" "?p * ?q"] by (auto simp: algebra_simps)
qed

theorem buy_never_above_limit_witness:
  "\<exists>p q. decimal_micros ''0.45'' = Some p \<and> decimal_micros ''10'' = Some q \<and>
     unat (10000000 :: u256) = q \<and> unat (4500000 :: u256) * 10 ^ 6 \<le> p * q \<and>
     p * q < (unat (4500000 :: u256) + 1) * 10 ^ 6"
  by (rule buy_never_above_limit) (simp add: compute_amounts_def parse_scaled_decimal_def is_digit_def
      digit_val_def push_digit_def checked_mul_def checked_add_def ok_or_def base_unit_scale_def
      usdc_decimals_def)

section \<open>The salt\<close>

lemma generate_salt_bound: "unat (generate_salt raw) < 2 ^ 53"
proof -
  have "generate_salt raw = take_bit 53 raw"
    by (simp add: generate_salt_def take_bit_eq_mask mask_eq_decr_exp)
  then have "unat (generate_salt raw) = take_bit 53 (unat raw)" by (simp add: unsigned_take_bit_eq)
  then show ?thesis using take_bit_nat_less_exp [of 53 "unat raw"] by simp
qed

lemma u256_to_u64_ucast [simp]: "u256_to_u64 (ucast (w :: u64)) = Some w"
proof -
  have u: "unat (ucast w :: u256) = unat w"
    by (simp add: unsigned_ucast_eq take_bit_nat_eq_self less_le_trans [OF unat_u64_less])
  then have "(ucast (ucast w :: u256) :: u64) = w"
    by (intro word_unat_eq_iff [THEN iffD2]) (simp add: unsigned_ucast_eq unsigned_take_bit_eq take_bit_nat_eq_self)
  with u show ?thesis by (simp add: u256_to_u64_def)
qed

end
