(* ===== verification/ClobSigner.thy ===== *)
theory ClobSigner
  imports ClobOrder
begin

text \<open>
  Building and signing orders (\<open>rtt-core/src/clob_signer.rs\<close>). The EIP-712 hash of an order, the
  signature of a hash and the parser of 256-bit integers are \<open>alloy\<close>'s and are arguments; the random
  numbers are the sequence of raw draws.
\<close>

section \<open>The EIP-712 domain\<close>

definition chain_id :: u64 where
  "chain_id = 137"

record eip712_domain =
  dom_name :: string
  dom_version :: string
  dom_chain_id :: u64
  dom_verifying_contract :: address

definition make_domain :: "bool \<Rightarrow> eip712_domain" where
  "make_domain is_neg_risk =
     \<lparr>dom_name = ''Polymarket CTF Exchange'', dom_version = ''1'', dom_chain_id = chain_id,
      dom_verifying_contract =
        (if is_neg_risk then neg_risk_exchange_address else exchange_address)\<rparr>"

section \<open>Signing\<close>

definition sign_order ::
    "(clob_order \<Rightarrow> eip712_domain \<Rightarrow> 'h) \<Rightarrow> ('h \<Rightarrow> ('e, string) result) \<Rightarrow> clob_order \<Rightarrow> bool
      \<Rightarrow> ('e, string) result" where
  "sign_order signing_hash sign_hash ord is_neg_risk =
     bind_result (sign_hash (signing_hash ord (make_domain is_neg_risk)))
       (\<lambda>sig_hex. if take 2 sig_hex = ''0x'' then Inr sig_hex else Inr (''0x'' @ sig_hex))"

section \<open>Building an order\<close>

datatype build_order_error = InvalidTokenId string | Amount amount_error

fun build_order_error_text :: "build_order_error \<Rightarrow> string" where
  "build_order_error_text (InvalidTokenId value) = ''token_id is not a valid decimal integer: '' @ value"
| "build_order_error_text (Amount err) = amount_error_text err"

definition build_order ::
    "(string \<Rightarrow> u256 option) \<Rightarrow> u64 \<Rightarrow> trigger_message \<Rightarrow> address \<Rightarrow> address \<Rightarrow> u64
      \<Rightarrow> signature_type \<Rightarrow> (build_order_error, clob_order) result" where
  "build_order parse_u256 raw trigger maker signer_addr fee_rate_bps sigtype =
     (let side = clob_side_of (tm_side trigger)
      in case compute_amounts (tm_price trigger) (tm_size trigger) side of
           Inl e \<Rightarrow> Inl (Amount e)
         | Inr (maker_amount, taker_amount) \<Rightarrow>
             bind_result (ok_or (InvalidTokenId (tm_token_id trigger)) (parse_u256 (tm_token_id trigger)))
               (\<lambda>token_id. Inr
                  \<lparr>o_salt = ucast (generate_salt raw),
                   o_maker = maker,
                   o_signer = signer_addr,
                   o_taker = 0,
                   o_token_id = token_id,
                   o_maker_amount = maker_amount,
                   o_taker_amount = taker_amount,
                   o_expiration = 0,
                   o_nonce = 0,
                   o_fee_rate_bps = ucast fee_rate_bps,
                   o_side = clob_side_u8 side,
                   o_signature_type = signature_type_u8 sigtype\<rparr>))"

text \<open>
  A batch takes one raw draw for each order. \<open>PresignPanic\<close> is the panic of the conversion of a
  salt to 64 bits.
\<close>

datatype 'e presign_error = PresignBuild build_order_error | PresignSign 'e | PresignPanic

fun presign_loop ::
    "(string \<Rightarrow> u256 option) \<Rightarrow> (clob_order \<Rightarrow> ('e, string) result)
      \<Rightarrow> (clob_order \<Rightarrow> string \<Rightarrow> signed_order_payload option)
      \<Rightarrow> trigger_message \<Rightarrow> address \<Rightarrow> address \<Rightarrow> u64 \<Rightarrow> signature_type \<Rightarrow> u64 list
      \<Rightarrow> signed_order_payload list \<Rightarrow> ('e presign_error, signed_order_payload list) result" where
  "presign_loop parse_u256 sign payload trigger maker signer_addr fee sigtype [] results = Inr results"
| "presign_loop parse_u256 sign payload trigger maker signer_addr fee sigtype (raw # raws) results =
     (case build_order parse_u256 raw trigger maker signer_addr fee sigtype of
        Inl e \<Rightarrow> Inl (PresignBuild e)
      | Inr ord \<Rightarrow>
          (case sign ord of
             Inl e \<Rightarrow> Inl (PresignSign e)
           | Inr sig \<Rightarrow>
               (case payload ord sig of
                  None \<Rightarrow> Inl PresignPanic
                | Some p \<Rightarrow>
                    presign_loop parse_u256 sign payload trigger maker signer_addr fee sigtype raws
                      (results @ [p]))))"

definition presign_batch ::
    "(string \<Rightarrow> u256 option) \<Rightarrow> (address \<Rightarrow> string) \<Rightarrow> (u256 \<Rightarrow> string)
      \<Rightarrow> (clob_order \<Rightarrow> eip712_domain \<Rightarrow> 'h) \<Rightarrow> ('h \<Rightarrow> ('e, string) result)
      \<Rightarrow> trigger_message \<Rightarrow> address \<Rightarrow> address \<Rightarrow> u64 \<Rightarrow> bool \<Rightarrow> signature_type \<Rightarrow> string
      \<Rightarrow> u64 list \<Rightarrow> ('e presign_error, signed_order_payload list) result" where
  "presign_batch parse_u256 show_addr show_u256 signing_hash sign_hash trigger maker signer_addr fee
       is_neg_risk sigtype owner raws =
     presign_loop parse_u256
       (\<lambda>ord. sign_order signing_hash sign_hash ord is_neg_risk)
       (\<lambda>ord sig. signed_order_payload_new show_addr show_u256 ord sig (tm_order_type trigger) owner)
       trigger maker signer_addr fee sigtype raws []"

section \<open>Facts\<close>

lemma sign_order_prefix:
  "sign_order h s ord neg = Inr sig \<Longrightarrow> take 2 sig = ''0x''"
  by (auto simp: sign_order_def result_facts split: if_splits)

lemma build_order_salt:
  "build_order pu raw trigger maker sa fee st = Inr ord \<Longrightarrow> o_salt ord = ucast (generate_salt raw)"
  by (auto simp: build_order_def Let_def result_facts split: sum.splits prod.splits)

lemma build_order_json:
  assumes "build_order pu raw trigger maker sa fee st = Inr ord"
  obtains j where "order_json_from_order show_addr show_u256 ord sig = Some j"
    "oj_salt j = generate_salt raw" "oj_signature j = sig"
    "oj_maker j = show_addr maker" "oj_signer j = show_addr sa"
    "oj_side j = (case tm_side trigger of Buy \<Rightarrow> ''BUY'' | Sell \<Rightarrow> ''SELL'')"
    "oj_maker_amount j = show_u256 (o_maker_amount ord)"
    "oj_taker_amount j = show_u256 (o_taker_amount ord)"
  using assms
  by (auto simp: build_order_def Let_def result_facts order_json_from_order_def clob_side_of_def
      clob_side_u8_def split: sum.splits prod.splits side.splits)

lemma presign_loop_ok:
  "presign_loop pu sign payload trigger maker sa fee st raws acc = Inr ps \<Longrightarrow>
   \<exists>qs. ps = acc @ qs \<and> list_all2 (\<lambda>raw p. \<exists>ord sig.
     build_order pu raw trigger maker sa fee st = Inr ord \<and> sign ord = Inr sig \<and>
     payload ord sig = Some p) raws qs"
proof (induction raws arbitrary: acc)
  case (Cons raw raws)
  then obtain ord sig p where step: "build_order pu raw trigger maker sa fee st = Inr ord"
    "sign ord = Inr sig" "payload ord sig = Some p"
    and rest: "presign_loop pu sign payload trigger maker sa fee st raws (acc @ [p]) = Inr ps"
    by (auto split: sum.splits option.splits)
  from Cons.IH [OF rest] obtain qs where "ps = acc @ (p # qs)" "list_all2 (\<lambda>raw p. \<exists>ord sig.
     build_order pu raw trigger maker sa fee st = Inr ord \<and> sign ord = Inr sig \<and>
     payload ord sig = Some p) raws qs" by auto
  with step show ?case by (intro exI [of _ "p # qs"]) auto
qed simp

lemma presign_loop_no_panic:
  assumes "\<And>raw ord sig. build_order pu raw trigger maker sa fee st = Inr ord \<Longrightarrow> payload ord sig \<noteq> None"
  shows "presign_loop pu sign payload trigger maker sa fee st raws acc \<noteq> Inl PresignPanic"
proof (induction raws arbitrary: acc)
  case (Cons raw raws)
  show ?case
  proof (cases "build_order pu raw trigger maker sa fee st")
    case (Inr ord)
    show ?thesis
    proof (cases "sign ord")
      case (Inr sig)
      from assms [OF \<open>build_order pu raw trigger maker sa fee st = Inr ord\<close>, of sig]
      obtain p where "payload ord sig = Some p" by blast
      with Cons Inr \<open>build_order pu raw trigger maker sa fee st = Inr ord\<close> show ?thesis by simp
    qed (simp add: Inr)
  qed simp
qed simp

lemma signed_payload_of_built:
  assumes "build_order pu raw trigger maker sa fee st = Inr ord"
  shows "signed_order_payload_new show_addr show_u256 ord sig ot owner \<noteq> None"
  using build_order_json [OF assms, of show_addr show_u256 sig]
  by (metis (no_types) option.map_disc_iff option.distinct(1) signed_order_payload_new_def)

text \<open>
  An order is built with the salt of its own draw, the amounts of its price and size and the
  trigger's side; a wrong price or size is reported before a wrong token id, and nothing else fails.
\<close>

theorem build_order_exact:
  "build_order parse_u256 raw trigger maker signer_addr fee sigtype =
     (case compute_amounts (tm_price trigger) (tm_size trigger) (clob_side_of (tm_side trigger)) of
        Inl e \<Rightarrow> Inl (Amount e)
      | Inr (m, t) \<Rightarrow>
          (case parse_u256 (tm_token_id trigger) of
             None \<Rightarrow> Inl (InvalidTokenId (tm_token_id trigger))
           | Some tok \<Rightarrow> Inr
               \<lparr>o_salt = of_nat (unat raw mod 2 ^ 53), o_maker = maker, o_signer = signer_addr,
                o_taker = 0, o_token_id = tok, o_maker_amount = m, o_taker_amount = t,
                o_expiration = 0, o_nonce = 0, o_fee_rate_bps = ucast fee,
                o_side = (case tm_side trigger of Buy \<Rightarrow> 0 | Sell \<Rightarrow> 1),
                o_signature_type = signature_type_u8 sigtype\<rparr>))"
proof -
  have "generate_salt raw = take_bit 53 raw"
    by (simp add: generate_salt_def take_bit_eq_mask mask_eq_decr_exp)
  then have "unat (generate_salt raw) = take_bit 53 (unat raw)" by (simp add: unsigned_take_bit_eq)
  then have "unat (generate_salt raw) = unat raw mod 2 ^ 53" by (simp only: take_bit_eq_mod)
  then have salt: "(ucast (generate_salt raw) :: u256) = of_nat (unat raw mod 2 ^ 53)"
    by (metis of_nat_unat)
  show ?thesis
    by (simp only: build_order_def Let_def ok_or_def salt clob_side_of_def clob_side_u8_def)
      (simp split: sum.splits option.splits side.splits)
qed

text \<open>
  C33. A batch of pre-signed orders that succeeds holds one payload for each draw, in their order, each
  with its own salt below \<open>2 ^ 53\<close>, a \<open>0x\<close> signature and the owner's key, and no draw ever makes the
  batch panic.
\<close>

theorem presign_batch_payloads:
  "case presign_batch parse_u256 show_addr show_u256 signing_hash sign_hash trigger maker
          signer_addr fee is_neg_risk sigtype owner raws of
     Inl e \<Rightarrow> e \<noteq> PresignPanic
   | Inr ps \<Rightarrow> map (\<lambda>p. oj_salt (sp_order p)) ps = map generate_salt raws \<and>
       list_all (\<lambda>p. unat (oj_salt (sp_order p)) < 2 ^ 53 \<and>
         take 2 (oj_signature (sp_order p)) = ''0x'' \<and> sp_owner p = owner \<and>
         sp_order_type p = order_type_text (tm_order_type trigger)) ps"
proof (cases "presign_batch parse_u256 show_addr show_u256 signing_hash sign_hash trigger maker
          signer_addr fee is_neg_risk sigtype owner raws")
  case (Inl e)
  have "presign_batch parse_u256 show_addr show_u256 signing_hash sign_hash trigger maker
          signer_addr fee is_neg_risk sigtype owner raws \<noteq> Inl PresignPanic"
    unfolding presign_batch_def by (intro presign_loop_no_panic signed_payload_of_built)
  with Inl have "e \<noteq> PresignPanic" by simp
  with Inl show ?thesis by simp
next
  case (Inr ps)
  define good where "good raw p \<longleftrightarrow> oj_salt (sp_order p) = generate_salt raw \<and>
     take 2 (oj_signature (sp_order p)) = ''0x'' \<and> sp_owner p = owner \<and>
     sp_order_type p = order_type_text (tm_order_type trigger)" for raw and p :: signed_order_payload
  have good: "good raw p" if "\<exists>ord sig. build_order parse_u256 raw trigger maker signer_addr fee sigtype = Inr ord \<and>
      sign_order signing_hash sign_hash ord is_neg_risk = Inr sig \<and>
      signed_order_payload_new show_addr show_u256 ord sig (tm_order_type trigger) owner = Some p" for raw and p :: signed_order_payload
  proof -
    from that obtain ord sig where b: "build_order parse_u256 raw trigger maker signer_addr fee sigtype = Inr ord"
      and s: "sign_order signing_hash sign_hash ord is_neg_risk = Inr sig"
      and p: "signed_order_payload_new show_addr show_u256 ord sig (tm_order_type trigger) owner = Some p"
      by blast
    show ?thesis
    proof (rule build_order_json [OF b, of show_addr show_u256 sig])
      fix j
      assume "order_json_from_order show_addr show_u256 ord sig = Some j"
        "oj_salt j = generate_salt raw" "oj_signature j = sig"
      with p sign_order_prefix [OF s] show ?thesis
        by (auto simp: signed_order_payload_new_def good_def)
    qed
  qed
  from presign_loop_ok [OF Inr [unfolded presign_batch_def]] obtain qs where "ps = [] @ qs"
    "list_all2 (\<lambda>raw p. \<exists>ord sig. build_order parse_u256 raw trigger maker signer_addr fee sigtype = Inr ord \<and>
      sign_order signing_hash sign_hash ord is_neg_risk = Inr sig \<and>
      signed_order_payload_new show_addr show_u256 ord sig (tm_order_type trigger) owner = Some p) raws qs"
    by blast
  then have "list_all2 good raws ps" using good by (simp add: list_all2_mono)
  then have "map (\<lambda>p. oj_salt (sp_order p)) ps = map generate_salt raws \<and>
      list_all (\<lambda>p. unat (oj_salt (sp_order p)) < 2 ^ 53 \<and>
         take 2 (oj_signature (sp_order p)) = ''0x'' \<and> sp_owner p = owner \<and>
         sp_order_type p = order_type_text (tm_order_type trigger)) ps"
    by (induction rule: list_all2_induct) (auto simp: good_def generate_salt_bound [simplified])
  with Inr show ?thesis by simp
qed

end
