(* ===== verification/HotState.thy ===== *)
theory HotState
  imports CoreTypes RustText
begin

text \<open>
  The hot state store (\<open>rtt-core/src/hot_state.rs\<close>): the latest book and reference state for each
  source and instrument, in scaled units of \<open>10^-6\<close>. The lock of the store makes every operation
  one step, so the operations are functions on the store's contents.
\<close>

named_theorems hot_facts \<open>what an update of the hot state leaves in the store\<close>

section \<open>Data\<close>

definition hot_value_scale :: u64 where
  "hot_value_scale = 1000000"

record hot_state_value =
  hv_exact :: string
  hv_units :: u64

record hot_book_level =
  hbl_price :: hot_state_value
  hbl_size :: hot_state_value
  hbl_price_ticks :: "u64 option"
  hbl_size_lots :: "u64 option"

record hot_book_state =
  hb_notice :: update_notice
  hb_market_id :: "market_id option"
  hb_asset_id :: asset_id
  hb_best_bid :: "hot_book_level option"
  hb_best_ask :: "hot_book_level option"
  hb_midpoint :: "hot_state_value option"
  hb_tick_size :: "tick_size option"
  hb_tick_size_units :: "u64 option"
  hb_lot_size :: "min_order_size option"
  hb_lot_size_units :: "u64 option"
  hb_version :: u64
  hb_timestamp_ms :: u64
  hb_source_hash :: "string option"

record hot_reference_state =
  hr_notice :: update_notice
  hr_reference_price :: "hot_state_value option"
  hr_best_bid :: "hot_state_value option"
  hr_best_ask :: "hot_state_value option"
  hr_last_trade_price :: "hot_state_value option"
  hr_last_trade_size :: "hot_state_value option"
  hr_healthy :: "bool option"
  hr_stale_after_ms :: "u64 option"
  hr_observed_at_ms :: "u64 option"
  hr_reconnect_sequence :: "u64 option"
  hr_version :: u64
  hr_timestamp_ms :: u64

datatype hot_state_view = ViewBook hot_book_state | ViewReference hot_reference_state

datatype notice_resolution =
    ResOrderBook order_book_snapshot
  | ResBestBidAsk best_bid_ask_update
  | ResTradeTick trade_tick_update
  | ResReferencePrice reference_price_update
  | ResTickSizeChange tick_size_change_update
  | ResSourceStatus source_status_update
  | ResReconnect reconnect_update

record registered_market =
  rm_market_id :: market_id
  rm_tick_size :: tick_size
  rm_tick_size_units :: u64
  rm_lot_size :: "min_order_size option"
  rm_lot_size_units :: "u64 option"

record hot_state_key =
  hk_source_id :: string
  hk_instrument_kind :: string
  hk_instrument_id :: string

record hot_state_store =
  hs_markets_by_asset :: "string \<rightharpoonup> registered_market"
  hs_books :: "hot_state_key \<rightharpoonup> hot_book_state"
  hs_references :: "hot_state_key \<rightharpoonup> hot_reference_state"

definition hot_state_empty :: hot_state_store where
  "hot_state_empty = \<lparr>hs_markets_by_asset = Map.empty, hs_books = Map.empty, hs_references = Map.empty\<rparr>"

definition key_from_subject :: "instrument_ref \<Rightarrow> hot_state_key" where
  "key_from_subject r =
     \<lparr>hk_source_id = ir_source_id r, hk_instrument_kind = instrument_kind_debug (ir_kind r),
      hk_instrument_id = ir_instrument_id r\<rparr>"

definition key_asset :: "source_id \<Rightarrow> string \<Rightarrow> hot_state_key" where
  "key_asset s a = key_from_subject (instrument_asset s a)"

section \<open>Scaled values\<close>

text \<open>
  \<open>parse_scaled\<close>: the fraction is cut to its first six characters and padded with zeros. A
  character outside ASCII makes the final parse fail wherever it stands among the first six, so the
  first six bytes give the same answer.
\<close>

definition parse_scaled :: "string \<Rightarrow> u64 option" where
  "parse_scaled value =
     (let trimmed = trim value
      in if trimmed = [] \<or> hd trimmed = CHR ''-'' then None
         else
           case split_on CHR ''.'' trimmed of
             [] \<Rightarrow> None
           | whole_text # rest \<Rightarrow>
               Option.bind (parse_uint whole_text) (\<lambda>whole :: u64.
                 if 2 \<le> length rest then None
                 else
                   let fraction = (case rest of [] \<Rightarrow> [] | f # _ \<Rightarrow> f);
                       cut = take 6 fraction;
                       padded = cut @ replicate (6 - length cut) CHR ''0''
                   in Option.bind (parse_uint padded) (\<lambda>fraction_value.
                      Option.bind (checked_mul whole hot_value_scale) (\<lambda>w.
                        checked_add w fraction_value))))"

definition format_scaled :: "u64 \<Rightarrow> string" where
  "format_scaled units =
     (let whole = units div hot_value_scale; fraction = units mod hot_value_scale
      in if fraction = 0 then show_word whole
         else trim_end_zeros (show_word whole @ ''.'' @ pad_left 6 (show_word fraction)))"

definition ticks_for :: "u64 \<Rightarrow> u64 option \<Rightarrow> u64 option" where
  "ticks_for units step_units =
     (case step_units of
        None \<Rightarrow> None
      | Some step \<Rightarrow> if step = 0 \<or> units mod step \<noteq> 0 then None else Some (units div step))"

definition hot_value :: "string \<Rightarrow> hot_state_value option" where
  "hot_value exact = map_option (\<lambda>u. \<lparr>hv_exact = exact, hv_units = u\<rparr>) (parse_scaled exact)"

definition midpoint_for_levels ::
    "hot_book_level option \<Rightarrow> hot_book_level option \<Rightarrow> hot_state_value option" where
  "midpoint_for_levels best_bid best_ask =
     (case (best_bid, best_ask) of
        (Some bid, Some ask) \<Rightarrow>
          let m = (hv_units (hbl_price bid) + hv_units (hbl_price ask)) div 2
          in Some \<lparr>hv_exact = format_scaled m, hv_units = m\<rparr>
      | _ \<Rightarrow> None)"

section \<open>Levels\<close>

definition make_book_level ::
    "string \<Rightarrow> string \<Rightarrow> registered_market option \<Rightarrow> hot_book_level option" where
  "make_book_level price sz registered =
     Option.bind (hot_value price) (\<lambda>p.
     Option.bind (hot_value sz) (\<lambda>s. Some
       \<lparr>hbl_price = p,
        hbl_size = s,
        hbl_price_ticks = Option.bind registered (\<lambda>market.
          Option.bind (parse_scaled price) (\<lambda>u. ticks_for u (Some (rm_tick_size_units market)))),
        hbl_size_lots = Option.bind registered (\<lambda>market.
          Option.bind (parse_scaled sz) (\<lambda>u. ticks_for u (rm_lot_size_units market)))\<rparr>))"

definition better :: "bool \<Rightarrow> hot_book_level \<Rightarrow> hot_book_level \<Rightarrow> bool" where
  "better take_max candidate current =
     (if take_max then hv_units (hbl_price candidate) > hv_units (hbl_price current)
      else hv_units (hbl_price candidate) < hv_units (hbl_price current))"

fun reduce_levels :: "bool \<Rightarrow> hot_book_level list \<Rightarrow> hot_book_level option" where
  "reduce_levels take_max [] = None"
| "reduce_levels take_max (l # ls) =
     Some (foldl (\<lambda>current candidate. if better take_max candidate current then candidate else current) l ls)"

definition best_level ::
    "book_level list \<Rightarrow> bool \<Rightarrow> registered_market option \<Rightarrow> hot_book_level option" where
  "best_level levels take_max registered =
     reduce_levels take_max
       (List.map_filter (\<lambda>l. make_book_level (bl_price l) (bl_size l) registered) levels)"

definition updates_best_side ::
    "hot_book_level option \<Rightarrow> hot_book_level option \<Rightarrow> bool \<Rightarrow> bool" where
  "updates_best_side current candidate take_max =
     (case candidate of
        None \<Rightarrow> False
      | Some cand \<Rightarrow>
          (case current of
             Some cur \<Rightarrow>
               if take_max then hv_units (hbl_price cand) \<ge> hv_units (hbl_price cur)
               else hv_units (hbl_price cand) \<le> hv_units (hbl_price cur)
           | None \<Rightarrow> True))"

definition refresh_book_level_units ::
    "hot_book_level option \<Rightarrow> u64 option \<Rightarrow> u64 option \<Rightarrow> hot_book_level option" where
  "refresh_book_level_units level tick lot =
     map_option (\<lambda>l. l\<lparr>hbl_price_ticks := ticks_for (hv_units (hbl_price l)) tick,
                       hbl_size_lots := ticks_for (hv_units (hbl_size l)) lot\<rparr>) level"

definition apply_registered_market :: "hot_book_state \<Rightarrow> registered_market \<Rightarrow> hot_book_state" where
  "apply_registered_market st registered =
     st\<lparr>hb_market_id := Some (rm_market_id registered),
        hb_tick_size := Some (rm_tick_size registered),
        hb_tick_size_units := Some (rm_tick_size_units registered),
        hb_lot_size := rm_lot_size registered,
        hb_lot_size_units := rm_lot_size_units registered,
        hb_best_bid := refresh_book_level_units (hb_best_bid st)
          (Some (rm_tick_size_units registered)) (rm_lot_size_units registered),
        hb_best_ask := refresh_book_level_units (hb_best_ask st)
          (Some (rm_tick_size_units registered)) (rm_lot_size_units registered)\<rparr>"

definition apply_registered :: "registered_market option \<Rightarrow> hot_book_state \<Rightarrow> hot_book_state" where
  "apply_registered registered st =
     (case registered of None \<Rightarrow> st | Some r \<Rightarrow> apply_registered_market st r)"

definition refresh_midpoint :: "hot_book_state \<Rightarrow> hot_book_state" where
  "refresh_midpoint st = st\<lparr>hb_midpoint := midpoint_for_levels (hb_best_bid st) (hb_best_ask st)\<rparr>"

section \<open>Markets\<close>

definition registered_of :: "market_meta \<Rightarrow> registered_market" where
  "registered_of market =
     \<lparr>rm_market_id = mm_market_id market,
      rm_tick_size = mm_tick_size market,
      rm_tick_size_units = unwrap_or 0 (parse_scaled (mm_tick_size market)),
      rm_lot_size = mm_min_order_size market,
      rm_lot_size_units = Option.bind (mm_min_order_size market) parse_scaled\<rparr>"

definition register_asset :: "registered_market \<Rightarrow> hot_state_store \<Rightarrow> asset_id \<Rightarrow> hot_state_store" where
  "register_asset registered st asset =
     st\<lparr>hs_markets_by_asset := (hs_markets_by_asset st)(asset \<mapsto> registered),
        hs_books := update_values
          (\<lambda>book. if hb_asset_id book = asset then apply_registered_market book registered else book)
          (hs_books st)\<rparr>"

definition register_market :: "hot_state_store \<Rightarrow> market_meta \<Rightarrow> hot_state_store" where
  "register_market st market =
     foldl (register_asset (registered_of market)) st
       [ot_asset_id (mm_yes_asset market), ot_asset_id (mm_no_asset market)]"

section \<open>Book updates\<close>

text \<open>The state an update starts from when its book is not in the store.\<close>

definition fresh_book ::
    "update_notice \<Rightarrow> market_id option \<Rightarrow> asset_id \<Rightarrow> registered_market option \<Rightarrow> u64 \<Rightarrow> string option
      \<Rightarrow> hot_book_state" where
  "fresh_book notice market asset registered ts hash =
     \<lparr>hb_notice = notice,
      hb_market_id = market,
      hb_asset_id = asset,
      hb_best_bid = None,
      hb_best_ask = None,
      hb_midpoint = None,
      hb_tick_size = map_option rm_tick_size registered,
      hb_tick_size_units = map_option rm_tick_size_units registered,
      hb_lot_size = Option.bind registered rm_lot_size,
      hb_lot_size_units = Option.bind registered rm_lot_size_units,
      hb_version = un_version notice,
      hb_timestamp_ms = ts,
      hb_source_hash = hash\<rparr>"

definition put_book :: "hot_state_key \<Rightarrow> hot_book_state \<Rightarrow> hot_state_store \<Rightarrow> hot_state_store" where
  "put_book key book st = st\<lparr>hs_books := (hs_books st)(key \<mapsto> book)\<rparr>"

definition apply_book_snapshot_update ::
    "hot_state_store \<Rightarrow> update_notice \<Rightarrow> book_snapshot_update \<Rightarrow> hot_state_store" where
  "apply_book_snapshot_update st notice snapshot =
     (let registered = hs_markets_by_asset st (bs_asset_id snapshot);
          book = (fresh_book notice (Some (bs_market_id snapshot)) (bs_asset_id snapshot) registered
                    (bs_timestamp_ms snapshot)
                    (or_else (bs_source_hash snapshot) (un_source_hash notice)))
                 \<lparr>hb_best_bid := best_level (bs_bids snapshot) True registered,
                  hb_best_ask := best_level (bs_asks snapshot) False registered\<rparr>
      in put_book (key_asset (un_source_id notice) (bs_asset_id snapshot))
           (refresh_midpoint (apply_registered registered book)) st)"

definition delta_best ::
    "hot_book_level option \<Rightarrow> string option \<Rightarrow> book_delta_update \<Rightarrow> registered_market option \<Rightarrow> bool
      \<Rightarrow> hot_book_level option" where
  "delta_best current quoted delta registered take_max =
     (let candidate = make_book_level (bd_price delta) (bd_size delta) registered
      in case quoted of
           Some best \<Rightarrow>
             make_book_level best
               (if best = bd_price delta then bd_size delta
                else unwrap_or ''0'' (map_option (\<lambda>l. hv_exact (hbl_size l)) current))
               registered
         | None \<Rightarrow> if updates_best_side current candidate take_max then candidate else current)"

definition apply_book_delta_update ::
    "hot_state_store \<Rightarrow> update_notice \<Rightarrow> book_delta_update \<Rightarrow> hot_state_store" where
  "apply_book_delta_update st notice delta =
     (let key = key_asset (un_source_id notice) (bd_asset_id delta);
          registered = hs_markets_by_asset st (bd_asset_id delta);
          old = unwrap_or (fresh_book notice (Some (bd_market_id delta)) (bd_asset_id delta) registered
                  (bd_timestamp_ms delta) (bd_source_hash delta)) (hs_books st key);
          book = old\<lparr>hb_notice := notice, hb_market_id := Some (bd_market_id delta),
                     hb_version := un_version notice, hb_timestamp_ms := bd_timestamp_ms delta,
                     hb_source_hash := bd_source_hash delta\<rparr>;
          book' = (case bd_side delta of
              Buy \<Rightarrow> book\<lparr>hb_best_bid :=
                delta_best (hb_best_bid book) (bd_best_bid delta) delta registered True\<rparr>
            | Sell \<Rightarrow> book\<lparr>hb_best_ask :=
                delta_best (hb_best_ask book) (bd_best_ask delta) delta registered False\<rparr>)
      in put_book key (refresh_midpoint book') st)"

definition apply_orderbook_snapshot_resolution ::
    "hot_state_store \<Rightarrow> update_notice \<Rightarrow> order_book_snapshot \<Rightarrow> hot_state_store" where
  "apply_orderbook_snapshot_resolution st notice snapshot =
     (let registered = hs_markets_by_asset st (obs_asset_id snapshot);
          key = key_asset (un_source_id notice) (obs_asset_id snapshot);
          existing = Option.bind (hs_books st key) hb_market_id;
          level = (\<lambda>l. Option.bind l (\<lambda>p. make_book_level (pl_price p) (pl_size p) registered));
          book = (fresh_book notice (or_else (map_option rm_market_id registered) existing)
                    (obs_asset_id snapshot) registered (obs_timestamp_ms snapshot)
                    (if obs_hash snapshot = [] then un_source_hash notice else Some (obs_hash snapshot)))
                 \<lparr>hb_best_bid := level (obs_best_bid snapshot),
                  hb_best_ask := level (obs_best_ask snapshot)\<rparr>
      in put_book key (refresh_midpoint (apply_registered registered book)) st)"

definition apply_best_bid_ask_update ::
    "hot_state_store \<Rightarrow> update_notice \<Rightarrow> best_bid_ask_update \<Rightarrow> hot_state_store" where
  "apply_best_bid_ask_update st notice update =
     (let key = key_asset (un_source_id notice) (bba_asset_id update);
          registered = hs_markets_by_asset st (bba_asset_id update);
          old = unwrap_or (fresh_book notice (Some (bba_market_id update)) (bba_asset_id update) registered
                  (bba_timestamp_ms update) (un_source_hash notice)) (hs_books st key);
          book = old\<lparr>hb_notice := notice, hb_market_id := Some (bba_market_id update),
                     hb_version := un_version notice, hb_timestamp_ms := bba_timestamp_ms update,
                     hb_best_bid := make_book_level (bba_best_bid update) ''0'' registered,
                     hb_best_ask := make_book_level (bba_best_ask update) ''0'' registered\<rparr>
      in put_book key (refresh_midpoint (apply_registered registered book)) st)"

definition apply_tick_size_change_update ::
    "hot_state_store \<Rightarrow> update_notice \<Rightarrow> tick_size_change_update \<Rightarrow> hot_state_store" where
  "apply_tick_size_change_update st notice update =
     (let key = key_asset (un_source_id notice) (tsc_asset_id update);
          registered = hs_markets_by_asset st (tsc_asset_id update);
          old = unwrap_or (fresh_book notice (Some (tsc_market_id update)) (tsc_asset_id update) registered
                  (tsc_timestamp_ms update) (un_source_hash notice)) (hs_books st key);
          tick = parse_scaled (tsc_new_tick_size update);
          book = old\<lparr>hb_notice := notice, hb_market_id := Some (tsc_market_id update),
                     hb_version := un_version notice, hb_timestamp_ms := tsc_timestamp_ms update,
                     hb_tick_size := Some (tsc_new_tick_size update),
                     hb_tick_size_units := tick,
                     hb_best_bid := refresh_book_level_units (hb_best_bid old) tick (hb_lot_size_units old),
                     hb_best_ask := refresh_book_level_units (hb_best_ask old) tick (hb_lot_size_units old)\<rparr>
      in put_book key (refresh_midpoint book) st)"

section \<open>Reference updates\<close>

definition empty_reference_state :: "update_notice \<Rightarrow> hot_reference_state" where
  "empty_reference_state notice =
     \<lparr>hr_notice = notice, hr_reference_price = None, hr_best_bid = None, hr_best_ask = None,
      hr_last_trade_price = None, hr_last_trade_size = None, hr_healthy = None,
      hr_stale_after_ms = None, hr_observed_at_ms = None, hr_reconnect_sequence = None,
      hr_version = un_version notice, hr_timestamp_ms = 0\<rparr>"

text \<open>The part the three reference updates share: the state at the notice's subject, restamped.\<close>

definition update_reference ::
    "hot_state_store \<Rightarrow> update_notice \<Rightarrow> (hot_reference_state \<Rightarrow> hot_reference_state) \<Rightarrow> hot_state_store" where
  "update_reference st notice f =
     (let key = key_from_subject (un_subject notice);
          old = unwrap_or (empty_reference_state notice) (hs_references st key)
      in st\<lparr>hs_references := (hs_references st)
             (key \<mapsto> f (old\<lparr>hr_notice := notice, hr_version := un_version notice\<rparr>))\<rparr>)"

definition apply_trade_tick_update ::
    "hot_state_store \<Rightarrow> update_notice \<Rightarrow> trade_tick_update \<Rightarrow> hot_state_store" where
  "apply_trade_tick_update st notice update =
     update_reference st notice (\<lambda>r. r\<lparr>hr_timestamp_ms := tt_timestamp_ms update,
       hr_last_trade_price := hot_value (tt_price update),
       hr_last_trade_size := Option.bind (tt_size update) hot_value\<rparr>)"

definition apply_reference_price_update ::
    "hot_state_store \<Rightarrow> update_notice \<Rightarrow> reference_price_update \<Rightarrow> hot_state_store" where
  "apply_reference_price_update st notice update =
     update_reference st notice (\<lambda>r. r\<lparr>hr_timestamp_ms := rpu_timestamp_ms update,
       hr_reference_price := hot_value (rpu_price update)\<rparr>)"

definition apply_source_status_update ::
    "hot_state_store \<Rightarrow> update_notice \<Rightarrow> source_status_update \<Rightarrow> hot_state_store" where
  "apply_source_status_update st notice update =
     update_reference st notice (\<lambda>r. r\<lparr>hr_timestamp_ms := ss_observed_at_ms update,
       hr_healthy := Some (ss_healthy update),
       hr_stale_after_ms := ss_stale_after_ms update,
       hr_observed_at_ms := Some (ss_observed_at_ms update)\<rparr>)"

definition apply_reconnect_update ::
    "hot_state_store \<Rightarrow> update_notice \<Rightarrow> reconnect_update \<Rightarrow> hot_state_store" where
  "apply_reconnect_update st notice update =
     (let source = un_source_id notice;
          key = key_from_subject (un_subject notice);
          fresh = (empty_reference_state notice)
            \<lparr>hr_reconnect_sequence := Some (rc_sequence update),
             hr_timestamp_ms := rc_timestamp_ms update,
             hr_version := un_version notice\<rparr>
      in st\<lparr>hs_books := retain (\<lambda>k. hk_source_id k \<noteq> source) (hs_books st),
            hs_references := (retain (\<lambda>k. hk_source_id k \<noteq> source) (hs_references st))(key \<mapsto> fresh)\<rparr>)"

section \<open>The store's interface\<close>

definition apply_update :: "hot_state_store \<Rightarrow> normalized_update \<Rightarrow> hot_state_store" where
  "apply_update st update =
     (let notice = nu_notice update
      in case nu_payload update of
           BookSnapshot u \<Rightarrow> apply_book_snapshot_update st notice u
         | BookDelta u \<Rightarrow> apply_book_delta_update st notice u
         | BestBidAsk u \<Rightarrow> apply_best_bid_ask_update st notice u
         | TradeTick u \<Rightarrow> apply_trade_tick_update st notice u
         | ReferencePrice u \<Rightarrow> apply_reference_price_update st notice u
         | TickSizeChange u \<Rightarrow> apply_tick_size_change_update st notice u
         | Reconnect u \<Rightarrow> apply_reconnect_update st notice u
         | SourceStatus u \<Rightarrow> apply_source_status_update st notice u)"

definition apply_resolution ::
    "hot_state_store \<Rightarrow> update_notice \<Rightarrow> notice_resolution \<Rightarrow> hot_state_store" where
  "apply_resolution st notice r =
     (case r of
        ResOrderBook u \<Rightarrow> apply_orderbook_snapshot_resolution st notice u
      | ResBestBidAsk u \<Rightarrow> apply_best_bid_ask_update st notice u
      | ResTradeTick u \<Rightarrow> apply_trade_tick_update st notice u
      | ResReferencePrice u \<Rightarrow> apply_reference_price_update st notice u
      | ResTickSizeChange u \<Rightarrow> apply_tick_size_change_update st notice u
      | ResSourceStatus u \<Rightarrow> apply_source_status_update st notice u
      | ResReconnect u \<Rightarrow> apply_reconnect_update st notice u)"

definition book_state :: "hot_state_store \<Rightarrow> source_id \<Rightarrow> asset_id \<Rightarrow> hot_book_state option" where
  "book_state st source asset = hs_books st (key_asset source asset)"

definition reference_state :: "hot_state_store \<Rightarrow> instrument_ref \<Rightarrow> hot_reference_state option" where
  "reference_state st subject = hs_references st (key_from_subject subject)"

definition resolve_book_notice :: "hot_state_store \<Rightarrow> update_notice \<Rightarrow> hot_book_state option" where
  "resolve_book_notice st notice =
     (case hs_books st (key_asset (un_source_id notice) (ir_instrument_id (un_subject notice))) of
        None \<Rightarrow> None
      | Some b \<Rightarrow> if hb_version b = un_version notice then Some b else None)"

definition resolve_reference_notice :: "hot_state_store \<Rightarrow> update_notice \<Rightarrow> hot_reference_state option" where
  "resolve_reference_notice st notice =
     (case hs_references st (key_from_subject (un_subject notice)) of
        None \<Rightarrow> None
      | Some r \<Rightarrow> if hr_version r = un_version notice then Some r else None)"

definition resolve_notice :: "hot_state_store \<Rightarrow> update_notice \<Rightarrow> hot_state_view option" where
  "resolve_notice st notice =
     (if un_kind notice \<in> {UKBookSnapshot, UKBookDelta, UKBestBidAsk, UKTickSizeChange}
      then map_option ViewBook (resolve_book_notice st notice)
      else map_option ViewReference (resolve_reference_notice st notice))"

definition snapshot_level :: "hot_book_level \<Rightarrow> price_level" where
  "snapshot_level l = \<lparr>pl_price = hv_exact (hbl_price l), pl_size = hv_exact (hbl_size l)\<rparr>"

definition project_snapshot :: "hot_state_store \<Rightarrow> update_notice \<Rightarrow> order_book_snapshot option" where
  "project_snapshot st notice =
     map_option (\<lambda>b. \<lparr>obs_asset_id = hb_asset_id b,
       obs_best_bid = map_option snapshot_level (hb_best_bid b),
       obs_best_ask = map_option snapshot_level (hb_best_ask b),
       obs_timestamp_ms = hb_timestamp_ms b,
       obs_hash = unwrap_or [] (or_else (hb_source_hash b) (un_source_hash notice))\<rparr>)
       (resolve_book_notice st notice)"

section \<open>Scaled values round-trip\<close>

lemma unat_hot_value_scale [simp]: "unat hot_value_scale = 1000000"
  by (simp add: hot_value_scale_def)

lemma parse_scaled_digits:
  assumes "all_digits w" "w \<noteq> []" "all_digits f" "length f \<le> 6" "digits_val 0 w < 2 ^ 64"
    and "digits_val 0 w * 10 ^ 6 + digits_val 0 f * 10 ^ (6 - length f) < 2 ^ 64"
  shows "parse_scaled (w @ (if f = [] then [] else CHR ''.'' # f)) =
    Some (of_nat (digits_val 0 w * 10 ^ 6 + digits_val 0 f * 10 ^ (6 - length f)))"
proof -
  let ?t = "w @ (if f = [] then [] else CHR ''.'' # f)"
  have hd_t: "hd ?t = hd w" "is_digit (hd w)" using assms(1,2) by (cases w; simp)+
  have last_t: "is_digit (last ?t)"
  proof (cases "f = []")
    case True
    then show ?thesis using assms(1,2) by (simp add: list_all_iff)
  next
    case False
    then show ?thesis using assms(3) by (simp add: list_all_iff)
  qed
  have trim_t: "trim ?t = ?t" using assms(2) hd_t last_t by (intro trim_digit_ends) simp_all
  have neg: "hd ?t \<noteq> CHR ''-''" using hd_t by (metis not_digits(2))
  have split_t: "split_on CHR ''.'' ?t = w # (if f = [] then [] else [f])"
    using assms(1,3) by (simp add: split_on_none split_on_append all_digits_no_dot)
  have whole: "parse_uint w = Some (of_nat (digits_val 0 w) :: u64)"
    using assms(1,2,5) by (simp add: parse_uint_digits)
  let ?F = "digits_val 0 f * 10 ^ (6 - length f)"
  let ?pad = "f @ replicate (6 - length f) CHR ''0''"
  have "digits_val 0 ?pad = ?F" by (rule digits_val_trailing_zeros)
  moreover have "all_digits ?pad" using assms(3) by (auto simp: list_all_iff)
  moreover have "?pad \<noteq> []" using assms(4) by (cases f) auto
  moreover have F_small: "?F < 2 ^ 64" using assms(6) by linarith
  ultimately have frac: "parse_uint ?pad = Some (of_nat ?F :: u64)" by (simp add: parse_uint_digits)
  have W: "unat (of_nat (digits_val 0 w) :: u64) = digits_val 0 w"
    using assms(5) by (intro unat_of_nat_less) simp
  have F: "unat (of_nat ?F :: u64) = ?F" using F_small by (intro unat_of_nat_less) simp
  have mul: "checked_mul (of_nat (digits_val 0 w)) hot_value_scale =
      Some (of_nat (digits_val 0 w * 1000000) :: u64)"
    using assms(6) by (simp add: checked_mul_eq W del: of_nat_mult)
  have WM: "unat (of_nat (digits_val 0 w * 1000000) :: u64) = digits_val 0 w * 1000000"
    using assms(6) by (intro unat_of_nat_less) simp
  have add: "checked_add (of_nat (digits_val 0 w * 1000000)) (of_nat ?F) =
      Some (of_nat (digits_val 0 w * 1000000 + ?F) :: u64)"
    using assms(6) by (simp add: checked_add_eq WM F del: of_nat_mult of_nat_add)
  show ?thesis
    using assms(2,4) trim_t neg split_t whole frac mul add
    by (cases "f = []") (simp_all add: parse_scaled_def Let_def del: of_nat_mult of_nat_add)
qed

lemma trim_end_zeros_digits: "all_digits s \<Longrightarrow> all_digits (trim_end_zeros s)"
  by (simp add: trim_end_zeros_def list_all_iff) (metis set_dropWhileD set_rev)

lemma format_scaled_digits:
  obtains f where "all_digits f" "length f \<le> 6"
    "format_scaled u = show_nat (unat u div 1000000) @ (if f = [] then [] else CHR ''.'' # f)"
    "digits_val 0 f * 10 ^ (6 - length f) = unat u mod 1000000"
proof (cases "u mod hot_value_scale = 0")
  case True
  then have "unat u mod 1000000 = 0"
    by (metis unat_0 unat_hot_value_scale unat_mod)
  with True that [of "[]"] show ?thesis
    by (simp add: format_scaled_def show_word_def unat_div)
next
  case False
  let ?r = "unat u mod 1000000"
  let ?p = "pad_left 6 (show_nat ?r)"
  have r: "unat (u mod hot_value_scale) = ?r" by (simp add: unat_mod)
  with False have r0: "?r \<noteq> 0" by (metis unat_eq_zero)
  have "length (show_nat ?r) \<le> Suc 5" by (rule length_show_nat_le) simp
  then have len: "length ?p = 6" by (simp add: pad_left_facts)
  have val: "digits_val 0 ?p = ?r" and dig: "all_digits ?p" by (simp_all add: pad_left_facts)
  from trim_end_zeros_pad [of ?p] obtain n where n: "?p = trim_end_zeros ?p @ replicate n CHR ''0''" ..
  let ?f = "trim_end_zeros ?p"
  have lenf: "length ?f + n = 6" using n len by (metis length_append length_replicate)
  have fval: "digits_val 0 ?f * 10 ^ (6 - length ?f) = ?r"
  proof -
    have "6 - length ?f = n" using lenf by linarith
    then show ?thesis by (metis digits_val_trailing_zeros n val)
  qed
  then have f_ne: "?f \<noteq> []" using r0 by auto
  have not_zeros: "\<not> list_all (\<lambda>c. c = CHR ''0'') (CHR ''.'' # ?p)" by simp
  have nz: "\<not> list_all (\<lambda>c. c = CHR ''0'') ?p"
  proof
    assume "list_all (\<lambda>c. c = CHR ''0'') ?p"
    then have "?p = replicate 6 CHR ''0''" using len by (simp add: list_all_iff replicate_eqI)
    with val r0 show False by (metis digits_val_zeros)
  qed
  have "trim_end_zeros (show_nat (unat u div 1000000) @ ''.'' @ ?p) =
      (show_nat (unat u div 1000000) @ ''.'') @ ?f"
    using trim_end_zeros_append [OF nz, of "show_nat (unat u div 1000000) @ ''.''"] by simp
  with False f_ne r have "format_scaled u = show_nat (unat u div 1000000) @ (if ?f = [] then [] else CHR ''.'' # ?f)"
    by (simp add: format_scaled_def show_word_def unat_div Let_def)
  with that [of ?f] trim_end_zeros_digits [OF dig] fval lenf show ?thesis by simp
qed

lemma scaled_roundtrip: "parse_scaled (format_scaled u) = Some u"
proof (rule format_scaled_digits [of u])
  fix f
  assume f: "all_digits f" "length f \<le> 6"
    and form: "format_scaled u = show_nat (unat u div 1000000) @ (if f = [] then [] else CHR ''.'' # f)"
    and val: "digits_val 0 f * 10 ^ (6 - length f) = unat u mod 1000000"
  have "unat u div 1000000 < 2 ^ 64" by (rule le_less_trans [OF div_le_dividend]) simp
  then have "parse_scaled (format_scaled u) =
      Some (of_nat (unat u div 1000000 * 10 ^ 6 + unat u mod 1000000))"
    using parse_scaled_digits [of "show_nat (unat u div 1000000)" f] f val unfolding form by simp
  then show ?thesis by simp
qed

text \<open>
  C34. A scaled value survives its text form: the printer of the midpoint and the parser of prices
  are inverse on every 64-bit number of units.
\<close>

theorem parse_scaled_format_scaled: "parse_scaled (format_scaled u) = Some u"
  by (rule scaled_roundtrip)

section \<open>The best level of a snapshot\<close>

lemma better_irrefl: "\<not> better m a a"
  by (simp add: better_def)

lemma not_better_trans: "\<not> better m b a \<Longrightarrow> \<not> better m c b \<Longrightarrow> \<not> better m c a"
  by (auto simp: better_def split: if_splits)

lemma foldl_best:
  "let r = foldl (\<lambda>cur cand. if better m cand cur then cand else cur) l ls
   in r \<in> set (l # ls) \<and> (\<forall>x \<in> set (l # ls). \<not> better m x r)"
proof (induction ls arbitrary: l)
  case (Cons x ls)
  let ?y = "if better m x l then x else l"
  let ?r = "foldl (\<lambda>cur cand. if better m cand cur then cand else cur) ?y ls"
  from Cons [of ?y] have r: "?r \<in> set (?y # ls)" "\<forall>z \<in> set (?y # ls). \<not> better m z ?r"
    unfolding Let_def by blast+
  have "\<not> better m l ?r \<and> \<not> better m x ?r"
  proof (cases "better m x l")
    case True
    then have "\<not> better m l x" by (auto simp: better_def split: if_splits)
    with r(2) True show ?thesis using not_better_trans [of m ?r x l] by (auto simp: better_def split: if_splits)
  next
    case False
    with r(2) show ?thesis using not_better_trans by (auto simp: better_def split: if_splits)
  qed
  moreover have "?r \<in> set (l # x # ls)" using r(1) by (auto split: if_splits)
  ultimately show ?case using r(2) by (simp add: Let_def)
qed (simp add: better_irrefl)

lemma best_level_extremal:
  assumes "l \<in> set levels" and "make_book_level (bl_price l) (bl_size l) reg = Some x"
  shows "\<exists>r. best_level levels m reg = Some r \<and> \<not> better m x r"
proof -
  let ?xs = "List.map_filter (\<lambda>l. make_book_level (bl_price l) (bl_size l) reg) levels"
  have "x \<in> set ?xs" using assms by (force simp: List.map_filter_def)
  then obtain y ys where ys: "?xs = y # ys" by (cases ?xs) auto
  with \<open>x \<in> set ?xs\<close> foldl_best [of m y ys] show ?thesis
    by (auto simp: best_level_def Let_def)
qed

lemma best_level_member:
  assumes "best_level levels m reg = Some r"
  shows "\<exists>l \<in> set levels. make_book_level (bl_price l) (bl_size l) reg = Some r"
proof -
  let ?xs = "List.map_filter (\<lambda>l. make_book_level (bl_price l) (bl_size l) reg) levels"
  from assms obtain y ys where ys: "?xs = y # ys" by (cases ?xs) (auto simp: best_level_def)
  with assms foldl_best [of m y ys] have "r \<in> set ?xs" by (auto simp: best_level_def Let_def)
  then show ?thesis by (auto simp: List.map_filter_def)
qed

section \<open>The invariant of the store\<close>

definition value_ok :: "hot_state_value \<Rightarrow> bool" where
  "value_ok v \<longleftrightarrow> parse_scaled (hv_exact v) = Some (hv_units v)"

definition level_ok :: "hot_book_level \<Rightarrow> bool" where
  "level_ok l \<longleftrightarrow> value_ok (hbl_price l) \<and> value_ok (hbl_size l)"

definition book_ok :: "hot_state_key \<Rightarrow> hot_book_state \<Rightarrow> bool" where
  "book_ok k b \<longleftrightarrow>
     k = key_asset (un_source_id (hb_notice b)) (hb_asset_id b)
   \<and> hb_version b = un_version (hb_notice b)
   \<and> hb_midpoint b = midpoint_for_levels (hb_best_bid b) (hb_best_ask b)
   \<and> pred_option level_ok (hb_best_bid b) \<and> pred_option level_ok (hb_best_ask b)"

definition reference_ok :: "hot_state_key \<Rightarrow> hot_reference_state \<Rightarrow> bool" where
  "reference_ok k r \<longleftrightarrow>
     k = key_from_subject (un_subject (hr_notice r))
   \<and> hr_version r = un_version (hr_notice r)
   \<and> pred_option value_ok (hr_reference_price r) \<and> pred_option value_ok (hr_last_trade_price r)
   \<and> pred_option value_ok (hr_last_trade_size r)
   \<and> hr_best_bid r = None \<and> hr_best_ask r = None"

definition hot_wf :: "hot_state_store \<Rightarrow> bool" where
  "hot_wf st \<longleftrightarrow> (\<forall>k b. hs_books st k = Some b \<longrightarrow> book_ok k b) \<and>
                 (\<forall>k r. hs_references st k = Some r \<longrightarrow> reference_ok k r)"

lemma key_asset_inj [simp]: "key_asset s a = key_asset t b \<longleftrightarrow> s = t \<and> a = b"
  by (auto simp: key_asset_def key_from_subject_def instrument_asset_def)

lemma key_asset_source [simp]: "hk_source_id (key_asset s a) = s"
  by (simp add: key_asset_def key_from_subject_def instrument_asset_def)

lemma hot_value_ok: "pred_option value_ok (hot_value t)"
  by (auto simp: hot_value_def value_ok_def option.pred_set split: option.splits)

lemma make_book_level_ok: "pred_option level_ok (make_book_level p s reg)"
  using hot_value_ok [of p] hot_value_ok [of s]
  by (auto simp: make_book_level_def level_ok_def option.pred_set elim!: bind_eq_Some_conv [THEN iffD1, elim_format])

lemma best_level_ok: "pred_option level_ok (best_level ls m reg)"
  using best_level_member make_book_level_ok
  by (cases "best_level ls m reg") (fastforce simp: option.pred_set)+

lemma refresh_level_ok [simp]:
  "pred_option level_ok (refresh_book_level_units l t u) = pred_option level_ok l"
  by (cases l) (simp_all add: refresh_book_level_units_def level_ok_def)

lemma midpoint_refresh [simp]:
  "midpoint_for_levels (refresh_book_level_units b t u) (refresh_book_level_units a t' u')
     = midpoint_for_levels b a"
  by (cases b; cases a) (simp_all add: refresh_book_level_units_def midpoint_for_levels_def)

lemma delta_best_ok: "pred_option level_ok cur \<Longrightarrow> pred_option level_ok (delta_best cur q d reg m)"
  by (auto simp: delta_best_def Let_def make_book_level_ok split: option.splits)

lemma midpoint_value_ok: "pred_option value_ok (midpoint_for_levels b a)"
  by (auto simp: midpoint_for_levels_def value_ok_def Let_def scaled_roundtrip split: option.splits)

lemma registered_fields [simp]:
  "hb_notice (apply_registered r b) = hb_notice b" "hb_asset_id (apply_registered r b) = hb_asset_id b"
  "hb_version (apply_registered r b) = hb_version b" "hb_midpoint (apply_registered r b) = hb_midpoint b"
  "hb_timestamp_ms (apply_registered r b) = hb_timestamp_ms b"
  "hb_source_hash (apply_registered r b) = hb_source_hash b"
  by (simp_all add: apply_registered_def apply_registered_market_def split: option.splits)

lemma registered_levels_ok [simp]:
  "pred_option level_ok (hb_best_bid (apply_registered r b)) = pred_option level_ok (hb_best_bid b)"
  "pred_option level_ok (hb_best_ask (apply_registered r b)) = pred_option level_ok (hb_best_ask b)"
  by (simp_all add: apply_registered_def apply_registered_market_def split: option.splits)

lemma registered_market_ok: "book_ok k b \<Longrightarrow> book_ok k (apply_registered_market b r)"
  by (simp add: book_ok_def apply_registered_market_def)

lemma midpoint_fields [simp]:
  "hb_notice (refresh_midpoint b) = hb_notice b" "hb_asset_id (refresh_midpoint b) = hb_asset_id b"
  "hb_version (refresh_midpoint b) = hb_version b"
  "hb_best_bid (refresh_midpoint b) = hb_best_bid b" "hb_best_ask (refresh_midpoint b) = hb_best_ask b"
  "hb_timestamp_ms (refresh_midpoint b) = hb_timestamp_ms b"
  "hb_source_hash (refresh_midpoint b) = hb_source_hash b"
  "hb_tick_size (refresh_midpoint b) = hb_tick_size b"
  "hb_midpoint (refresh_midpoint b) = midpoint_for_levels (hb_best_bid b) (hb_best_ask b)"
  by (simp_all add: refresh_midpoint_def)

lemma fresh_fields [simp]:
  "hb_notice (fresh_book n m a r t h) = n" "hb_asset_id (fresh_book n m a r t h) = a"
  "hb_version (fresh_book n m a r t h) = un_version n"
  "hb_best_bid (fresh_book n m a r t h) = None" "hb_best_ask (fresh_book n m a r t h) = None"
  by (simp_all add: fresh_book_def)

lemma put_book_apply [simp]:
  "hs_books (put_book k b st) j = (if j = k then Some b else hs_books st j)"
  "hs_references (put_book k b st) = hs_references st"
  "hs_markets_by_asset (put_book k b st) = hs_markets_by_asset st"
  by (simp_all add: put_book_def)

lemma hot_wf_book: "hot_wf st \<Longrightarrow> hs_books st k = Some b \<Longrightarrow> book_ok k b"
  by (simp add: hot_wf_def)

lemma hot_wf_reference: "hot_wf st \<Longrightarrow> hs_references st k = Some r \<Longrightarrow> reference_ok k r"
  by (simp add: hot_wf_def)

text \<open>The book an update starts from, in a store that keeps the invariant.\<close>

lemma old_book_ok:
  assumes "hot_wf st"
    and "b = unwrap_or (fresh_book n m a r t h) (hs_books st (key_asset s a))"
  shows "hb_asset_id b = a" "pred_option level_ok (hb_best_bid b)" "pred_option level_ok (hb_best_ask b)"
  using assms(2) hot_wf_book [OF assms(1), of "key_asset s a"]
  by (cases "hs_books st (key_asset s a)"; simp add: book_ok_def)+

text \<open>Every book update writes one book, stamped with its notice, at the key of source and asset.\<close>

definition writes_book :: "hot_state_store \<Rightarrow> update_notice \<Rightarrow> asset_id \<Rightarrow> hot_state_store \<Rightarrow> bool" where
  "writes_book st notice asset st' \<longleftrightarrow>
     (\<exists>b. st' = put_book (key_asset (un_source_id notice) asset) b st \<and> hb_notice b = notice \<and>
          (hot_wf st \<longrightarrow> book_ok (key_asset (un_source_id notice) asset) b))"

lemma writes_bookI:
  "hb_notice b = notice \<Longrightarrow>
   (hot_wf st \<Longrightarrow> book_ok (key_asset (un_source_id notice) asset) b) \<Longrightarrow>
   writes_book st notice asset (put_book (key_asset (un_source_id notice) asset) b st)"
  by (auto simp: writes_book_def)

lemma book_updates_write [hot_facts]:
  "writes_book st n (bs_asset_id s) (apply_book_snapshot_update st n s)"
  "writes_book st n (bd_asset_id d) (apply_book_delta_update st n d)"
  "writes_book st n (obs_asset_id ob) (apply_orderbook_snapshot_resolution st n ob)"
  "writes_book st n (bba_asset_id u) (apply_best_bid_ask_update st n u)"
  "writes_book st n (tsc_asset_id c) (apply_tick_size_change_update st n c)"
proof -
  show "writes_book st n (bs_asset_id s) (apply_book_snapshot_update st n s)"
    unfolding apply_book_snapshot_update_def Let_def
    by (rule writes_bookI) (simp_all add: book_ok_def best_level_ok)
  show "writes_book st n (bd_asset_id d) (apply_book_delta_update st n d)"
    unfolding apply_book_delta_update_def Let_def
    by (rule writes_bookI)
      (auto simp: book_ok_def delta_best_ok old_book_ok [OF _ refl] split: side.split)
  show "writes_book st n (obs_asset_id ob) (apply_orderbook_snapshot_resolution st n ob)"
    unfolding apply_orderbook_snapshot_resolution_def Let_def
    by (rule writes_bookI)
      (auto simp: book_ok_def make_book_level_ok split: option.splits bind_splits)
  show "writes_book st n (bba_asset_id u) (apply_best_bid_ask_update st n u)"
    unfolding apply_best_bid_ask_update_def Let_def
    by (rule writes_bookI) (auto simp: book_ok_def make_book_level_ok old_book_ok [OF _ refl])
  show "writes_book st n (tsc_asset_id c) (apply_tick_size_change_update st n c)"
    unfolding apply_tick_size_change_update_def Let_def
    by (rule writes_bookI) (auto simp: book_ok_def old_book_ok [OF _ refl])
qed

lemma writes_book_wf: "writes_book st n a st' \<Longrightarrow> hot_wf st \<Longrightarrow> hot_wf st'"
  by (auto simp: writes_book_def hot_wf_def split: if_splits)

lemma writes_book_other:
  "writes_book st n a st' \<Longrightarrow> s \<noteq> un_source_id n \<or> b \<noteq> a \<Longrightarrow> book_state st' s b = book_state st s b"
  by (auto simp: writes_book_def book_state_def)

lemma writes_book_references: "writes_book st n a st' \<Longrightarrow> hs_references st' = hs_references st"
  by (auto simp: writes_book_def)

lemma writes_book_this:
  assumes "writes_book st n a st'"
  shows "\<exists>b. book_state st' (un_source_id n) a = Some b \<and> hb_notice b = n \<and>
    (hot_wf st \<longrightarrow> hb_asset_id b = a \<and> hb_version b = un_version n)"
  using assms by (auto simp: writes_book_def book_state_def book_ok_def)

lemma update_reference_wf:
  assumes "hot_wf st"
    and "\<And>r. reference_ok k r \<Longrightarrow> reference_ok k (f r)" and "k = key_from_subject (un_subject n)"
  shows "hot_wf (update_reference st n f)"
proof -
  have "reference_ok k ((unwrap_or (empty_reference_state n) (hs_references st k))
      \<lparr>hr_notice := n, hr_version := un_version n\<rparr>)"
    using hot_wf_reference [OF assms(1), of k] assms(3)
    by (cases "hs_references st k") (simp_all add: reference_ok_def empty_reference_state_def)
  then have "reference_ok k (f ((unwrap_or (empty_reference_state n) (hs_references st k))
      \<lparr>hr_notice := n, hr_version := un_version n\<rparr>))" by (rule assms(2))
  with assms(1,3) show ?thesis by (auto simp: hot_wf_def update_reference_def Let_def)
qed

lemma reference_updates_wf:
  assumes "hot_wf st"
  shows "hot_wf (apply_trade_tick_update st n t)"
    and "hot_wf (apply_reference_price_update st n p)"
    and "hot_wf (apply_source_status_update st n s)"
proof -
  have bind_ok: "pred_option value_ok (Option.bind x hot_value)" for x
    by (cases x) (simp_all add: hot_value_ok)
  show "hot_wf (apply_trade_tick_update st n t)" unfolding apply_trade_tick_update_def
    by (rule update_reference_wf [OF assms _ refl]) (simp add: reference_ok_def hot_value_ok bind_ok)
  show "hot_wf (apply_reference_price_update st n p)" unfolding apply_reference_price_update_def
    by (rule update_reference_wf [OF assms _ refl]) (simp add: reference_ok_def hot_value_ok)
  show "hot_wf (apply_source_status_update st n s)" unfolding apply_source_status_update_def
    by (rule update_reference_wf [OF assms _ refl]) (simp add: reference_ok_def)
qed

lemma reconnect_wf: "hot_wf st \<Longrightarrow> hot_wf (apply_reconnect_update st n u)"
proof -
  assume wf: "hot_wf st"
  have "reference_ok (key_from_subject (un_subject n)) ((empty_reference_state n)
      \<lparr>hr_reconnect_sequence := Some (rc_sequence u), hr_timestamp_ms := rc_timestamp_ms u,
       hr_version := un_version n\<rparr>)"
    by (simp add: reference_ok_def empty_reference_state_def)
  with wf show ?thesis
    by (auto simp: hot_wf_def apply_reconnect_update_def Let_def)
qed

lemma apply_update_wf: "hot_wf st \<Longrightarrow> hot_wf (apply_update st u)"
  by (auto simp: apply_update_def Let_def reference_updates_wf reconnect_wf
      intro: writes_book_wf [OF book_updates_write(1)] writes_book_wf [OF book_updates_write(2)]
        writes_book_wf [OF book_updates_write(4)] writes_book_wf [OF book_updates_write(5)]
      split: normalized_update_payload.split)

lemma apply_resolution_wf: "hot_wf st \<Longrightarrow> hot_wf (apply_resolution st n r)"
  by (auto simp: apply_resolution_def reference_updates_wf reconnect_wf
      intro: writes_book_wf [OF book_updates_write(3)] writes_book_wf [OF book_updates_write(4)]
        writes_book_wf [OF book_updates_write(5)]
      split: notice_resolution.split)

lemma register_asset_wf:
  assumes "hot_wf st"
  shows "hot_wf (register_asset r st a)"
proof -
  have "book_ok k b" if "hs_books (register_asset r st a) k = Some b" for k b
    using that hot_wf_book [OF assms, of k] registered_market_ok
    by (auto simp: register_asset_def split: if_splits)
  moreover have "reference_ok k b" if "hs_references (register_asset r st a) k = Some b" for k b
    using that hot_wf_reference [OF assms] by (simp add: register_asset_def)
  ultimately show ?thesis unfolding hot_wf_def by blast
qed

lemma register_market_wf: "hot_wf st \<Longrightarrow> hot_wf (register_market st m)"
  by (simp add: register_market_def register_asset_wf)

text \<open>A run of the store: the operations its callers apply, in the order the lock admits them.\<close>

datatype hot_op =
    OpRegister market_meta
  | OpUpdate normalized_update
  | OpResolve update_notice notice_resolution

definition hot_step :: "hot_state_store \<Rightarrow> hot_op \<Rightarrow> hot_state_store" where
  "hot_step st opr =
     (case opr of
        OpRegister m \<Rightarrow> register_market st m
      | OpUpdate u \<Rightarrow> apply_update st u
      | OpResolve n r \<Rightarrow> apply_resolution st n r)"

definition hot_run :: "hot_op list \<Rightarrow> hot_state_store" where
  "hot_run ops = foldl hot_step hot_state_empty ops"

lemma hot_wf_empty: "hot_wf hot_state_empty"
  by (simp add: hot_wf_def hot_state_empty_def)

lemma hot_wf_foldl: "hot_wf st \<Longrightarrow> hot_wf (foldl hot_step st ops)"
  by (induction ops arbitrary: st)
    (simp_all add: hot_step_def register_market_wf apply_update_wf apply_resolution_wf
      split: hot_op.split)

lemma hot_wf_run: "hot_wf (hot_run ops)"
  by (simp add: hot_run_def hot_wf_foldl hot_wf_empty)

text \<open>
  C16. In every run of the store each book is filed under the source and asset it describes, carries
  the version of the notice that wrote it, shows the midpoint of its two best levels, and every
  level's scaled units are what its text parses to; the reference states likewise.
\<close>

theorem hot_state_invariant:
  "case book_state (hot_run ops) source asset of
     None \<Rightarrow> True
   | Some b \<Rightarrow> hb_asset_id b = asset \<and> un_source_id (hb_notice b) = source \<and>
       hb_version b = un_version (hb_notice b) \<and>
       hb_midpoint b = midpoint_for_levels (hb_best_bid b) (hb_best_ask b) \<and>
       pred_option level_ok (hb_best_bid b) \<and> pred_option level_ok (hb_best_ask b) \<and>
       pred_option value_ok (hb_midpoint b)"
proof (cases "book_state (hot_run ops) source asset")
  case (Some b)
  with hot_wf_book [OF hot_wf_run] have "book_ok (key_asset source asset) b"
    by (simp add: book_state_def)
  with Some show ?thesis by (simp add: book_ok_def midpoint_value_ok)
qed simp

lemma make_book_level_fields:
  "make_book_level p s reg = Some l \<longleftrightarrow>
     (\<exists>vp vs. hot_value p = Some vp \<and> hot_value s = Some vs \<and> hbl_price l = vp \<and> hbl_size l = vs \<and>
        hbl_price_ticks l = Option.bind reg (\<lambda>m. Option.bind (parse_scaled p) (\<lambda>u. ticks_for u (Some (rm_tick_size_units m)))) \<and>
        hbl_size_lots l = Option.bind reg (\<lambda>m. Option.bind (parse_scaled s) (\<lambda>u. ticks_for u (rm_lot_size_units m))))"
  by (auto simp: make_book_level_def bind_eq_Some_conv)

lemma hot_value_exact: "hot_value t = Some v \<Longrightarrow> hv_exact v = t"
  by (auto simp: hot_value_def)

definition quoted_level :: "hot_book_level \<Rightarrow> book_level" where
  "quoted_level l = \<lparr>bl_price = hv_exact (hbl_price l), bl_size = hv_exact (hbl_size l)\<rparr>"

lemma quoted_level_refresh [simp]:
  "quoted_level (l\<lparr>hbl_price_ticks := t, hbl_size_lots := u\<rparr>) = quoted_level l"
  by (simp add: quoted_level_def)

lemma best_level_quoted:
  assumes "l \<in> set levels" and "hot_value (bl_price l) = Some p" and "hot_value (bl_size l) = Some q"
  shows "\<exists>best. best_level levels m reg = Some best \<and> quoted_level best \<in> set levels \<and>
    (if m then hv_units p \<le> hv_units (hbl_price best) else hv_units (hbl_price best) \<le> hv_units p)"
proof -
  obtain x where x: "make_book_level (bl_price l) (bl_size l) reg = Some x" "hbl_price x = p"
    using assms(2,3) by (auto simp: make_book_level_def)
  from best_level_extremal [OF assms(1) x(1), of m] obtain r where
    r: "best_level levels m reg = Some r" "\<not> better m x r" by blast
  from best_level_member [OF r(1)] obtain k where
    "k \<in> set levels" "make_book_level (bl_price k) (bl_size k) reg = Some r" by blast
  moreover from this(2) have "quoted_level r = k"
    using hot_value_exact [of "bl_price k" "hbl_price r"] hot_value_exact [of "bl_size k" "hbl_size r"]
    by (auto simp: make_book_level_fields quoted_level_def)
  ultimately show ?thesis using r x(2) by (auto simp: better_def split: if_splits)
qed

lemma apply_registered_best:
  "hb_best_bid b = Some l \<Longrightarrow> \<exists>l'. hb_best_bid (apply_registered reg b) = Some l' \<and>
     hbl_price l' = hbl_price l \<and> quoted_level l' = quoted_level l"
  "hb_best_ask b = Some l \<Longrightarrow> \<exists>l'. hb_best_ask (apply_registered reg b) = Some l' \<and>
     hbl_price l' = hbl_price l \<and> quoted_level l' = quoted_level l"
  by (auto simp: apply_registered_def apply_registered_market_def refresh_book_level_units_def
      split: option.split)

text \<open>
  A book snapshot stores the best of its levels on both sides: the stored bid and ask are levels
  of the snapshot, no level that parses bids higher and none asks lower.
\<close>

theorem snapshot_best_levels:
  assumes "lb \<in> set (bs_bids s)" and "la \<in> set (bs_asks s)"
    and "hot_value (bl_price lb) = Some p" and "hot_value (bl_size lb) = Some p'"
    and "hot_value (bl_price la) = Some q" and "hot_value (bl_size la) = Some q'"
  shows "\<exists>b bid ask.
    book_state (apply_update st \<lparr>nu_notice = notice, nu_payload = BookSnapshot s\<rparr>)
      (un_source_id notice) (bs_asset_id s) = Some b \<and>
    hb_best_bid b = Some bid \<and> hb_best_ask b = Some ask \<and>
    quoted_level bid \<in> set (bs_bids s) \<and> quoted_level ask \<in> set (bs_asks s) \<and>
    hv_units p \<le> hv_units (hbl_price bid) \<and> hv_units (hbl_price ask) \<le> hv_units q"
proof -
  let ?reg = "hs_markets_by_asset st (bs_asset_id s)"
  let ?b = "(fresh_book notice (Some (bs_market_id s)) (bs_asset_id s) ?reg (bs_timestamp_ms s)
      (or_else (bs_source_hash s) (un_source_hash notice)))
      \<lparr>hb_best_bid := best_level (bs_bids s) True ?reg, hb_best_ask := best_level (bs_asks s) False ?reg\<rparr>"
  from best_level_quoted [OF assms(1,3,4), of True ?reg] obtain bid where
    bid: "hb_best_bid ?b = Some bid" "quoted_level bid \<in> set (bs_bids s)"
      "hv_units p \<le> hv_units (hbl_price bid)" by auto
  from best_level_quoted [OF assms(2,5,6), of False ?reg] obtain ask where
    ask: "hb_best_ask ?b = Some ask" "quoted_level ask \<in> set (bs_asks s)"
      "hv_units (hbl_price ask) \<le> hv_units q" by auto
  have "book_state (apply_update st \<lparr>nu_notice = notice, nu_payload = BookSnapshot s\<rparr>)
      (un_source_id notice) (bs_asset_id s) = Some (refresh_midpoint (apply_registered ?reg ?b))"
    by (simp add: apply_update_def apply_book_snapshot_update_def book_state_def Let_def)
  with bid ask apply_registered_best(1) [OF bid(1), of ?reg] apply_registered_best(2) [OF ask(1), of ?reg]
  show ?thesis by auto
qed

text \<open>A notice and a snapshot for the concrete instances of the theorems.\<close>

definition sample_notice :: "update_kind \<Rightarrow> u64 \<Rightarrow> update_notice" where
  "sample_notice kind v = \<lparr>un_source_id = ''s'', un_source_kind = PolymarketWs,
     un_subject = instrument_asset ''s'' ''a'', un_kind = kind, un_version = v, un_source_hash = None\<rparr>"

definition sample_snapshot :: book_snapshot_update where
  "sample_snapshot = \<lparr>bs_market_id = ''m'', bs_asset_id = ''a'',
     bs_bids = [\<lparr>bl_price = ''4'', bl_size = ''1''\<rparr>, \<lparr>bl_price = ''5'', bl_size = ''1''\<rparr>],
     bs_asks = [\<lparr>bl_price = ''6'', bl_size = ''1''\<rparr>], bs_timestamp_ms = 0, bs_source_hash = None\<rparr>"

theorem snapshot_best_levels_witness:
  "\<exists>b bid ask. book_state (apply_update hot_state_empty
      \<lparr>nu_notice = sample_notice UKBookSnapshot 1, nu_payload = BookSnapshot sample_snapshot\<rparr>) ''s'' ''a'' = Some b \<and>
      hb_best_bid b = Some bid \<and> hb_best_ask b = Some ask \<and>
      quoted_level bid \<in> set (bs_bids sample_snapshot) \<and> quoted_level ask \<in> set (bs_asks sample_snapshot) \<and>
      5000000 \<le> hv_units (hbl_price bid) \<and> hv_units (hbl_price ask) \<le> 6000000"
proof -
  have units: "hot_value (show_nat n) = Some \<lparr>hv_exact = show_nat n, hv_units = of_nat (n * 10 ^ 6)\<rparr>"
    if "n < 10 ^ 12" for n
    using that parse_scaled_digits [of "show_nat n" "[]"] by (simp add: hot_value_def)
  have "hot_value ''1'' = Some \<lparr>hv_exact = ''1'', hv_units = 1000000\<rparr>"
      "hot_value ''5'' = Some \<lparr>hv_exact = ''5'', hv_units = 5000000\<rparr>"
      "hot_value ''6'' = Some \<lparr>hv_exact = ''6'', hv_units = 6000000\<rparr>"
    using units [of 1] units [of 5] units [of 6] by (simp_all add: show_nat.simps)
  then show ?thesis
    using snapshot_best_levels [of "\<lparr>bl_price = ''5'', bl_size = ''1''\<rparr>" sample_snapshot
        "\<lparr>bl_price = ''6'', bl_size = ''1''\<rparr>" "\<lparr>hv_exact = ''5'', hv_units = 5000000\<rparr>"
        "\<lparr>hv_exact = ''1'', hv_units = 1000000\<rparr>" "\<lparr>hv_exact = ''6'', hv_units = 6000000\<rparr>"
        "\<lparr>hv_exact = ''1'', hv_units = 1000000\<rparr>" hot_state_empty "sample_notice UKBookSnapshot 1"]
    by (simp add: sample_snapshot_def sample_notice_def)
qed

section \<open>Isolation of sources, reconnection and resolution\<close>

lemma update_reference_other:
  "key_from_subject r \<noteq> key_from_subject (un_subject n) \<Longrightarrow>
   reference_state (update_reference st n f) r = reference_state st r"
  by (simp add: reference_state_def update_reference_def Let_def)

lemma update_reference_books: "hs_books (update_reference st n f) = hs_books st"
  by (simp add: update_reference_def Let_def)

lemmas reference_updates_def =
  apply_trade_tick_update_def apply_reference_price_update_def apply_source_status_update_def

lemma update_book_other:
  assumes "s \<noteq> un_source_id (nu_notice u)"
  shows "book_state (apply_update st u) s a = book_state st s a"
proof (cases "nu_payload u")
  case (Reconnect r)
  then show ?thesis using assms by (simp add: apply_update_def apply_reconnect_update_def book_state_def Let_def)
qed (use assms book_updates_write [of st "nu_notice u"] in
    \<open>simp_all add: apply_update_def Let_def writes_book_other update_reference_books
      reference_updates_def book_state_def [of "update_reference _ _ _"] book_state_def [of st]\<close>,
    (metis book_state_def writes_book_other)+)

lemma update_reference_otherkey:
  "ir_source_id r \<noteq> ir_source_id (un_subject n) \<Longrightarrow> key_from_subject r \<noteq> key_from_subject (un_subject n)"
  by (simp add: key_from_subject_def)

lemma update_references_other:
  assumes "ir_source_id r \<noteq> un_source_id (nu_notice u)"
    and "ir_source_id (un_subject (nu_notice u)) = un_source_id (nu_notice u)"
  shows "reference_state (apply_update st u) r = reference_state st r"
proof -
  have key: "key_from_subject r \<noteq> key_from_subject (un_subject (nu_notice u))"
    using assms by (simp add: key_from_subject_def)
  have src: "hk_source_id (key_from_subject r) \<noteq> un_source_id (nu_notice u)"
    using assms by (simp add: key_from_subject_def)
  show ?thesis
  proof (cases "nu_payload u")
    case (Reconnect x)
    then show ?thesis using key src
      by (simp add: apply_update_def apply_reconnect_update_def reference_state_def Let_def)
  qed (use key book_updates_write [of st "nu_notice u", THEN writes_book_references] in
      \<open>simp_all add: apply_update_def Let_def reference_updates_def update_reference_other reference_state_def\<close>,
      (simp_all add: update_reference_def Let_def)?)
qed

text \<open>
  Sources are isolated: an update of one source, a reconnection included, changes neither the
  books nor the reference states of any other source.
\<close>

theorem hot_state_source_isolation:
  assumes "s \<noteq> un_source_id (nu_notice u)"
    and "ir_source_id (un_subject (nu_notice u)) = un_source_id (nu_notice u)"
    and "ir_source_id r = s"
  shows "book_state (apply_update st u) s a = book_state st s a \<and>
         reference_state (apply_update st u) r = reference_state st r"
  using update_book_other [OF assms(1)] update_references_other [of r u] assms by simp

theorem hot_state_source_isolation_witness:
  "book_state (apply_update (hot_run [OpUpdate \<lparr>nu_notice = sample_notice UKBookSnapshot 1, nu_payload = BookSnapshot sample_snapshot\<rparr>]) \<lparr>nu_notice = sample_notice UKReconnect 7,
       nu_payload = Reconnect \<lparr>rc_sequence = 1, rc_timestamp_ms = 0\<rparr>\<rparr>) ''t'' ''a'' =
     book_state (hot_run [OpUpdate \<lparr>nu_notice = sample_notice UKBookSnapshot 1, nu_payload = BookSnapshot sample_snapshot\<rparr>]) ''t'' ''a''"
  using hot_state_source_isolation [of "''t''" "\<lparr>nu_notice = sample_notice UKReconnect 7,
       nu_payload = Reconnect \<lparr>rc_sequence = 1, rc_timestamp_ms = 0\<rparr>\<rparr>" "instrument_asset ''t'' ''a''"]
  by (simp add: sample_notice_def instrument_asset_def)

text \<open>
  A reconnection forgets everything its source had told: no book of the source is left, and of
  its reference states only the one that records the reconnection, fresh but for its sequence number.
\<close>

theorem reconnect_clears_source:
  assumes "nu_payload u = Reconnect rc" and "ir_source_id (un_subject (nu_notice u)) = un_source_id (nu_notice u)"
  shows "book_state (apply_update st u) (un_source_id (nu_notice u)) a = None \<and>
    (case reference_state (apply_update st u) \<lparr>ir_source_id = un_source_id (nu_notice u), ir_kind = k, ir_instrument_id = i\<rparr> of
       None \<Rightarrow> k \<noteq> ir_kind (un_subject (nu_notice u)) \<or> i \<noteq> ir_instrument_id (un_subject (nu_notice u))
     | Some r \<Rightarrow> k = ir_kind (un_subject (nu_notice u)) \<and> i = ir_instrument_id (un_subject (nu_notice u)) \<and>
         hr_notice r = nu_notice u \<and> hr_reconnect_sequence r = Some (rc_sequence rc) \<and>
         hr_reference_price r = None \<and> hr_last_trade_price r = None \<and> hr_healthy r = None)"
  using assms
  by (auto simp: apply_update_def apply_reconnect_update_def book_state_def reference_state_def Let_def
      key_from_subject_def empty_reference_state_def)

theorem reconnect_clears_source_witness:
  "book_state (apply_update (hot_run [OpUpdate \<lparr>nu_notice = sample_notice UKBookSnapshot 1, nu_payload = BookSnapshot sample_snapshot\<rparr>]) \<lparr>nu_notice = sample_notice UKReconnect 7,
       nu_payload = Reconnect \<lparr>rc_sequence = 1, rc_timestamp_ms = 0\<rparr>\<rparr>) ''s'' ''a'' = None"
  using reconnect_clears_source [of "\<lparr>nu_notice = sample_notice UKReconnect 7,
       nu_payload = Reconnect \<lparr>rc_sequence = 1, rc_timestamp_ms = 0\<rparr>\<rparr>" "\<lparr>rc_sequence = 1, rc_timestamp_ms = 0\<rparr>"]
  by (simp add: sample_notice_def instrument_asset_def)

lemma update_writes_book:
  assumes "payload_book_asset (nu_payload u) = Some a"
  shows "writes_book st (nu_notice u) a (apply_update st u)"
  using assms book_updates_write [of st "nu_notice u"]
  by (cases "nu_payload u") (auto simp: payload_book_asset_def apply_update_def Let_def)

lemma resolve_after_update:
  assumes "payload_book_asset (nu_payload u) = Some a" and "un_subject (nu_notice u) = instrument_asset (un_source_id (nu_notice u)) a"
    and "un_kind (nu_notice u) = payload_kind (nu_payload u)" and "hot_wf st"
  shows "\<exists>b. resolve_notice (apply_update st u) (nu_notice u) = Some (ViewBook b) \<and>
    hb_notice b = nu_notice u \<and> hb_asset_id b = a"
proof -
  have kind: "un_kind (nu_notice u) \<in> {UKBookSnapshot, UKBookDelta, UKBestBidAsk, UKTickSizeChange}"
    using assms(1,3) by (cases "nu_payload u") (simp_all add: payload_book_asset_def payload_kind_def)
  from writes_book_this [OF update_writes_book [OF assms(1), of st]] assms(4) obtain b where
    "book_state (apply_update st u) (un_source_id (nu_notice u)) a = Some b" "hb_notice b = nu_notice u"
    "hb_asset_id b = a" "hb_version b = un_version (nu_notice u)" by blast
  with kind assms(2) show ?thesis
    by (auto simp: resolve_notice_def resolve_book_notice_def book_state_def instrument_asset_def)
qed

text \<open>
  C17. A notice resolves to the book its update wrote as long as no later version has replaced it, and
  never to a later one: after a second update of the same asset under another version the first
  notice resolves to nothing.
\<close>

theorem notice_resolves_exactly:
  assumes "payload_book_asset (nu_payload u) = Some a" and "payload_book_asset (nu_payload v) = Some a"
    and "un_subject (nu_notice u) = instrument_asset s a" and "un_source_id (nu_notice u) = s"
    and "un_source_id (nu_notice v) = s"
    and "un_kind (nu_notice u) = payload_kind (nu_payload u)"
    and "un_version (nu_notice v) \<noteq> un_version (nu_notice u)"
  shows "(\<exists>b. resolve_notice (apply_update (hot_run ops) u) (nu_notice u) = Some (ViewBook b) \<and>
            hb_notice b = nu_notice u \<and> hb_asset_id b = a) \<and>
         resolve_notice (apply_update (apply_update (hot_run ops) u) v) (nu_notice u) = None"
proof
  show "\<exists>b. resolve_notice (apply_update (hot_run ops) u) (nu_notice u) = Some (ViewBook b) \<and>
      hb_notice b = nu_notice u \<and> hb_asset_id b = a"
    by (rule resolve_after_update) (use assms hot_wf_run in simp_all)
next
  let ?st = "apply_update (hot_run ops) u"
  have "hot_wf ?st" by (intro apply_update_wf hot_wf_run)
  with writes_book_this [OF update_writes_book [OF assms(2), of ?st]] assms(5) obtain b where
    "book_state (apply_update ?st v) s a = Some b" "hb_version b = un_version (nu_notice v)" by blast
  moreover have "un_kind (nu_notice u) \<in> {UKBookSnapshot, UKBookDelta, UKBestBidAsk, UKTickSizeChange}"
    using assms(1,6) by (cases "nu_payload u") (simp_all add: payload_book_asset_def payload_kind_def)
  ultimately show "resolve_notice (apply_update ?st v) (nu_notice u) = None"
    using assms(3,4,7) by (auto simp: resolve_notice_def resolve_book_notice_def book_state_def instrument_asset_def)
qed

theorem notice_resolves_exactly_witness:
  "resolve_notice (apply_update (apply_update (hot_run [])
       \<lparr>nu_notice = sample_notice UKBookSnapshot 1, nu_payload = BookSnapshot sample_snapshot\<rparr>)
       \<lparr>nu_notice = sample_notice UKBookSnapshot 2, nu_payload = BookSnapshot sample_snapshot\<rparr>)
     (sample_notice UKBookSnapshot 1) = None"
  using notice_resolves_exactly [of "\<lparr>nu_notice = sample_notice UKBookSnapshot 1, nu_payload = BookSnapshot sample_snapshot\<rparr>"
     "''a''" "\<lparr>nu_notice = sample_notice UKBookSnapshot 2, nu_payload = BookSnapshot sample_snapshot\<rparr>" "''s''" "[]"]
  by (simp add: sample_notice_def sample_snapshot_def payload_book_asset_def payload_kind_def)

text \<open>
  A tick size change does not outlive the next snapshot of a registered market: the store keeps
  the registered tick size, and the snapshot restores it.
\<close>

theorem tick_size_change_reverted:
  assumes "hs_markets_by_asset st a = Some m" and "tsc_asset_id c = a" and "bs_asset_id s = a"
  shows "\<exists>b b'. book_state (apply_update st \<lparr>nu_notice = n, nu_payload = TickSizeChange c\<rparr>) (un_source_id n) a = Some b \<and>
    hb_tick_size b = Some (tsc_new_tick_size c) \<and>
    book_state (apply_update (apply_update st \<lparr>nu_notice = n, nu_payload = TickSizeChange c\<rparr>)
      \<lparr>nu_notice = n', nu_payload = BookSnapshot s\<rparr>) (un_source_id n') a = Some b' \<and>
    hb_tick_size b' = Some (rm_tick_size m)"
  using assms
  by (simp add: apply_update_def apply_tick_size_change_update_def apply_book_snapshot_update_def
      book_state_def Let_def apply_registered_def apply_registered_market_def)

theorem tick_size_change_reverted_witness:
  "\<exists>b. book_state (apply_update (apply_update
      (register_market hot_state_empty \<lparr>mm_market_id = ''m'',
         mm_yes_asset = \<lparr>ot_asset_id = ''a'', ot_side = OutcomeYes\<rparr>,
         mm_no_asset = \<lparr>ot_asset_id = ''b'', ot_side = OutcomeNo\<rparr>, mm_condition_id = None,
         mm_tick_size = ''0.01'', mm_min_order_size = None, mm_status = MarketActive, mm_reward = None\<rparr>)
      \<lparr>nu_notice = sample_notice UKTickSizeChange 1, nu_payload = TickSizeChange
         \<lparr>tsc_market_id = ''m'', tsc_asset_id = ''a'', tsc_old_tick_size = ''0.01'',
          tsc_new_tick_size = ''0.001'', tsc_timestamp_ms = 0\<rparr>\<rparr>)
      \<lparr>nu_notice = sample_notice UKBookSnapshot 2, nu_payload = BookSnapshot sample_snapshot\<rparr>) ''s'' ''a'' = Some b \<and>
    hb_tick_size b = Some ''0.01''"
  using tick_size_change_reverted [where a = "''a''" and s = sample_snapshot
      and n = "sample_notice UKTickSizeChange 1" and n' = "sample_notice UKBookSnapshot 2"
      and c = "\<lparr>tsc_market_id = ''m'', tsc_asset_id = ''a'', tsc_old_tick_size = ''0.01'',
          tsc_new_tick_size = ''0.001'', tsc_timestamp_ms = 0\<rparr>"
      and st = "register_market hot_state_empty \<lparr>mm_market_id = ''m'',
         mm_yes_asset = \<lparr>ot_asset_id = ''a'', ot_side = OutcomeYes\<rparr>,
         mm_no_asset = \<lparr>ot_asset_id = ''b'', ot_side = OutcomeNo\<rparr>, mm_condition_id = None,
         mm_tick_size = ''0.01'', mm_min_order_size = None, mm_status = MarketActive, mm_reward = None\<rparr>"]
  by (auto simp: register_market_def register_asset_def registered_of_def sample_notice_def sample_snapshot_def)

end
