(* ===== verification/WsTypes.thy ===== *)
theory WsTypes
  imports CoreTypes RustText
begin

text \<open>
  The messages of the market channel and their normalisation (\<open>pm-data/src/types.rs\<close>). The JSON
  decoder is \<open>serde\<close>'s; a message is what it returns.
\<close>

section \<open>Messages\<close>

record reconnect_event =
  re_sequence :: u64
  re_timestamp_ms :: u64

record ws_order_book_level =
  wl_price :: string
  wl_size :: string

record book_update =
  bu_asset_id :: string
  bu_market :: string
  bu_timestamp :: string
  bu_bids :: "ws_order_book_level list"
  bu_asks :: "ws_order_book_level list"
  bu_hash :: "string option"

record price_change_batch_entry =
  pcb_asset_id :: string
  pcb_price :: string
  pcb_size :: "string option"
  pcb_side :: side
  pcb_hash :: "string option"
  pcb_best_bid :: "string option"
  pcb_best_ask :: "string option"

record price_change_event =
  pce_market :: string
  pce_timestamp :: string
  pce_price_changes :: "price_change_batch_entry list"

record last_trade_price_event =
  ltp_asset_id :: string
  ltp_market :: string
  ltp_price :: string
  ltp_side :: "side option"
  ltp_size :: "string option"
  ltp_fee_rate_bps :: "string option"
  ltp_timestamp :: string

record tick_size_change_event =
  tse_asset_id :: string
  tse_market :: string
  tse_old_tick_size :: string
  tse_new_tick_size :: string
  tse_timestamp :: string

record best_bid_ask_event =
  bbe_asset_id :: string
  bbe_market :: string
  bbe_best_bid :: string
  bbe_best_ask :: string
  bbe_spread :: string
  bbe_timestamp :: string

datatype ws_message =
    WsBook book_update
  | WsPriceChange price_change_event
  | WsLastTradePrice last_trade_price_event
  | WsTickSizeChange tick_size_change_event
  | WsBestBidAsk best_bid_ask_event
  | WsReconnected reconnect_event

section \<open>Normalisation\<close>

definition parse_timestamp_ms :: "string \<Rightarrow> u64" where
  "parse_timestamp_ms t = unwrap_or 0 (parse_uint t)"

definition asset_notice ::
    "source_id \<Rightarrow> string \<Rightarrow> update_kind \<Rightarrow> u64 \<Rightarrow> string option \<Rightarrow> update_notice" where
  "asset_notice source asset kind version hash =
     \<lparr>un_source_id = source, un_source_kind = PolymarketWs, un_subject = instrument_asset source asset,
      un_kind = kind, un_version = version, un_source_hash = hash\<rparr>"

definition normalize_level :: "ws_order_book_level \<Rightarrow> book_level" where
  "normalize_level l = \<lparr>bl_price = wl_price l, bl_size = wl_size l\<rparr>"

definition normalize_book :: "source_id \<Rightarrow> book_update \<Rightarrow> normalized_update" where
  "normalize_book source book =
     (let ts = parse_timestamp_ms (bu_timestamp book)
      in \<lparr>nu_notice = asset_notice source (bu_asset_id book) UKBookSnapshot ts (bu_hash book),
          nu_payload = BookSnapshot
            \<lparr>bs_market_id = bu_market book, bs_asset_id = bu_asset_id book,
             bs_bids = map normalize_level (bu_bids book),
             bs_asks = map normalize_level (bu_asks book),
             bs_timestamp_ms = ts, bs_source_hash = bu_hash book\<rparr>\<rparr>)"

definition normalize_entry ::
    "source_id \<Rightarrow> string \<Rightarrow> u64 \<Rightarrow> price_change_batch_entry \<Rightarrow> normalized_update" where
  "normalize_entry source market ts entry =
     \<lparr>nu_notice = asset_notice source (pcb_asset_id entry) UKBookDelta ts (pcb_hash entry),
      nu_payload = BookDelta
        \<lparr>bd_market_id = market, bd_asset_id = pcb_asset_id entry, bd_price = pcb_price entry,
         bd_size = unwrap_or ''0'' (pcb_size entry), bd_side = pcb_side entry, bd_timestamp_ms = ts,
         bd_best_bid = pcb_best_bid entry, bd_best_ask = pcb_best_ask entry,
         bd_source_hash = pcb_hash entry\<rparr>\<rparr>"

definition to_normalized_updates :: "ws_message \<Rightarrow> normalized_update list" where
  "to_normalized_updates msg =
     (let source = public_source_id
      in case msg of
           WsBook book \<Rightarrow> [normalize_book source book]
         | WsPriceChange pc \<Rightarrow>
             map (normalize_entry source (pce_market pc) (parse_timestamp_ms (pce_timestamp pc)))
               (pce_price_changes pc)
         | WsLastTradePrice lt \<Rightarrow>
             let ts = parse_timestamp_ms (ltp_timestamp lt)
             in [\<lparr>nu_notice = asset_notice source (ltp_asset_id lt) UKTradeTick ts None,
                  nu_payload = TradeTick
                    \<lparr>tt_market_id = Some (ltp_market lt), tt_asset_id = Some (ltp_asset_id lt),
                     tt_price = ltp_price lt, tt_size = ltp_size lt, tt_side = ltp_side lt,
                     tt_timestamp_ms = ts\<rparr>\<rparr>]
         | WsTickSizeChange tc \<Rightarrow>
             let ts = parse_timestamp_ms (tse_timestamp tc)
             in [\<lparr>nu_notice = asset_notice source (tse_asset_id tc) UKTickSizeChange ts None,
                  nu_payload = TickSizeChange
                    \<lparr>tsc_market_id = tse_market tc, tsc_asset_id = tse_asset_id tc,
                     tsc_old_tick_size = tse_old_tick_size tc,
                     tsc_new_tick_size = tse_new_tick_size tc, tsc_timestamp_ms = ts\<rparr>\<rparr>]
         | WsBestBidAsk bba \<Rightarrow>
             let ts = parse_timestamp_ms (bbe_timestamp bba)
             in [\<lparr>nu_notice = asset_notice source (bbe_asset_id bba) UKBestBidAsk ts None,
                  nu_payload = BestBidAsk
                    \<lparr>bba_market_id = bbe_market bba, bba_asset_id = bbe_asset_id bba,
                     bba_best_bid = bbe_best_bid bba, bba_best_ask = bbe_best_ask bba,
                     bba_spread = Some (bbe_spread bba), bba_timestamp_ms = ts\<rparr>\<rparr>]
         | WsReconnected event \<Rightarrow>
             [\<lparr>nu_notice = \<lparr>un_source_id = source, un_source_kind = PolymarketWs,
                 un_subject = instrument_source source, un_kind = UKReconnect,
                 un_version = re_sequence event, un_source_hash = None\<rparr>,
               nu_payload = Reconnect
                 \<lparr>rc_sequence = re_sequence event, rc_timestamp_ms = re_timestamp_ms event\<rparr>\<rparr>])"

section \<open>Facts\<close>

lemma parse_timestamp_show [simp]: "parse_timestamp_ms (show_word w) = w"
  by (simp add: parse_timestamp_ms_def)

lemma asset_notice_fields [simp]:
  "un_source_id (asset_notice s a k v h) = s" "un_kind (asset_notice s a k v h) = k"
  "un_version (asset_notice s a k v h) = v" "un_source_hash (asset_notice s a k v h) = h"
  "un_subject (asset_notice s a k v h) = instrument_asset s a"
  "un_source_kind (asset_notice s a k v h) = PolymarketWs"
  by (simp_all add: asset_notice_def)

text \<open>What a notice says of its payload: the source twice, the kind, and the asset a book names.\<close>

definition notice_consistent :: "source_id \<Rightarrow> source_kind \<Rightarrow> normalized_update \<Rightarrow> bool" where
  "notice_consistent source kind u \<longleftrightarrow>
     un_source_id (nu_notice u) = source \<and> un_source_kind (nu_notice u) = kind
   \<and> ir_source_id (un_subject (nu_notice u)) = source
   \<and> un_kind (nu_notice u) = payload_kind (nu_payload u)
   \<and> (case payload_book_asset (nu_payload u) of
        None \<Rightarrow> True
      | Some a \<Rightarrow> un_subject (nu_notice u) = instrument_asset source a)"

lemma normalized_consistent:
  "list_all (notice_consistent public_source_id PolymarketWs) (to_normalized_updates msg)"
  by (cases msg)
    (simp_all add: to_normalized_updates_def Let_def notice_consistent_def normalize_book_def
      normalize_entry_def payload_kind_def payload_book_asset_def instrument_asset_def
      instrument_source_def list_all_iff)

end
