(* ===== verification/OrderBook.thy ===== *)
theory OrderBook
  imports WsTypes OrdMap ClobOrder
begin

text \<open>
  The order books of the market channel (\<open>pm-data/src/orderbook.rs\<close>): a ladder of price and size
  texts for each side, kept in a \<open>BTreeMap\<close> ordered by the bytes of the price text. The lock of
  the manager makes every operation one step.
\<close>

section \<open>Ladders and books\<close>

type_synonym price_ladder = "(string, string) btree"

definition ladder_apply_levels :: "ws_order_book_level list \<Rightarrow> price_ladder" where
  "ladder_apply_levels levels = fold (\<lambda>l. bt_insert (wl_price l) (wl_size l)) levels []"

definition zero_size :: "string \<Rightarrow> bool" where
  "zero_size sz \<longleftrightarrow> sz = ''0'' \<or> sz = ''0.0'' \<or> sz = ''0.00''"

definition ladder_upsert :: "string \<Rightarrow> string \<Rightarrow> price_ladder \<Rightarrow> price_ladder" where
  "ladder_upsert price sz ladder =
     (if zero_size sz then bt_remove price ladder else bt_insert price sz ladder)"

definition level_of_entry :: "string \<times> string \<Rightarrow> price_level" where
  "level_of_entry e = \<lparr>pl_price = fst e, pl_size = snd e\<rparr>"

definition ladder_best_bid :: "price_ladder \<Rightarrow> price_level option" where
  "ladder_best_bid ladder = map_option level_of_entry (bt_last ladder)"

definition ladder_best_ask :: "price_ladder \<Rightarrow> price_level option" where
  "ladder_best_ask ladder = map_option level_of_entry (bt_first ladder)"

record book_state =
  bk_asset_id :: string
  bk_bids :: price_ladder
  bk_asks :: price_ladder
  bk_hash :: string
  bk_timestamp_ms :: u64

definition book_new :: "string \<Rightarrow> book_state" where
  "book_new asset = \<lparr>bk_asset_id = asset, bk_bids = [], bk_asks = [], bk_hash = [], bk_timestamp_ms = 0\<rparr>"

definition apply_snapshot :: "book_state \<Rightarrow> book_update \<Rightarrow> book_state" where
  "apply_snapshot b update =
     b\<lparr>bk_bids := ladder_apply_levels (bu_bids update),
       bk_asks := ladder_apply_levels (bu_asks update),
       bk_hash := unwrap_or (bk_hash b) (bu_hash update),
       bk_timestamp_ms := unwrap_or 0 (parse_uint (bu_timestamp update))\<rparr>"

definition apply_delta :: "book_state \<Rightarrow> price_change_batch_entry \<Rightarrow> u64 \<Rightarrow> book_state" where
  "apply_delta b entry ts =
     (let sz = unwrap_or ''0'' (pcb_size entry);
          b' = (case pcb_side entry of
                  Buy \<Rightarrow> b\<lparr>bk_bids := ladder_upsert (pcb_price entry) sz (bk_bids b)\<rparr>
                | Sell \<Rightarrow> b\<lparr>bk_asks := ladder_upsert (pcb_price entry) sz (bk_asks b)\<rparr>)
      in b'\<lparr>bk_hash := unwrap_or (bk_hash b) (pcb_hash entry), bk_timestamp_ms := ts\<rparr>)"

definition to_snapshot :: "book_state \<Rightarrow> order_book_snapshot" where
  "to_snapshot b =
     \<lparr>obs_asset_id = bk_asset_id b, obs_best_bid = ladder_best_bid (bk_bids b),
      obs_best_ask = ladder_best_ask (bk_asks b), obs_timestamp_ms = bk_timestamp_ms b,
      obs_hash = bk_hash b\<rparr>"

section \<open>The manager\<close>

type_synonym order_book_manager = "string \<rightharpoonup> book_state"

definition entry_or_new :: "order_book_manager \<Rightarrow> string \<Rightarrow> book_state" where
  "entry_or_new books asset = unwrap_or (book_new asset) (books asset)"

definition apply_book_update :: "order_book_manager \<Rightarrow> book_update \<Rightarrow> order_book_manager" where
  "apply_book_update books update =
     books(bu_asset_id update \<mapsto> apply_snapshot (entry_or_new books (bu_asset_id update)) update)"

definition apply_price_change ::
    "order_book_manager \<Rightarrow> price_change_batch_entry \<Rightarrow> u64 \<Rightarrow> order_book_manager" where
  "apply_price_change books entry ts =
     books(pcb_asset_id entry \<mapsto> apply_delta (entry_or_new books (pcb_asset_id entry)) entry ts)"

definition get_snapshot :: "order_book_manager \<Rightarrow> string \<Rightarrow> order_book_snapshot option" where
  "get_snapshot books asset = map_option to_snapshot (books asset)"

definition get_hash :: "order_book_manager \<Rightarrow> string \<Rightarrow> string option" where
  "get_hash books asset = map_option bk_hash (books asset)"

definition bid_count :: "order_book_manager \<Rightarrow> string \<Rightarrow> nat" where
  "bid_count books asset = unwrap_or 0 (map_option (\<lambda>b. length (bk_bids b)) (books asset))"

definition ask_count :: "order_book_manager \<Rightarrow> string \<Rightarrow> nat" where
  "ask_count books asset = unwrap_or 0 (map_option (\<lambda>b. length (bk_asks b)) (books asset))"

definition clear_all :: "order_book_manager \<Rightarrow> order_book_manager" where
  "clear_all books = Map.empty"

definition clear_asset :: "order_book_manager \<Rightarrow> string \<Rightarrow> order_book_manager" where
  "clear_asset books asset = books(asset := None)"

section \<open>The ladder against its abstract book\<close>

text \<open>
  The abstract side of a book is a finite map from price texts to size texts: a snapshot replaces
  it, a change overwrites one price or removes it.
\<close>

definition side_of_levels :: "ws_order_book_level list \<Rightarrow> string \<Rightarrow> string option" where
  "side_of_levels levels = map_of (rev (map (\<lambda>l. (wl_price l, wl_size l)) levels))"

definition side_change :: "string \<Rightarrow> string \<Rightarrow> (string \<Rightarrow> string option) \<Rightarrow> string \<Rightarrow> string option" where
  "side_change price sz m = m(price := if zero_size sz then None else Some sz)"

lemma ladder_apply_levels_collect:
  "ladder_apply_levels levels = bt_collect (map (\<lambda>l. (wl_price l, wl_size l)) levels)"
  by (simp add: ladder_apply_levels_def bt_collect_def fold_map comp_def)

lemma ladder_levels_refine:
  "bt_wf (ladder_apply_levels levels)" "bt_get (ladder_apply_levels levels) = side_of_levels levels"
  by (simp_all add: ladder_apply_levels_collect bt_collect_is_collect bt.wf_collect bt.get_collect
      side_of_levels_def fun_eq_iff)

lemma ladder_upsert_refine:
  "bt_wf l \<Longrightarrow> bt_wf (ladder_upsert p s l)"
  "bt_wf l \<Longrightarrow> bt_get (ladder_upsert p s l) = side_change p s (bt_get l)"
  by (auto simp: ladder_upsert_def side_change_def fun_eq_iff bt.get_insert bt.get_remove
      intro: ordmap_wf)

record abs_book =
  ab_bids :: "string \<rightharpoonup> string"
  ab_asks :: "string \<rightharpoonup> string"
  ab_hash :: string
  ab_timestamp_ms :: u64

datatype book_op =
    OpBook book_update
  | OpChange price_change_batch_entry u64
  | OpClearAll
  | OpClearAsset string

definition book_step :: "order_book_manager \<Rightarrow> book_op \<Rightarrow> order_book_manager" where
  "book_step books opr =
     (case opr of
        OpBook u \<Rightarrow> apply_book_update books u
      | OpChange e ts \<Rightarrow> apply_price_change books e ts
      | OpClearAll \<Rightarrow> clear_all books
      | OpClearAsset a \<Rightarrow> clear_asset books a)"

definition book_run :: "book_op list \<Rightarrow> order_book_manager" where
  "book_run ops = foldl book_step Map.empty ops"

text \<open>The specification: one entry for each asset, its sides finite maps.\<close>

definition abs_empty :: abs_book where
  "abs_empty = \<lparr>ab_bids = Map.empty, ab_asks = Map.empty, ab_hash = [], ab_timestamp_ms = 0\<rparr>"

definition abs_step :: "(string \<rightharpoonup> abs_book) \<Rightarrow> book_op \<Rightarrow> (string \<rightharpoonup> abs_book)" where
  "abs_step books opr =
     (case opr of
        OpBook u \<Rightarrow>
          books(bu_asset_id u \<mapsto>
            \<lparr>ab_bids = side_of_levels (bu_bids u), ab_asks = side_of_levels (bu_asks u),
             ab_hash = unwrap_or (ab_hash (unwrap_or abs_empty (books (bu_asset_id u)))) (bu_hash u),
             ab_timestamp_ms = unwrap_or 0 (parse_uint (bu_timestamp u))\<rparr>)
      | OpChange e ts \<Rightarrow>
          (let b = unwrap_or abs_empty (books (pcb_asset_id e));
               change = side_change (pcb_price e) (unwrap_or ''0'' (pcb_size e))
           in books(pcb_asset_id e \<mapsto>
                \<lparr>ab_bids = (if pcb_side e = Buy then change (ab_bids b) else ab_bids b),
                 ab_asks = (if pcb_side e = Sell then change (ab_asks b) else ab_asks b),
                 ab_hash = unwrap_or (ab_hash b) (pcb_hash e), ab_timestamp_ms = ts\<rparr>))
      | OpClearAll \<Rightarrow> Map.empty
      | OpClearAsset a \<Rightarrow> books(a := None))"

definition abs_run :: "book_op list \<Rightarrow> (string \<rightharpoonup> abs_book)" where
  "abs_run ops = foldl abs_step Map.empty ops"

definition book_wf :: "string \<Rightarrow> book_state \<Rightarrow> bool" where
  "book_wf a b \<longleftrightarrow> bk_asset_id b = a \<and> bt_wf (bk_bids b) \<and> bt_wf (bk_asks b)"

definition abs_of :: "book_state \<Rightarrow> abs_book" where
  "abs_of b = \<lparr>ab_bids = bt_get (bk_bids b), ab_asks = bt_get (bk_asks b), ab_hash = bk_hash b,
     ab_timestamp_ms = bk_timestamp_ms b\<rparr>"

definition refines :: "order_book_manager \<Rightarrow> (string \<rightharpoonup> abs_book) \<Rightarrow> bool" where
  "refines books spec \<longleftrightarrow>
     (\<forall>a. spec a = map_option abs_of (books a)) \<and> (\<forall>a b. books a = Some b \<longrightarrow> book_wf a b)"

lemma entry_or_new_refines:
  assumes "refines books spec"
  shows "book_wf a (entry_or_new books a)" "unwrap_or abs_empty (spec a) = abs_of (entry_or_new books a)"
proof -
  show "book_wf a (entry_or_new books a)"
    using assms by (cases "books a") (auto simp: refines_def entry_or_new_def book_wf_def book_new_def)
  show "unwrap_or abs_empty (spec a) = abs_of (entry_or_new books a)"
    using assms by (cases "books a")
      (auto simp: refines_def entry_or_new_def abs_of_def book_new_def abs_empty_def fun_eq_iff)
qed

lemma apply_snapshot_refines:
  "book_wf a b \<Longrightarrow> book_wf a (apply_snapshot b u)"
  "abs_of (apply_snapshot b u) = \<lparr>ab_bids = side_of_levels (bu_bids u), ab_asks = side_of_levels (bu_asks u),
     ab_hash = unwrap_or (ab_hash (abs_of b)) (bu_hash u),
     ab_timestamp_ms = unwrap_or 0 (parse_uint (bu_timestamp u))\<rparr>"
  by (simp_all add: book_wf_def apply_snapshot_def abs_of_def ladder_levels_refine)

lemma apply_delta_refines:
  assumes "book_wf a b"
  shows "book_wf a (apply_delta b e ts)"
    "abs_of (apply_delta b e ts) =
       \<lparr>ab_bids = (if pcb_side e = Buy then side_change (pcb_price e) (unwrap_or ''0'' (pcb_size e)) (ab_bids (abs_of b))
          else ab_bids (abs_of b)),
        ab_asks = (if pcb_side e = Sell then side_change (pcb_price e) (unwrap_or ''0'' (pcb_size e)) (ab_asks (abs_of b))
          else ab_asks (abs_of b)),
        ab_hash = unwrap_or (ab_hash (abs_of b)) (pcb_hash e), ab_timestamp_ms = ts\<rparr>"
  using assms
  by (cases "pcb_side e"; simp add: book_wf_def apply_delta_def abs_of_def ladder_upsert_refine Let_def)+

lemma refines_update:
  "refines books spec \<Longrightarrow> book_wf a b \<Longrightarrow> x = abs_of b \<Longrightarrow> refines (books(a \<mapsto> b)) (spec(a \<mapsto> x))"
  by (auto simp: refines_def)

lemma book_step_refines: "refines books spec \<Longrightarrow> refines (book_step books opr) (abs_step spec opr)"
proof (cases opr)
  case (OpBook u)
  assume r: "refines books spec"
  note e = entry_or_new_refines [OF r, of "bu_asset_id u"]
  show ?thesis unfolding OpBook book_step_def abs_step_def apply_book_update_def book_op.case
    by (rule refines_update [OF r apply_snapshot_refines(1) [OF e(1)]])
      (simp add: e(2) apply_snapshot_refines(2))
next
  case (OpChange en ts)
  assume r: "refines books spec"
  note e = entry_or_new_refines [OF r, of "pcb_asset_id en"]
  show ?thesis unfolding OpChange book_step_def abs_step_def apply_price_change_def book_op.case Let_def
    by (rule refines_update [OF r apply_delta_refines(1) [OF e(1)]])
      (simp only: e(2) apply_delta_refines(2) [OF e(1)])
qed (auto simp: refines_def book_step_def abs_step_def clear_all_def clear_asset_def)

lemma book_run_refines: "refines (book_run ops) (abs_run ops)"
proof -
  have "refines (foldl book_step books ops) (foldl abs_step spec ops)" if "refines books spec" for books spec
    using that by (induction ops arbitrary: books spec) (simp_all add: book_step_refines)
  moreover have "refines Map.empty Map.empty" by (simp add: refines_def)
  ultimately show ?thesis by (simp add: book_run_def abs_run_def)
qed

text \<open>What a best level is of an abstract side, prices compared as texts.\<close>

definition is_best_bid :: "(string \<rightharpoonup> string) \<Rightarrow> price_level option \<Rightarrow> bool" where
  "is_best_bid m best = (case best of
     None \<Rightarrow> m = Map.empty
   | Some l \<Rightarrow> m (pl_price l) = Some (pl_size l) \<and> (\<forall>p. m p \<noteq> None \<longrightarrow> p \<le> pl_price l))"

definition is_best_ask :: "(string \<rightharpoonup> string) \<Rightarrow> price_level option \<Rightarrow> bool" where
  "is_best_ask m best = (case best of
     None \<Rightarrow> m = Map.empty
   | Some l \<Rightarrow> m (pl_price l) = Some (pl_size l) \<and> (\<forall>p. m p \<noteq> None \<longrightarrow> pl_price l \<le> p))"

lemma ladder_best_is_best:
  assumes "bt_wf l"
  shows "is_best_bid (bt_get l) (ladder_best_bid l)" "is_best_ask (bt_get l) (ladder_best_ask l)"
proof -
  show "is_best_bid (bt_get l) (ladder_best_bid l)"
  proof (cases "bt_last l")
    case None
    then have "l = []" by simp
    then show ?thesis by (simp add: is_best_bid_def ladder_best_bid_def fun_eq_iff bt_last_def)
  next
    case (Some e)
    with bt_last_greatest [OF assms, of "fst e" "snd e"] show ?thesis
      by (auto simp: is_best_bid_def ladder_best_bid_def level_of_entry_def)
  qed
  show "is_best_ask (bt_get l) (ladder_best_ask l)"
  proof (cases "bt_first l")
    case None
    then have "l = []" by simp
    then show ?thesis by (simp add: is_best_ask_def ladder_best_ask_def fun_eq_iff bt_first_def)
  next
    case (Some e)
    with bt_first_least [OF assms, of "fst e" "snd e"] show ?thesis
      by (auto simp: is_best_ask_def ladder_best_ask_def level_of_entry_def)
  qed
qed

lemma snapshot_refines:
  assumes "get_snapshot (book_run ops) a = Some s"
  shows "\<exists>b. abs_run ops a = Some b \<and> obs_asset_id s = a \<and> obs_hash s = ab_hash b \<and>
    obs_timestamp_ms s = ab_timestamp_ms b \<and>
    is_best_bid (ab_bids b) (obs_best_bid s) \<and> is_best_ask (ab_asks b) (obs_best_ask s)"
  using assms book_run_refines [of ops]
  by (auto simp: refines_def get_snapshot_def to_snapshot_def abs_of_def book_wf_def ladder_best_is_best)

text \<open>
  C10. The order book manager refines its abstract specification: after any sequence of snapshots,
  price changes and clears an asset has a snapshot exactly when the specification has a book for
  it, and the snapshot shows that book's greatest bid, least ask, hash and time.
\<close>

theorem order_book_refines_spec:
  "case (get_snapshot (book_run ops) a, abs_run ops a) of
     (None, None) \<Rightarrow> True
   | (Some s, Some b) \<Rightarrow> obs_asset_id s = a \<and> obs_hash s = ab_hash b \<and>
       obs_timestamp_ms s = ab_timestamp_ms b \<and>
       is_best_bid (ab_bids b) (obs_best_bid s) \<and> is_best_ask (ab_asks b) (obs_best_ask s)
   | _ \<Rightarrow> False"
proof (cases "get_snapshot (book_run ops) a")
  case None
  then show ?thesis using book_run_refines [of ops] by (simp add: refines_def get_snapshot_def)
next
  case (Some s)
  with snapshot_refines [OF Some] show ?thesis by auto
qed

section \<open>Text order and numeric order\<close>

text \<open>
  The prices the exchange sends: one digit, then possibly a dot and up to six digits. On them the
  order of the texts is the order of the numbers.
\<close>

definition canonical_price :: "string \<Rightarrow> bool" where
  "canonical_price p =
     (case p of
        [] \<Rightarrow> False
      | d # rest \<Rightarrow> is_digit d \<and>
          (case rest of
             [] \<Rightarrow> True
           | c # f \<Rightarrow> c = CHR ''.'' \<and> all_digits f \<and> length f \<le> 6))"

definition scaled_fraction :: "nat \<Rightarrow> string \<Rightarrow> nat" where
  "scaled_fraction n f = digits_val 0 f * 10 ^ (n - length f)"

lemma scaled_fraction_Cons:
  "length f \<le> n \<Longrightarrow> scaled_fraction (Suc n) (d # f) = digit_val d * 10 ^ n + scaled_fraction n f"
proof -
  assume len: "length f \<le> n"
  have "digits_val (digit_val d) f = digit_val d * 10 ^ length f + digits_val 0 f"
    by (rule digits_val_acc)
  moreover have "(10 :: nat) ^ length f * 10 ^ (n - length f) = 10 ^ n"
    using len by (simp flip: power_add)
  ultimately show ?thesis by (simp add: scaled_fraction_def algebra_simps)
qed

lemma scaled_fraction_less: "all_digits f \<Longrightarrow> length f \<le> n \<Longrightarrow> scaled_fraction n f < 10 ^ n"
proof (induction f arbitrary: n)
  case (Cons d f)
  then obtain k where n: "n = Suc k" by (cases n) auto
  with Cons have "scaled_fraction k f < 10 ^ k" by simp
  moreover have "digit_val d \<le> 9" using Cons.prems digit_val_less [of d] by simp
  then have "digit_val d * 10 ^ k \<le> 9 * 10 ^ k" by (rule mult_le_mono1)
  ultimately have "digit_val d * 10 ^ k + scaled_fraction k f < 10 * 10 ^ k" by linarith
  then show ?case using n Cons.prems by (simp add: scaled_fraction_Cons)
qed (simp add: scaled_fraction_def)

lemma digit_val_mono: "is_digit c \<Longrightarrow> is_digit d \<Longrightarrow> c < d \<Longrightarrow> digit_val c < digit_val d"
  by (auto simp: is_digit_def digit_val_def less_char_def)

lemma scaled_fraction_mono:
  "all_digits f \<Longrightarrow> all_digits g \<Longrightarrow> length f \<le> n \<Longrightarrow> length g \<le> n \<Longrightarrow> f \<le> g \<Longrightarrow>
   scaled_fraction n f \<le> scaled_fraction n g"
proof (induction f arbitrary: g n)
  case (Cons c f)
  then obtain d h where g: "g = d # h" by (cases g) auto
  obtain k where n: "n = Suc k" using Cons.prems by (cases n) auto
  show ?case
  proof (cases "c = d")
    case True
    with Cons.prems g have "f \<le> h" by simp
    with Cons g n True have "scaled_fraction k f \<le> scaled_fraction k h" by simp
    with Cons.prems g n True show ?thesis by (simp add: scaled_fraction_Cons)
  next
    case False
    with Cons.prems g have "digit_val c < digit_val d" by (simp add: digit_val_mono)
    then have "Suc (digit_val c) * 10 ^ k \<le> digit_val d * 10 ^ k" by (intro mult_le_mono1) simp
    moreover have "scaled_fraction k f < 10 ^ k" using Cons.prems n by (intro scaled_fraction_less) auto
    ultimately show ?thesis using Cons.prems g n by (simp add: scaled_fraction_Cons)
  qed
qed (simp add: scaled_fraction_def)

lemma canonical_micros:
  assumes "canonical_price p"
  obtains d f where "decimal_micros p = Some (digit_val d * 10 ^ 6 + scaled_fraction 6 f)"
    "is_digit d" "all_digits f" "length f \<le> 6" "p = [d] \<and> f = [] \<or> p = d # CHR ''.'' # f"
proof -
  from assms obtain d rest where p: "p = d # rest" "is_digit d"
    by (auto simp: canonical_price_def split: list.splits)
  show thesis
  proof (cases rest)
    case Nil
    with p decimal_micros_digits [of "[d]"] that [of d "[]"] show thesis
      by (simp add: scaled_fraction_def)
  next
    case (Cons c f)
    with assms p have f: "c = CHR ''.''" "all_digits f" "length f \<le> 6"
      by (simp_all add: canonical_price_def)
    with p Cons decimal_micros_dot [of "[d]" f] that [of d f] show thesis
      by (simp add: scaled_fraction_def)
  qed
qed

lemma canonical_mono:
  assumes "canonical_price p" and "canonical_price q" and "p \<le> q"
  shows "\<exists>m n. decimal_micros p = Some m \<and> decimal_micros q = Some n \<and> m \<le> n"
proof (rule canonical_micros [OF assms(1)], rule canonical_micros [OF assms(2)])
  fix d f e g
  assume p: "decimal_micros p = Some (digit_val d * 10 ^ 6 + scaled_fraction 6 f)" "is_digit d"
      "all_digits f" "length f \<le> 6" "p = [d] \<and> f = [] \<or> p = d # CHR ''.'' # f"
    and q: "decimal_micros q = Some (digit_val e * 10 ^ 6 + scaled_fraction 6 g)" "is_digit e"
      "all_digits g" "length g \<le> 6" "q = [e] \<and> g = [] \<or> q = e # CHR ''.'' # g"
  have "digit_val d * 10 ^ 6 + scaled_fraction 6 f \<le> digit_val e * 10 ^ 6 + scaled_fraction 6 g"
  proof (cases "d = e")
    case True
    with assms(3) p(5) q(5) have "f \<le> g" by auto
    with True p q scaled_fraction_mono [of f g 6] show ?thesis by simp
  next
    case False
    with assms(3) p(5) q(5) have "d < e" by auto
    then have "Suc (digit_val d) * 10 ^ 6 \<le> digit_val e * 10 ^ 6"
      using digit_val_mono [OF p(2) q(2)] by (intro mult_le_mono1) simp
    moreover have "scaled_fraction 6 f < 10 ^ 6" using p by (intro scaled_fraction_less) auto
    ultimately show ?thesis by simp
  qed
  with p(1) q(1) show ?thesis by blast
qed

text \<open>
  On the prices the exchange sends the best levels are the numerically best ones: no canonical
  bid of the specification's book is worth more than the best bid and no canonical ask less than the
  best ask.
\<close>

theorem best_levels_numeric:
  assumes "get_snapshot (book_run ops) a = Some s" and "abs_run ops a = Some b"
    and "obs_best_bid s = Some bid" and "canonical_price (pl_price bid)"
    and "obs_best_ask s = Some ask" and "canonical_price (pl_price ask)"
    and "ab_bids b p \<noteq> None" and "canonical_price p" and "ab_asks b q \<noteq> None" and "canonical_price q"
  shows "(\<exists>m n. decimal_micros p = Some m \<and> decimal_micros (pl_price bid) = Some n \<and> m \<le> n) \<and>
         (\<exists>m n. decimal_micros (pl_price ask) = Some m \<and> decimal_micros q = Some n \<and> m \<le> n)"
proof -
  from snapshot_refines [OF assms(1)] assms(2,3,5) have
    "is_best_bid (ab_bids b) (Some bid)" "is_best_ask (ab_asks b) (Some ask)" by auto
  with assms(7,9) have "p \<le> pl_price bid" "pl_price ask \<le> q"
    by (simp_all add: is_best_bid_def is_best_ask_def)
  with canonical_mono [OF assms(8,4)] canonical_mono [OF assms(6,10)] show ?thesis by simp
qed

definition sample_book :: "string list \<Rightarrow> string list \<Rightarrow> book_update" where
  "sample_book bids asks = \<lparr>bu_asset_id = ''a'', bu_market = ''m'', bu_timestamp = ''1'',
     bu_bids = map (\<lambda>p. \<lparr>wl_price = p, wl_size = ''1''\<rparr>) bids,
     bu_asks = map (\<lambda>p. \<lparr>wl_price = p, wl_size = ''1''\<rparr>) asks, bu_hash = None\<rparr>"

lemmas sample_simps = sample_book_def book_run_def abs_run_def book_step_def abs_step_def
  apply_book_update_def entry_or_new_def book_new_def apply_snapshot_def get_snapshot_def to_snapshot_def
  ladder_apply_levels_def ladder_best_bid_def ladder_best_ask_def bt_last_def bt_first_def level_of_entry_def
  side_of_levels_def

theorem best_levels_numeric_witness:
  "\<exists>m n. decimal_micros ''0.45'' = Some m \<and> decimal_micros ''0.5'' = Some n \<and> m \<le> n"
  using best_levels_numeric [of "[OpBook (sample_book [''0.45'', ''0.5''] [''0.6''])]" "''a''" _ _
      "\<lparr>pl_price = ''0.5'', pl_size = ''1''\<rparr>" "\<lparr>pl_price = ''0.6'', pl_size = ''1''\<rparr>" "''0.45''" "''0.6''"]
  by (simp add: sample_simps canonical_price_def is_digit_def less_char_def)

text \<open>
  Outside the canonical prices the two orders differ: a bid of \<open>.5\<close> is below one of \<open>0.4\<close>, and a
  size of \<open>0.000\<close> does not remove its level.
\<close>

lemma text_order_differs:
  "map_option obs_best_bid (get_snapshot (book_run [OpBook (sample_book [''.5'', ''0.4''] [])]) ''a'') =
     Some (Some \<lparr>pl_price = ''0.4'', pl_size = ''1''\<rparr>) \<and>
   decimal_micros ''0.4'' = Some 400000 \<and> decimal_micros ''.5'' = Some 500000"
  by (simp add: sample_simps less_char_def decimal_micros_def is_digit_def digit_val_def)

lemma zero_size_kept:
  "ladder_upsert ''0.4'' ''0.000'' [(''0.4'', ''1'')] = [(''0.4'', ''0.000'')]"
  by (simp add: ladder_upsert_def zero_size_def)

end
