(* ===== verification/SubscriptionPlan.thy ===== *)
theory SubscriptionPlan
  imports OrdMap "HOL-Library.Multiset"
begin

text \<open>
  Planning the subscriptions of the market channel (\<open>pm-data/src/subscription_plan.rs\<close>): the diff of
  two asset sets, the round-robin shards and the batched commands. A \<open>BTreeSet\<close> is its ascending
  list of elements, a \<open>usize\<close> a natural number.
\<close>

section \<open>Data\<close>

datatype subscription_operation = Subscribe | Unsubscribe

datatype subscription_ack_policy = NoneExpected

record subscription_semantics =
  sem_supports_unsubscribe :: bool
  sem_ack_policy :: subscription_ack_policy
  sem_reconnect_replays_desired_subscriptions :: bool

record subscription_diff =
  sd_adds :: "string list"
  sd_removes :: "string list"
  sd_unchanged :: "string list"

record subscription_command =
  sc_operation :: subscription_operation
  sc_asset_ids :: "string list"
  sc_shard_index :: nat
  sc_pacing_ms :: u64

record subscription_planner_config =
  spc_max_batch_size :: nat
  spc_pacing_ms :: u64
  spc_shard_count :: nat
  spc_shard_index :: nat

record subscription_shard =
  sh_shard_index :: nat
  sh_asset_ids :: "string list"

definition default_planner_config :: subscription_planner_config where
  "default_planner_config =
     \<lparr>spc_max_batch_size = 64, spc_pacing_ms = 0, spc_shard_count = 1, spc_shard_index = 0\<rparr>"

definition market_subscription_semantics :: subscription_semantics where
  "market_subscription_semantics =
     \<lparr>sem_supports_unsubscribe = True, sem_ack_policy = NoneExpected,
      sem_reconnect_replays_desired_subscriptions = True\<rparr>"

section \<open>The plan\<close>

definition plan_subscription_diff :: "string list \<Rightarrow> string list \<Rightarrow> subscription_diff" where
  "plan_subscription_diff current desired =
     \<lparr>sd_adds = bset_difference desired current,
      sd_removes = bset_difference current desired,
      sd_unchanged = bset_intersection current desired\<rparr>"

definition push_asset :: "subscription_shard list \<Rightarrow> nat \<times> string \<Rightarrow> subscription_shard list" where
  "push_asset shards e =
     (let i = fst e mod length shards
      in shards[i := (shards ! i)\<lparr>sh_asset_ids := sh_asset_ids (shards ! i) @ [snd e]\<rparr>])"

definition assign_subscription_shards :: "string list \<Rightarrow> nat \<Rightarrow> subscription_shard list" where
  "assign_subscription_shards desired shard_count =
     (let n = max shard_count 1;
          shards = map (\<lambda>i. \<lparr>sh_shard_index = i, sh_asset_ids = []\<rparr>) [0..<n]
      in foldl push_asset shards (enumerate 0 desired))"

definition assigned_asset_ids_for_config ::
    "string list \<Rightarrow> subscription_planner_config \<Rightarrow> string list" where
  "assigned_asset_ids_for_config desired config =
     (let shard_count = max (spc_shard_count config) 1;
          shard_index = min (spc_shard_index config) (shard_count - 1)
      in unwrap_or [] (map_option sh_asset_ids
           (find (\<lambda>s. sh_shard_index s = shard_index) (assign_subscription_shards desired shard_count))))"

function chunks :: "nat \<Rightarrow> 'a list \<Rightarrow> 'a list list" where
  "chunks n xs = (if xs = [] \<or> n = 0 then [] else take n xs # chunks n (drop n xs))"
  by pat_completeness auto
termination
  by (relation "measure (\<lambda>(n, xs). length xs)") auto

declare chunks.simps [simp del]

definition append_batched_commands ::
    "subscription_command list \<Rightarrow> subscription_operation \<Rightarrow> string list \<Rightarrow> nat \<Rightarrow> nat \<Rightarrow> u64
      \<Rightarrow> subscription_command list" where
  "append_batched_commands commands operation asset_ids shard_index max_batch_size pacing_ms =
     foldl (\<lambda>cs batch. cs @
         [\<lparr>sc_operation = operation, sc_asset_ids = batch, sc_shard_index = shard_index,
           sc_pacing_ms = (if cs = [] then 0 else pacing_ms)\<rparr>])
       commands (chunks max_batch_size asset_ids)"

definition plan_subscription_commands ::
    "string list \<Rightarrow> string list \<Rightarrow> subscription_planner_config \<Rightarrow> subscription_command list" where
  "plan_subscription_commands current desired config =
     (let shard_count = max (spc_shard_count config) 1;
          shard_index = min (spc_shard_index config) (shard_count - 1);
          max_batch_size = max (spc_max_batch_size config) 1;
          desired_for_shard = bset_collect (assigned_asset_ids_for_config desired config);
          diff = plan_subscription_diff current desired_for_shard;
          commands = append_batched_commands [] Unsubscribe (sd_removes diff) shard_index
            max_batch_size (spc_pacing_ms config)
      in append_batched_commands commands Subscribe (sd_adds diff) shard_index
           max_batch_size (spc_pacing_ms config))"

section \<open>Chunks\<close>

lemma concat_chunks: "0 < n \<Longrightarrow> concat (chunks n xs) = xs"
  by (induction n xs rule: chunks.induct) (subst chunks.simps, auto)

lemma chunks_bounds: "c \<in> set (chunks n xs) \<Longrightarrow> c \<noteq> [] \<and> length c \<le> n"
proof (induction n xs rule: chunks.induct)
  case (1 n xs)
  show ?case
  proof (cases "xs = [] \<or> n = 0")
    case True
    with 1(2) show ?thesis by (simp add: chunks.simps [of n xs])
  next
    case False
    with 1(2) have "c = take n xs \<or> c \<in> set (chunks n (drop n xs))" by (simp add: chunks.simps [of n xs])
    with False 1(1) show ?thesis by auto
  qed
qed

section \<open>Shards\<close>

lemma length_push_asset [simp]: "length (push_asset shards e) = length shards"
  by (simp add: push_asset_def Let_def)

lemma length_push_assets [simp]: "length (foldl push_asset shards es) = length shards"
  by (induction es arbitrary: shards) simp_all

text \<open>The assets of position \<open>k\<close>, \<open>k + n\<close>, \<open>k + 2 n\<close>, and so on.\<close>

definition every_nth :: "nat \<Rightarrow> nat \<Rightarrow> nat \<Rightarrow> 'a list \<Rightarrow> 'a list" where
  "every_nth n k i xs = map snd (filter (\<lambda>e. fst e mod n = k) (enumerate i xs))"

lemma push_assets_nth:
  "k < length shards \<Longrightarrow>
   foldl push_asset shards (enumerate i xs) ! k =
     (shards ! k)\<lparr>sh_asset_ids := sh_asset_ids (shards ! k) @ every_nth (length shards) k i xs\<rparr>"
proof (induction xs arbitrary: shards i)
  case (Cons x xs)
  have "push_asset shards (i, x) ! k =
      (if i mod length shards = k then (shards ! k)\<lparr>sh_asset_ids := sh_asset_ids (shards ! k) @ [x]\<rparr> else shards ! k)"
    using Cons.prems by (simp add: push_asset_def Let_def nth_list_update)
  then show ?case using Cons.prems Cons.IH [of "push_asset shards (i, x)" "Suc i"]
    by (simp add: every_nth_def)
qed (simp add: every_nth_def)

lemma assign_shards_nth:
  assumes "k < max n 1"
  shows "assign_subscription_shards desired n ! k =
    \<lparr>sh_shard_index = k, sh_asset_ids = every_nth (max n 1) k 0 desired\<rparr>"
  using assms by (simp add: assign_subscription_shards_def Let_def push_assets_nth)

lemma length_assign_shards [simp]: "length (assign_subscription_shards desired n) = max n 1"
  by (simp add: assign_subscription_shards_def Let_def)

lemma find_shard:
  assumes "k < max n 1"
  shows "find (\<lambda>s. sh_shard_index s = k) (assign_subscription_shards desired n) =
    Some (assign_subscription_shards desired n ! k)"
  unfolding find_Some_iff
  using assms by (intro exI [of _ k]) (auto simp: assign_shards_nth)

lemma assigned_every_nth:
  "assigned_asset_ids_for_config desired config =
     every_nth (max (spc_shard_count config) 1)
       (min (spc_shard_index config) (max (spc_shard_count config) 1 - 1)) 0 desired"
proof -
  let ?n = "max (spc_shard_count config) 1"
  have "min (spc_shard_index config) (?n - 1) < max ?n 1" by simp
  then show ?thesis
    by (simp add: assigned_asset_ids_for_config_def Let_def find_shard assign_shards_nth)
qed

lemma sum_mset_Suc:
  "(\<Sum>k<n. if i mod n = k then {#x#} + f k else f k) = {#x#} + (\<Sum>k<n. f k)" if "0 < n" for n i :: nat
proof -
  have "(\<Sum>k<n. if i mod n = k then {#x#} + f k else f k) = (\<Sum>k<n. (if i mod n = k then {#x#} else {#}) + f k)"
    by (intro sum.cong) auto
  moreover have "(\<Sum>k<n. if i mod n = k then {#x#} else {#}) = {#x#}"
    using that by (subst sum.delta') simp_all
  ultimately show ?thesis by (simp add: sum.distrib)
qed

lemma mset_every_nth:
  assumes "0 < n"
  shows "(\<Sum>k<n. mset (every_nth n k i xs)) = mset xs"
proof (induction xs arbitrary: i)
  case (Cons x xs)
  have "(\<Sum>k<n. mset (every_nth n k i (x # xs))) =
      (\<Sum>k<n. if i mod n = k then {#x#} + mset (every_nth n k (Suc i) xs) else mset (every_nth n k (Suc i) xs))"
    by (intro sum.cong) (auto simp: every_nth_def)
  also have "\<dots> = {#x#} + mset xs" by (simp add: sum_mset_Suc assms Cons.IH)
  finally show ?case by simp
qed (simp add: every_nth_def)

lemma every_nth_wf: "bset_wf xs \<Longrightarrow> bset_wf (every_nth n k i xs)"
proof -
  assume "bset_wf xs"
  then have "sorted_wrt (\<lambda>e f. snd e < snd f) (enumerate i xs)"
    by (simp add: bset_wf_def sorted_wrt_iff_nth_less nth_enumerate_eq)
  then have "sorted_wrt (\<lambda>e f. snd e < snd f) (filter (\<lambda>e. fst e mod n = k) (enumerate i xs))"
    by (rule sorted_wrt_filter)
  then show ?thesis by (simp add: bset_wf_def every_nth_def sorted_wrt_map)
qed

lemma sum_mset_nth: "(\<Sum>k<length xs. f (xs ! k)) = sum_list (map f xs)"
  by (simp add: sum_list_sum_nth atLeast0LessThan)

text \<open>
  The shards partition the assets: there is one shard for each index, shard \<open>k\<close> holds the assets
  whose position is \<open>k\<close> modulo the number of shards, and together they hold every asset once.
\<close>

theorem shards_partition:
  "map sh_shard_index (assign_subscription_shards desired n) = [0..<max n 1] \<and>
   map sh_asset_ids (assign_subscription_shards desired n)
     = map (\<lambda>k. every_nth (max n 1) k 0 desired) [0..<max n 1] \<and>
   mset (concat (map sh_asset_ids (assign_subscription_shards desired n))) = mset desired"
proof -
  let ?ss = "assign_subscription_shards desired n" and ?m = "max n 1"
  have idx: "map sh_shard_index ?ss = [0..<?m]"
    by (rule nth_equalityI) (simp_all add: assign_shards_nth)
  have ids: "map sh_asset_ids ?ss = map (\<lambda>k. every_nth ?m k 0 desired) [0..<?m]"
    by (rule nth_equalityI) (simp_all add: assign_shards_nth)
  have "mset (concat (map sh_asset_ids ?ss)) = (\<Sum>k<?m. mset (every_nth ?m k 0 desired))"
    unfolding ids by (simp add: mset_concat comp_def atLeast0LessThan [symmetric] interv_sum_list_conv_sum_set_nat)
  also have "\<dots> = mset desired" by (rule mset_every_nth) simp
  finally show ?thesis using idx ids by blast
qed

section \<open>Commands\<close>

lemma append_batched_map:
  "append_batched_commands cs operation ids sh m p = cs @
     (case chunks m ids of [] \<Rightarrow> [] | b # bs \<Rightarrow>
        \<lparr>sc_operation = operation, sc_asset_ids = b, sc_shard_index = sh, sc_pacing_ms = (if cs = [] then 0 else p)\<rparr> #
        map (\<lambda>b. \<lparr>sc_operation = operation, sc_asset_ids = b, sc_shard_index = sh, sc_pacing_ms = p\<rparr>) bs)"
proof -
  have "foldl (\<lambda>cs batch. cs @ [\<lparr>sc_operation = operation, sc_asset_ids = batch, sc_shard_index = sh,
        sc_pacing_ms = (if cs = [] then 0 else p)\<rparr>]) cs bs =
      cs @ map (\<lambda>b. \<lparr>sc_operation = operation, sc_asset_ids = b, sc_shard_index = sh, sc_pacing_ms = p\<rparr>) bs"
    if "cs \<noteq> []" for cs bs using that by (induction bs arbitrary: cs) simp_all
  then show ?thesis by (simp add: append_batched_commands_def split: list.splits)
qed

text \<open>What the exchange's documentation says a command does to the set of subscribed assets.\<close>

definition server_apply :: "string set \<Rightarrow> subscription_command \<Rightarrow> string set" where
  "server_apply subscribed c =
     (case sc_operation c of
        Subscribe \<Rightarrow> subscribed \<union> set (sc_asset_ids c)
      | Unsubscribe \<Rightarrow> subscribed - set (sc_asset_ids c))"

definition server_run :: "string set \<Rightarrow> subscription_command list \<Rightarrow> string set" where
  "server_run subscribed cs = foldl server_apply subscribed cs"

lemma server_run_append: "server_run S (cs @ ds) = server_run (server_run S cs) ds"
  by (simp add: server_run_def)

lemma server_run_Nil [simp]: "server_run S [] = S"
  by (simp add: server_run_def)

lemma server_run_Cons: "server_run S (c # cs) = server_run (server_apply S c) cs"
  by (simp add: server_run_def)

lemma Diff_Un_twice: "A - B - C = A - (B \<union> C)"
  by blast

lemma server_run_batches:
  "server_run S (map (\<lambda>b. \<lparr>sc_operation = Subscribe, sc_asset_ids = b, sc_shard_index = sh, sc_pacing_ms = p\<rparr>) bs)
     = S \<union> set (concat bs)"
  "server_run S (map (\<lambda>b. \<lparr>sc_operation = Unsubscribe, sc_asset_ids = b, sc_shard_index = sh, sc_pacing_ms = p\<rparr>) bs)
     = S - set (concat bs)"
  by (induction bs arbitrary: S) (auto simp: server_run_Cons server_apply_def)

lemma server_run_append_batched:
  assumes "0 < m"
  shows "server_run S (append_batched_commands cs Subscribe ids sh m p) = server_run S cs \<union> set ids"
    and "server_run S (append_batched_commands cs Unsubscribe ids sh m p) = server_run S cs - set ids"
proof -
  have set_ids: "set ids = set (concat (chunks m ids))" using concat_chunks [OF assms, of ids] by simp
  show "server_run S (append_batched_commands cs Subscribe ids sh m p) = server_run S cs \<union> set ids"
    unfolding set_ids append_batched_map server_run_append
    by (cases "chunks m ids") (simp_all add: server_run_Cons server_run_batches server_apply_def Un_assoc)
  show "server_run S (append_batched_commands cs Unsubscribe ids sh m p) = server_run S cs - set ids"
    unfolding set_ids append_batched_map server_run_append
    by (cases "chunks m ids") (simp_all add: server_run_Cons server_run_batches server_apply_def Diff_Un_twice)
qed

lemma plan_commands_server:
  "server_run S (plan_subscription_commands current desired config) =
     (S - (set current - set (assigned_asset_ids_for_config desired config)))
       \<union> (set (assigned_asset_ids_for_config desired config) - set current)"
  by (simp add: plan_subscription_commands_def Let_def server_run_append_batched plan_subscription_diff_def)

lemma append_batched_ok:
  assumes "list_all (\<lambda>c. sc_asset_ids c \<noteq> [] \<and> length (sc_asset_ids c) \<le> m) cs"
  shows "list_all (\<lambda>c. sc_asset_ids c \<noteq> [] \<and> length (sc_asset_ids c) \<le> m)
    (append_batched_commands cs operation ids sh m p)"
proof (cases "chunks m ids")
  case (Cons b bs)
  then have "b \<noteq> [] \<and> length b \<le> m" "\<And>c. c \<in> set bs \<Longrightarrow> c \<noteq> [] \<and> length c \<le> m"
    using chunks_bounds [of _ m ids] by simp_all
  with assms Cons show ?thesis by (auto simp: append_batched_map list_all_iff)
qed (use assms in \<open>simp add: append_batched_map\<close>)

lemma append_batched_pacing:
  assumes "map sc_pacing_ms cs = (case cs of [] \<Rightarrow> [] | _ # ds \<Rightarrow> 0 # replicate (length ds) p)"
  shows "map sc_pacing_ms (append_batched_commands cs operation ids sh m p) =
    (case append_batched_commands cs operation ids sh m p of [] \<Rightarrow> [] | _ # ds \<Rightarrow> 0 # replicate (length ds) p)"
proof (cases cs)
  case Nil
  then show ?thesis by (simp add: append_batched_map comp_def map_replicate_const split: list.splits)
next
  case (Cons c ds)
  with assms show ?thesis
    by (auto simp: append_batched_map comp_def map_replicate_const replicate_add split: list.splits
        simp flip: replicate_Suc replicate_append_same)
qed

text \<open>
  C27. The planned commands move a server that holds the current subscriptions to exactly the assets of
  this shard; each carries between one asset and the batch limit, and all but the first wait for the
  configured pacing.
\<close>

theorem plan_commands_converge:
  "server_run (set current) (plan_subscription_commands current desired config)
     = set (assigned_asset_ids_for_config desired config) \<and>
   list_all (\<lambda>c. sc_asset_ids c \<noteq> [] \<and> length (sc_asset_ids c) \<le> max (spc_max_batch_size config) 1)
     (plan_subscription_commands current desired config) \<and>
   map sc_pacing_ms (plan_subscription_commands current desired config) =
     (case plan_subscription_commands current desired config of [] \<Rightarrow> []
      | _ # cs \<Rightarrow> 0 # replicate (length cs) (spc_pacing_ms config))"
proof (intro conjI)
  show "server_run (set current) (plan_subscription_commands current desired config)
     = set (assigned_asset_ids_for_config desired config)"
    by (auto simp: plan_commands_server)
  show "list_all (\<lambda>c. sc_asset_ids c \<noteq> [] \<and> length (sc_asset_ids c) \<le> max (spc_max_batch_size config) 1)
     (plan_subscription_commands current desired config)"
    unfolding plan_subscription_commands_def Let_def by (intro append_batched_ok) simp
  show "map sc_pacing_ms (plan_subscription_commands current desired config) =
     (case plan_subscription_commands current desired config of [] \<Rightarrow> []
      | _ # cs \<Rightarrow> 0 # replicate (length cs) (spc_pacing_ms config))"
    unfolding plan_subscription_commands_def Let_def by (intro append_batched_pacing) simp
qed

end
