(* ===== verification/ReferenceStore.thy ===== *)
theory ReferenceStore
  imports CoreTypes
begin

text \<open>
  The store of the non-depth updates (\<open>pm-data/src/reference_store.rs\<close>): the last payload of each
  kind for every subject.
\<close>

record reference_store_key =
  rk_source_id :: source_id
  rk_instrument_kind :: string
  rk_instrument_id :: string

record reference_state =
  rs_last_notice :: "update_notice option"
  rs_last_reference_price :: "reference_price_update option"
  rs_last_trade_tick :: "trade_tick_update option"
  rs_last_best_bid_ask :: "best_bid_ask_update option"
  rs_last_tick_size_change :: "tick_size_change_update option"
  rs_last_source_status :: "source_status_update option"
  rs_last_reconnect :: "reconnect_update option"

type_synonym reference_store = "reference_store_key \<rightharpoonup> reference_state"

definition reference_state_default :: reference_state where
  "reference_state_default =
     \<lparr>rs_last_notice = None, rs_last_reference_price = None, rs_last_trade_tick = None,
      rs_last_best_bid_ask = None, rs_last_tick_size_change = None, rs_last_source_status = None,
      rs_last_reconnect = None\<rparr>"

definition key_for_subject :: "instrument_ref \<Rightarrow> reference_store_key" where
  "key_for_subject subject =
     \<lparr>rk_source_id = ir_source_id subject, rk_instrument_kind = instrument_kind_debug (ir_kind subject),
      rk_instrument_id = ir_instrument_id subject\<rparr>"

definition record_payload :: "normalized_update_payload \<Rightarrow> reference_state \<Rightarrow> reference_state" where
  "record_payload p entry =
     (case p of
        ReferencePrice r \<Rightarrow> entry\<lparr>rs_last_reference_price := Some r\<rparr>
      | TradeTick t \<Rightarrow> entry\<lparr>rs_last_trade_tick := Some t\<rparr>
      | BestBidAsk b \<Rightarrow> entry\<lparr>rs_last_best_bid_ask := Some b\<rparr>
      | TickSizeChange t \<Rightarrow> entry\<lparr>rs_last_tick_size_change := Some t\<rparr>
      | SourceStatus s \<Rightarrow> entry\<lparr>rs_last_source_status := Some s\<rparr>
      | Reconnect r \<Rightarrow> entry\<lparr>rs_last_reconnect := Some r\<rparr>
      | BookSnapshot _ \<Rightarrow> entry
      | BookDelta _ \<Rightarrow> entry)"

definition store_apply_update :: "reference_store \<Rightarrow> normalized_update \<Rightarrow> reference_store" where
  "store_apply_update st update =
     (let key = key_for_subject (un_subject (nu_notice update));
          entry = unwrap_or reference_state_default (st key)
      in st(key \<mapsto> record_payload (nu_payload update) (entry\<lparr>rs_last_notice := Some (nu_notice update)\<rparr>)))"

definition resolve_subject :: "reference_store \<Rightarrow> instrument_ref \<Rightarrow> reference_state option" where
  "resolve_subject st subject = st (key_for_subject subject)"

definition store_clear_source :: "reference_store \<Rightarrow> source_id \<Rightarrow> reference_store" where
  "store_clear_source st source = retain (\<lambda>k. rk_source_id k \<noteq> source) st"

definition clear_instrument ::
    "reference_store \<Rightarrow> source_id \<Rightarrow> instrument_kind \<Rightarrow> string \<Rightarrow> reference_store" where
  "clear_instrument st source kind i =
     retain (\<lambda>k. \<not> (rk_source_id k = source \<and> rk_instrument_kind k = instrument_kind_debug kind \<and>
                   rk_instrument_id k = i)) st"

definition store_len :: "reference_store \<Rightarrow> nat" where
  "store_len st = card (dom st)"

section \<open>Facts\<close>

lemma key_for_subject_inj [simp]: "key_for_subject r = key_for_subject s \<longleftrightarrow> r = s"
  by (cases r; cases s) (simp add: key_for_subject_def)

lemma resolve_after_apply:
  "resolve_subject (store_apply_update st u) s =
     (if s = un_subject (nu_notice u)
      then Some (record_payload (nu_payload u)
        ((unwrap_or reference_state_default (resolve_subject st s))\<lparr>rs_last_notice := Some (nu_notice u)\<rparr>))
      else resolve_subject st s)"
  by (auto simp: resolve_subject_def store_apply_update_def Let_def)

lemma resolve_after_clear_source:
  "resolve_subject (store_clear_source st source) s =
     (if ir_source_id s = source then None else resolve_subject st s)"
  by (simp add: resolve_subject_def store_clear_source_def key_for_subject_def)

lemma resolve_after_clear_instrument:
  "resolve_subject (clear_instrument st source kind i) s =
     (if s = \<lparr>ir_source_id = source, ir_kind = kind, ir_instrument_id = i\<rparr> then None
      else resolve_subject st s)"
  by (cases s) (simp add: resolve_subject_def clear_instrument_def key_for_subject_def)

lemma record_payload_notice [simp]: "rs_last_notice (record_payload p e) = rs_last_notice e"
  by (cases p) (simp_all add: record_payload_def)

end
