(* ===== verification/WsClient.thy ===== *)
theory WsClient
  imports SubscriptionPlan WsTypes
begin

text \<open>
  The websocket client (\<open>pm-data/src/ws.rs\<close>): the backoff, reconfiguration with its control queue, the
  reconnection loop, the select loop of one connection as a step on its events, and the dispatch of
  text frames. The network, the clock, the jitter and the JSON decoder are arguments.
\<close>

section \<open>Backoff\<close>

record backoff_state =
  bf_current_ms :: u64
  bf_base_ms :: u64
  bf_cap_ms :: u64
  bf_jitter_ms :: u64

definition backoff_new :: backoff_state where
  "backoff_new = \<lparr>bf_current_ms = 1000, bf_base_ms = 1000, bf_cap_ms = 60000, bf_jitter_ms = 500\<rparr>"

definition rand_jitter :: "u64 \<Rightarrow> u64 \<Rightarrow> u64" where
  "rand_jitter subsec_nanos max_ms = subsec_nanos mod (max_ms + 1)"

definition next_delay :: "u64 \<Rightarrow> backoff_state \<Rightarrow> u64 \<times> backoff_state" where
  "next_delay subsec_nanos b =
     (let delay_ms = bf_current_ms b;
          jitter = (if bf_jitter_ms b > 0 then rand_jitter subsec_nanos (bf_jitter_ms b) else 0)
      in (delay_ms + jitter, b\<lparr>bf_current_ms := min (bf_current_ms b * 2) (bf_cap_ms b)\<rparr>))"

definition backoff_reset :: "backoff_state \<Rightarrow> backoff_state" where
  "backoff_reset b = b\<lparr>bf_current_ms := bf_base_ms b\<rparr>"

section \<open>Reconfiguration\<close>

text \<open>\<open>wc_control\<close> is the control channel with its pending commands while \<open>run\<close> is active.\<close>

record ws_client =
  wc_desired_asset_ids :: "string list"
  wc_planner_config :: subscription_planner_config
  wc_control :: "subscription_command list option"
  wc_issued_commands :: "subscription_command list"

definition ws_client_new :: "string list \<Rightarrow> subscription_planner_config \<Rightarrow> ws_client" where
  "ws_client_new asset_ids config =
     \<lparr>wc_desired_asset_ids = bset_collect asset_ids, wc_planner_config = config, wc_control = None,
      wc_issued_commands = []\<rparr>"

definition assigned_asset_ids :: "ws_client \<Rightarrow> string list" where
  "assigned_asset_ids c = assigned_asset_ids_for_config (wc_desired_asset_ids c) (wc_planner_config c)"

definition ws_reconfigure_assets :: "ws_client \<Rightarrow> string list \<Rightarrow> ws_client \<times> subscription_command list" where
  "ws_reconfigure_assets c asset_ids =
     (let current = bset_collect (assigned_asset_ids c);
          desired = bset_collect asset_ids;
          commands = plan_subscription_commands current desired (wc_planner_config c);
          c' = c\<lparr>wc_desired_asset_ids := desired\<rparr>
      in if commands = [] then (c', commands)
         else (c'\<lparr>wc_issued_commands := wc_issued_commands c' @ commands,
                  wc_control := map_option (\<lambda>q. q @ commands) (wc_control c')\<rparr>, commands))"

section \<open>The reconnection loop\<close>

text \<open>One iteration of \<open>run\<close> sees: the end of the connection, the shutdown flag after it, the clock
  and the nanoseconds the jitter takes.\<close>

datatype connection_end = ClosedCleanly | ConnectionError

record run_input =
  ri_end :: connection_end
  ri_shutdown :: bool
  ri_now_ms :: u64
  ri_subsec_nanos :: u64

record run_state =
  rn_backoff :: backoff_state
  rn_first_connect :: bool
  rn_reconnect_count :: u64
  rn_sent :: "ws_message list"
  rn_delays :: "u64 list"

definition run_init :: run_state where
  "run_init = \<lparr>rn_backoff = backoff_new, rn_first_connect = True, rn_reconnect_count = 0,
     rn_sent = [], rn_delays = []\<rparr>"

text \<open>The result is the state and whether the loop goes on.\<close>

definition run_step :: "run_state \<Rightarrow> run_input \<Rightarrow> run_state \<times> bool" where
  "run_step st inp =
     (let st1 = (case ri_end inp of
          ClosedCleanly \<Rightarrow> st\<lparr>rn_backoff := backoff_reset (rn_backoff st)\<rparr>
        | ConnectionError \<Rightarrow> st)
      in if ri_shutdown inp then (st1, False)
         else if \<not> rn_first_connect st1 then
           let count = rn_reconnect_count st1 + 1;
               (delay, b) = next_delay (ri_subsec_nanos inp) (rn_backoff st1)
           in (st1\<lparr>rn_reconnect_count := count,
                   rn_sent := rn_sent st1 @
                     [WsReconnected \<lparr>re_sequence = count, re_timestamp_ms = ri_now_ms inp\<rparr>],
                   rn_delays := rn_delays st1 @ [delay],
                   rn_backoff := b\<rparr>, True)
         else (st1\<lparr>rn_first_connect := False\<rparr>, True))"

fun run_loop :: "run_state \<Rightarrow> run_input list \<Rightarrow> run_state" where
  "run_loop st [] = st"
| "run_loop st (i # is) = (case run_step st i of (st', go) \<Rightarrow> if go then run_loop st' is else st')"

section \<open>Text frames\<close>

text \<open>
  \<open>&trimmed[..trimmed.len().min(200)]\<close> in the warnings panics when byte 200 is inside a character:
  the panic is \<open>None\<close>. The warnings evaluate it only when their level is enabled.
\<close>

definition char_boundary :: "string \<Rightarrow> nat \<Rightarrow> bool" where
  "char_boundary s i \<longleftrightarrow> i = length s \<or>
     (i < length s \<and> \<not> (128 \<le> (of_char (s ! i) :: nat) \<and> (of_char (s ! i) :: nat) < 192))"

definition warn_raw :: "bool \<Rightarrow> string \<Rightarrow> ws_message list option" where
  "warn_raw warn_enabled trimmed =
     (if warn_enabled \<and> \<not> char_boundary trimmed (min (length trimmed) 200) then None else Some [])"

definition parse_and_send ::
    "(string \<Rightarrow> ws_message list option) \<Rightarrow> (string \<Rightarrow> ws_message option) \<Rightarrow> bool \<Rightarrow> string
      \<Rightarrow> ws_message list option" where
  "parse_and_send from_array from_object warn_enabled txt =
     (let trimmed = trim txt
      in if take 1 trimmed = ''['' then
           (case from_array trimmed of Some msgs \<Rightarrow> Some msgs | None \<Rightarrow> warn_raw warn_enabled trimmed)
         else if take 1 trimmed = ''{'' then
           (case from_object trimmed of Some m \<Rightarrow> Some [m] | None \<Rightarrow> warn_raw warn_enabled trimmed)
         else Some [])"

section \<open>Subscription messages\<close>

datatype json = JString string | JBool bool | JArray "json list" | JObject "(string \<times> json) list"

text \<open>The object is a \<open>BTreeMap\<close> of \<open>serde\_json\<close>, so its keys are in ascending order.\<close>

definition build_subscription_value :: "subscription_command \<Rightarrow> bool \<Rightarrow> json" where
  "build_subscription_value command custom_features =
     JObject (bt_insert ''custom_feature_enabled'' (JBool custom_features)
       (bt_collect
         [(''assets_ids'', JArray (map JString (sc_asset_ids command))),
          (''type'', JString ''market''),
          (''operation'', JString (case sc_operation command of
             Subscribe \<Rightarrow> ''subscribe'' | Unsubscribe \<Rightarrow> ''unsubscribe''))]))"

definition build_subscription_message :: "(json \<Rightarrow> string) \<Rightarrow> subscription_command \<Rightarrow> bool \<Rightarrow> string" where
  "build_subscription_message to_string command custom_features =
     to_string (build_subscription_value command custom_features)"

definition build_subscribe_message :: "(json \<Rightarrow> string) \<Rightarrow> string list \<Rightarrow> bool \<Rightarrow> string" where
  "build_subscribe_message to_string asset_ids custom_features =
     build_subscription_message to_string
       \<lparr>sc_operation = Subscribe, sc_asset_ids = asset_ids, sc_shard_index = 0, sc_pacing_ms = 0\<rparr>
       custom_features"

section \<open>One connection\<close>

datatype ws_frame = FrameText string | FramePing string | FramePong string | FrameClose | FrameSubscription subscription_command

datatype ws_event =
    EvCommand "subscription_command option"
  | EvPingTick bool
  | EvText string u64
  | EvPing string
  | EvClose
  | EvReadError
  | EvStreamEnd
  | EvOtherFrame
  | EvShutdownChanged bool

datatype session_control = Continue | ReturnOk | ReturnErr | Panicked

record ws_session =
  wss_written :: "ws_frame list"
  wss_sent :: "ws_message list"
  wss_last_message_at :: u64
  wss_slept_ms :: "u64 list"

definition write_frame :: "bool \<Rightarrow> ws_frame \<Rightarrow> ws_session \<Rightarrow> ws_session \<times> session_control" where
  "write_frame write_ok f s =
     (if write_ok then (s\<lparr>wss_written := wss_written s @ [f]\<rparr>, Continue) else (s, ReturnErr))"

definition send_subscription_command ::
    "bool \<Rightarrow> subscription_command \<Rightarrow> ws_session \<Rightarrow> ws_session \<times> session_control" where
  "send_subscription_command write_ok command s =
     write_frame write_ok (FrameSubscription command)
       (if sc_pacing_ms command > 0 then s\<lparr>wss_slept_ms := wss_slept_ms s @ [sc_pacing_ms command]\<rparr> else s)"

text \<open>The select arm that fires, with whether a write would succeed; \<open>decode\<close> is \<open>parse_and_send\<close> at
  the JSON decoders.\<close>

definition session_step ::
    "(string \<Rightarrow> ws_message list option) \<Rightarrow> ws_session \<Rightarrow> ws_event \<times> bool \<Rightarrow> ws_session \<times> session_control" where
  "session_step decode s ew =
     (let write_ok = snd ew
      in case fst ew of
           EvCommand (Some command) \<Rightarrow> send_subscription_command write_ok command s
         | EvCommand None \<Rightarrow> (s, ReturnOk)
         | EvPingTick shutdown \<Rightarrow>
             if shutdown then (s, ReturnOk) else write_frame write_ok (FrameText ''PING'') s
         | EvText txt now \<Rightarrow>
             (let s' = s\<lparr>wss_last_message_at := now\<rparr>
              in if txt = ''PONG'' then (s', Continue)
                 else (case decode txt of
                         None \<Rightarrow> (s', Panicked)
                       | Some msgs \<Rightarrow> (s'\<lparr>wss_sent := wss_sent s' @ msgs\<rparr>, Continue)))
         | EvPing data \<Rightarrow> write_frame write_ok (FramePong data) s
         | EvClose \<Rightarrow> (s, ReturnOk)
         | EvReadError \<Rightarrow> (s, ReturnErr)
         | EvStreamEnd \<Rightarrow> (s, ReturnOk)
         | EvOtherFrame \<Rightarrow> (s, Continue)
         | EvShutdownChanged shutdown \<Rightarrow>
             if shutdown then (fst (write_frame write_ok FrameClose s), ReturnOk) else (s, Continue))"

fun send_commands :: "(subscription_command \<times> bool) list \<Rightarrow> ws_session \<Rightarrow> ws_session \<times> session_control" where
  "send_commands [] s = (s, Continue)"
| "send_commands ((c, ok) # cs) s =
     (case send_subscription_command ok c s of
        (s', Continue) \<Rightarrow> send_commands cs s'
      | r \<Rightarrow> r)"

fun session_loop ::
    "(string \<Rightarrow> ws_message list option) \<Rightarrow> ws_session \<Rightarrow> (ws_event \<times> bool) list \<Rightarrow> ws_session \<times> session_control" where
  "session_loop decode s [] = (s, Continue)"
| "session_loop decode s (e # es) =
     (case session_step decode s e of
        (s', Continue) \<Rightarrow> session_loop decode s' es
      | r \<Rightarrow> r)"

text \<open>A connection: the initial commands against no subscription, then the select loop. \<open>oks\<close> says
  which of the initial writes succeed.\<close>

definition connect_and_run ::
    "(string \<Rightarrow> ws_message list option) \<Rightarrow> string list \<Rightarrow> subscription_planner_config \<Rightarrow> (nat \<Rightarrow> bool)
      \<Rightarrow> u64 \<Rightarrow> (ws_event \<times> bool) list \<Rightarrow> ws_session \<times> session_control" where
  "connect_and_run decode desired config oks last_at events =
     (let initial = plan_subscription_commands [] desired config;
          s0 = \<lparr>wss_written = [], wss_sent = [], wss_last_message_at = last_at, wss_slept_ms = []\<rparr>
      in case send_commands (zip initial (map oks [0..<length initial])) s0 of
           (s, Continue) \<Rightarrow> session_loop decode s events
         | r \<Rightarrow> r)"

section \<open>The backoff grows to its cap\<close>

definition backoff_ok :: "backoff_state \<Rightarrow> bool" where
  "backoff_ok b \<longleftrightarrow> bf_base_ms b = 1000 \<and> bf_cap_ms b = 60000 \<and> bf_jitter_ms b = 500 \<and>
     1000 \<le> unat (bf_current_ms b) \<and> unat (bf_current_ms b) \<le> 60000"

lemma unat_min_word: "unat (min a (b :: 'a::len word)) = min (unat a) (unat b)"
  by (simp add: min_def word_le_nat_alt)

lemma next_delay_facts:
  assumes "backoff_ok b" and "next_delay ns b = (d, b')"
  shows "backoff_ok b'" "unat (bf_current_ms b') = min (2 * unat (bf_current_ms b)) 60000"
    "unat (bf_current_ms b) \<le> unat d" "unat d \<le> unat (bf_current_ms b) + 500"
proof -
  let ?c = "bf_current_ms b"
  have c: "1000 \<le> unat ?c" "unat ?c \<le> 60000" and cfg: "bf_cap_ms b = 60000" "bf_jitter_ms b = 500"
    "bf_base_ms b = 1000" using assms(1) by (simp_all add: backoff_ok_def)
  have jit: "unat (rand_jitter ns 500) \<le> 500"
    by (simp add: rand_jitter_def unat_mod)
  have d: "d = ?c + rand_jitter ns 500" and b': "b' = b\<lparr>bf_current_ms := min (?c * 2) 60000\<rparr>"
    using assms(2) cfg by (simp_all add: next_delay_def Let_def)
  have "unat (?c * 2) = 2 * unat ?c" using c by (simp add: unat_word_ariths)
  then show cur: "unat (bf_current_ms b') = min (2 * unat ?c) 60000" unfolding b' by (simp add: unat_min_word)
  have "unat d = unat ?c + unat (rand_jitter ns 500)" unfolding d using c jit by (simp add: unat_word_ariths)
  with jit show "unat ?c \<le> unat d" "unat d \<le> unat ?c + 500" by simp_all
  show "backoff_ok b'" using cur c cfg b' by (simp add: backoff_ok_def)
qed

lemma backoff_ok_new: "backoff_ok backoff_new"
  by (simp add: backoff_ok_def backoff_new_def)

lemma backoff_ok_reset: "backoff_ok b \<Longrightarrow> backoff_ok (backoff_reset b)"
  by (simp add: backoff_ok_def backoff_reset_def)

lemma run_step_reconnect:
  assumes "\<not> rn_first_connect st" and "\<not> ri_shutdown i" and "backoff_ok (rn_backoff st)"
  obtains st' d where "run_step st i = (st', True)" "\<not> rn_first_connect st'" "backoff_ok (rn_backoff st')"
    "rn_reconnect_count st' = rn_reconnect_count st + 1"
    "rn_sent st' = rn_sent st @ [WsReconnected \<lparr>re_sequence = rn_reconnect_count st + 1, re_timestamp_ms = ri_now_ms i\<rparr>]"
    "rn_delays st' = rn_delays st @ [d]" "1000 \<le> unat d" "unat d \<le> 60500"
    "ri_end i = ConnectionError \<longrightarrow> unat (bf_current_ms (rn_backoff st)) \<le> unat d \<and>
       unat d \<le> unat (bf_current_ms (rn_backoff st)) + 500 \<and>
       unat (bf_current_ms (rn_backoff st')) = min (2 * unat (bf_current_ms (rn_backoff st))) 60000"
proof -
  define b where "b = (case ri_end i of ClosedCleanly \<Rightarrow> backoff_reset (rn_backoff st) | ConnectionError \<Rightarrow> rn_backoff st)"
  have ok: "backoff_ok b" using assms(3) by (simp add: b_def backoff_ok_reset split: connection_end.split)
  obtain d b' where nd: "next_delay (ri_subsec_nanos i) b = (d, b')" by fastforce
  note facts = next_delay_facts [OF ok nd]
  have bounds: "1000 \<le> unat d" "unat d \<le> 60500" using ok facts by (simp_all add: backoff_ok_def)
  define st' where "st' = st\<lparr>rn_reconnect_count := rn_reconnect_count st + 1,
      rn_sent := rn_sent st @ [WsReconnected \<lparr>re_sequence = rn_reconnect_count st + 1, re_timestamp_ms = ri_now_ms i\<rparr>],
      rn_delays := rn_delays st @ [d], rn_backoff := b'\<rparr>"
  have step: "run_step st i = (st', True)"
    using assms(1,2) nd by (cases "ri_end i") (simp_all add: run_step_def Let_def b_def st'_def)
  show thesis
    by (rule that [OF step _ _ _ _ _ bounds])
      (use facts assms(1) in \<open>auto simp: st'_def b_def\<close>)
qed

lemma run_loop_reconnects:
  assumes "list_all (\<lambda>i. \<not> ri_shutdown i) is" and "\<not> rn_first_connect st" and "backoff_ok (rn_backoff st)"
  shows "\<exists>ds. rn_sent (run_loop st is) = rn_sent st @
      map (\<lambda>(k, i). WsReconnected \<lparr>re_sequence = rn_reconnect_count st + of_nat (Suc k), re_timestamp_ms = ri_now_ms i\<rparr>)
        (enumerate 0 is) \<and>
    rn_delays (run_loop st is) = rn_delays st @ ds \<and> length ds = length is \<and>
    list_all (\<lambda>d. 1000 \<le> unat d \<and> unat d \<le> 60500) ds"
  using assms
proof (induction "is" arbitrary: st)
  case (Cons i ins)
  from Cons.prems have "\<not> ri_shutdown i" by simp
  from run_step_reconnect [OF Cons.prems(2) this Cons.prems(3)] obtain st' d where
    st': "run_step st i = (st', True)" "\<not> rn_first_connect st'" "backoff_ok (rn_backoff st')"
      "rn_reconnect_count st' = rn_reconnect_count st + 1"
      "rn_sent st' = rn_sent st @ [WsReconnected \<lparr>re_sequence = rn_reconnect_count st + 1, re_timestamp_ms = ri_now_ms i\<rparr>]"
      "rn_delays st' = rn_delays st @ [d]" "1000 \<le> unat d" "unat d \<le> 60500" by metis
  have shift: "map (\<lambda>(k, i). WsReconnected \<lparr>re_sequence = rn_reconnect_count st + of_nat (Suc k), re_timestamp_ms = ri_now_ms i\<rparr>)
        (enumerate (Suc 0) ins) =
      map (\<lambda>(k, i). WsReconnected \<lparr>re_sequence = rn_reconnect_count st + 1 + of_nat (Suc k), re_timestamp_ms = ri_now_ms i\<rparr>)
        (enumerate 0 ins)"
    by (simp add: enumerate_Suc_eq comp_def case_prod_beta algebra_simps)
  from Cons.IH [OF _ st'(2,3)] Cons.prems(1) obtain ds where
    "rn_sent (run_loop st' ins) = rn_sent st' @
      map (\<lambda>(k, i). WsReconnected \<lparr>re_sequence = rn_reconnect_count st' + of_nat (Suc k), re_timestamp_ms = ri_now_ms i\<rparr>)
        (enumerate 0 ins)"
    "rn_delays (run_loop st' ins) = rn_delays st' @ ds" "length ds = length ins"
    "list_all (\<lambda>d. 1000 \<le> unat d \<and> unat d \<le> 60500) ds" by auto
  with st' shift show ?case by (intro exI [of _ "d # ds"]) (simp add: add.commute add.left_commute)
qed simp


definition sample_input :: "connection_end \<Rightarrow> run_input" where
  "sample_input e = \<lparr>ri_end = e, ri_shutdown = False, ri_now_ms = 7, ri_subsec_nanos = 3\<rparr>"


lemma run_loop_backoff:
  assumes "list_all (\<lambda>i. \<not> ri_shutdown i \<and> ri_end i = ConnectionError) is"
    and "\<not> rn_first_connect st" and "backoff_ok (rn_backoff st)" and "k < length is"
  shows "\<exists>ds. rn_delays (run_loop st is) = rn_delays st @ ds \<and> k < length ds \<and>
    min (2 ^ k * unat (bf_current_ms (rn_backoff st))) 60000 \<le> unat (ds ! k) \<and>
    unat (ds ! k) \<le> min (2 ^ k * unat (bf_current_ms (rn_backoff st))) 60000 + 500"
  using assms
proof (induction "is" arbitrary: st k)
  case (Cons i ins)
  from Cons.prems have sh: "\<not> ri_shutdown i" and err: "ri_end i = ConnectionError" by simp_all
  from run_step_reconnect [OF Cons.prems(2) sh Cons.prems(3)] err obtain st' d where
    st': "run_step st i = (st', True)" "\<not> rn_first_connect st'" "backoff_ok (rn_backoff st')"
      "rn_delays st' = rn_delays st @ [d]" and d: "unat (bf_current_ms (rn_backoff st)) \<le> unat d"
      "unat d \<le> unat (bf_current_ms (rn_backoff st)) + 500"
      "unat (bf_current_ms (rn_backoff st')) = min (2 * unat (bf_current_ms (rn_backoff st))) 60000" by metis
  have cur: "unat (bf_current_ms (rn_backoff st)) \<le> 60000" using Cons.prems(3) by (simp add: backoff_ok_def)
  show ?case
  proof (cases k)
    case 0
    from run_loop_reconnects [of ins st'] Cons.prems(1) st' obtain ds where
      "rn_delays (run_loop st' ins) = rn_delays st' @ ds" by (auto simp: list_all_iff)
    with 0 st' d cur show ?thesis by (intro exI [of _ "d # ds"]) simp
  next
    case (Suc j)
    with Cons.prems Cons.IH [of st' j] st' obtain ds where ds:
      "rn_delays (run_loop st' ins) = rn_delays st' @ ds" "j < length ds"
      "min (2 ^ j * unat (bf_current_ms (rn_backoff st'))) 60000 \<le> unat (ds ! j)"
      "unat (ds ! j) \<le> min (2 ^ j * unat (bf_current_ms (rn_backoff st'))) 60000 + 500" by auto
    have "min (2 ^ j * min (2 * x) 60000) 60000 = min (2 ^ Suc j * x) (60000 :: nat)" for x
    proof (cases "2 * x \<le> 60000")
      case False
      moreover have "2 * x \<le> 2 ^ Suc j * x" "60000 \<le> 2 ^ j * (60000 :: nat)" by simp_all
      ultimately have "min (2 * x) 60000 = 60000" "60000 \<le> 2 ^ Suc j * x" by linarith+
      with \<open>60000 \<le> 2 ^ j * (60000 :: nat)\<close> show ?thesis by (simp only: min_absorb2)
    qed (simp add: min_def mult.assoc mult.left_commute)
    with ds d(3) Suc st' show ?thesis by (intro exI [of _ "d # ds"]) simp
  qed
qed simp

text \<open>
  While every connection fails the delay doubles up to a minute: the wait after the \<open>k + 2\<close>nd failed
  connection is the smaller of \<open>1000 * 2 ^ k\<close> and 60000 milliseconds, plus at most 500 of jitter.
\<close>

theorem backoff_doubles:
  assumes "list_all (\<lambda>i. \<not> ri_shutdown i \<and> ri_end i = ConnectionError) (i # is)" and "k < length is"
  shows "min (1000 * 2 ^ k) 60000 \<le> unat (rn_delays (run_loop run_init (i # is)) ! k) \<and>
    unat (rn_delays (run_loop run_init (i # is)) ! k) \<le> min (1000 * 2 ^ k) 60000 + 500"
proof -
  have b: "run_step run_init i = (run_init\<lparr>rn_first_connect := False\<rparr>, True)"
    using assms by (simp add: run_step_def run_init_def Let_def)
  have cur: "unat (bf_current_ms (rn_backoff run_init)) = 1000" by (simp add: run_init_def backoff_new_def)
  have loop: "run_loop run_init (i # is) = run_loop (run_init\<lparr>rn_first_connect := False\<rparr>) is"
    using b by simp
  from run_loop_backoff [of "is" "run_init\<lparr>rn_first_connect := False\<rparr>" k] assms cur show ?thesis
    unfolding loop by (auto simp: run_init_def backoff_ok_new mult.commute)
qed

theorem backoff_doubles_witness:
  "4000 \<le> unat (rn_delays (run_loop run_init [sample_input ConnectionError,
     sample_input ConnectionError, sample_input ConnectionError, sample_input ConnectionError]) ! 2)"
  using backoff_doubles [of "sample_input ConnectionError"
    "[sample_input ConnectionError, sample_input ConnectionError, sample_input ConnectionError]" 2]
  by (simp add: sample_input_def del: run_loop.simps)

section \<open>Reconfigurations converge\<close>

text \<open>The last command of a queue that names an asset.\<close>

definition last_op :: "subscription_command list \<Rightarrow> string \<Rightarrow> subscription_operation option" where
  "last_op q x = map_option sc_operation (find (\<lambda>c. x \<in> set (sc_asset_ids c)) (rev q))"

lemma find_append: "find p (xs @ ys) = (case find p xs of None \<Rightarrow> find p ys | Some x \<Rightarrow> Some x)"
  by (induction xs) auto

lemma last_op_append: "last_op (p @ q) x = or_else (last_op q x) (last_op p x)"
  by (simp add: last_op_def find_append split: option.split)

lemma last_op_Nil [simp]: "last_op [] x = None"
  by (simp add: last_op_def)

lemma server_run_last_op:
  "x \<in> server_run S q \<longleftrightarrow> (case last_op q x of None \<Rightarrow> x \<in> S | Some operation \<Rightarrow> operation = Subscribe)"
proof (induction q rule: rev_induct)
  case (snoc c q)
  have "last_op [c] x = (if x \<in> set (sc_asset_ids c) then Some (sc_operation c) else None)"
    by (simp add: last_op_def)
  with snoc show ?case
    by (cases "sc_operation c")
      (auto simp: last_op_append server_run_append server_run_Cons server_apply_def or_else_def split: option.splits)
qed simp

text \<open>A queue leads from one set of assets to another when, asset by asset, its last word is the
  asset's place in the second set and its silence means that the two sets agree.\<close>

definition leads_to :: "subscription_command list \<Rightarrow> string set \<Rightarrow> string set \<Rightarrow> bool" where
  "leads_to q A B \<longleftrightarrow> (\<forall>x. case last_op q x of
     None \<Rightarrow> x \<in> A \<longleftrightarrow> x \<in> B
   | Some operation \<Rightarrow> operation = Subscribe \<longleftrightarrow> x \<in> B)"

lemma plan_leads_to:
  "leads_to (plan_subscription_commands current desired config) (set current)
     (set (assigned_asset_ids_for_config desired config))"
proof -
  let ?q = "plan_subscription_commands current desired config"
  let ?B = "set (assigned_asset_ids_for_config desired config)"
  have "case last_op ?q x of None \<Rightarrow> x \<in> set current \<longleftrightarrow> x \<in> ?B | Some operation \<Rightarrow> operation = Subscribe \<longleftrightarrow> x \<in> ?B" for x
    using server_run_last_op [of x "set current" ?q]
    by (auto simp: plan_commands_server split: option.splits)
  then show ?thesis by (simp add: leads_to_def)
qed

lemma leads_to_trans: "leads_to p A B \<Longrightarrow> leads_to q B C \<Longrightarrow> leads_to (p @ q) A C"
  unfolding leads_to_def last_op_append
  by (intro allI) (drule spec, drule spec, auto split: option.splits)

lemma leads_to_run: "leads_to q A B \<Longrightarrow> server_run A q = B"
proof -
  assume "leads_to q A B"
  then have "x \<in> server_run A q \<longleftrightarrow> x \<in> B" for x
    by (cases "last_op q x") (auto simp: leads_to_def server_run_last_op dest!: spec [of _ x])
  then show ?thesis by blast
qed

lemma leads_to_suffix:
  assumes "leads_to (p @ q) A B"
  shows "server_run B q = B"
proof -
  have "x \<in> server_run B q \<longleftrightarrow> x \<in> B" for x
    using assms by (cases "last_op q x")
      (auto simp: leads_to_def last_op_append server_run_last_op dest!: spec [of _ x])
  then show ?thesis by blast
qed

definition reconfigure_all :: "ws_client \<Rightarrow> string list list \<Rightarrow> ws_client" where
  "reconfigure_all c runs = foldl (\<lambda>c ids. fst (ws_reconfigure_assets c ids)) c runs"

lemma reconfigure_leads_to:
  assumes "wc_control c = Some q" and "leads_to q A (set (assigned_asset_ids c))"
  shows "\<exists>q'. wc_control (fst (ws_reconfigure_assets c ids)) = Some q' \<and>
    leads_to q' A (set (assigned_asset_ids (fst (ws_reconfigure_assets c ids))))"
proof -
  let ?p = "plan_subscription_commands (bset_collect (assigned_asset_ids c)) (bset_collect ids) (wc_planner_config c)"
  have p: "leads_to ?p (set (assigned_asset_ids c))
      (set (assigned_asset_ids_for_config (bset_collect ids) (wc_planner_config c)))"
    using plan_leads_to [of "bset_collect (assigned_asset_ids c)"] by simp
  show ?thesis using assms(1) leads_to_trans [OF assms(2) p]
    by (auto simp: ws_reconfigure_assets_def Let_def assigned_asset_ids_def)
qed

lemma reconfigure_all_leads_to:
  assumes "wc_control c = Some q" and "leads_to q A (set (assigned_asset_ids c))"
  shows "\<exists>q'. wc_control (reconfigure_all c runs) = Some q' \<and>
    leads_to q' A (set (assigned_asset_ids (reconfigure_all c runs)))"
  using assms
proof (induction runs arbitrary: c q)
  case (Cons ids runs)
  from reconfigure_leads_to [OF Cons.prems, of ids] obtain q' where
    "wc_control (fst (ws_reconfigure_assets c ids)) = Some q'"
    "leads_to q' A (set (assigned_asset_ids (fst (ws_reconfigure_assets c ids))))" by blast
  from Cons.IH [OF this] show ?case by (simp add: reconfigure_all_def)
qed (simp add: reconfigure_all_def)

text \<open>
  C13. Whatever reconfigurations a running client receives, its server ends up with the assets it now
  wants: a server that follows the queued commands from the first subscriptions reaches them, and so
  does one that a new connection has just subscribed to them while any rest of the queue is pending.
\<close>

theorem reconfigurations_converge:
  "case wc_control (reconfigure_all ((ws_client_new ids config)\<lparr>wc_control := Some []\<rparr>) runs) of
     None \<Rightarrow> False
   | Some q \<Rightarrow>
       (let wanted = set (assigned_asset_ids (reconfigure_all ((ws_client_new ids config)\<lparr>wc_control := Some []\<rparr>) runs))
        in server_run (set (assigned_asset_ids (ws_client_new ids config))) q = wanted \<and>
           server_run wanted (drop k q) = wanted)"
proof -
  let ?c = "(ws_client_new ids config)\<lparr>wc_control := Some []\<rparr>"
  have "assigned_asset_ids ?c = assigned_asset_ids (ws_client_new ids config)"
    by (simp add: assigned_asset_ids_def)
  with reconfigure_all_leads_to [of ?c "[]" "set (assigned_asset_ids (ws_client_new ids config))" runs]
  obtain q where q: "wc_control (reconfigure_all ?c runs) = Some q"
    "leads_to q (set (assigned_asset_ids (ws_client_new ids config))) (set (assigned_asset_ids (reconfigure_all ?c runs)))"
    by (auto simp: leads_to_def)
  have "leads_to (take k q @ drop k q) (set (assigned_asset_ids (ws_client_new ids config)))
      (set (assigned_asset_ids (reconfigure_all ?c runs)))" using q(2) by simp
  from leads_to_suffix [OF this] leads_to_run [OF q(2)] q(1) show ?thesis by (simp add: Let_def)
qed

section \<open>Dispatch\<close>

lemma send_commands_written:
  "list_all snd cs \<Longrightarrow> snd (send_commands cs s) = Continue \<and>
   wss_written (fst (send_commands cs s)) = wss_written s @ map (FrameSubscription \<circ> fst) cs \<and>
   wss_sent (fst (send_commands cs s)) = wss_sent s"
  by (induction cs arbitrary: s)
    (auto simp: send_subscription_command_def write_frame_def)

definition subscription_frames :: "ws_frame list \<Rightarrow> subscription_command list" where
  "subscription_frames fs = List.map_filter (\<lambda>f. case f of FrameSubscription c \<Rightarrow> Some c | _ \<Rightarrow> None) fs"

lemma frames_of_commands: "subscription_frames (map FrameSubscription cs) = cs"
  by (induction cs) (simp_all add: subscription_frames_def List.map_filter_def)

text \<open>
  C26. A new connection whose writes succeed replays the subscriptions: before any event it has written
  commands after which the server has exactly the wanted assets.
\<close>

theorem connection_replays_subscriptions:
  "case connect_and_run decode desired config (\<lambda>_. True) last_at [] of
     (s, control) \<Rightarrow> control = Continue \<and> wss_sent s = [] \<and>
       server_run {} (subscription_frames (wss_written s)) = set (assigned_asset_ids_for_config desired config)"
proof -
  let ?p = "plan_subscription_commands [] desired config"
  have frames: "subscription_frames (map (FrameSubscription \<circ> fst) (zip ?p (map (\<lambda>_. True) [0..<length ?p]))) = ?p"
  proof -
    have "map fst (zip ?p (map (\<lambda>_. True) [0..<length ?p])) = ?p" by (rule map_fst_zip) simp
    then show ?thesis by (metis frames_of_commands map_map)
  qed
  have "list_all snd (zip ?p (map (\<lambda>_. True) [0..<length ?p]))"
    by (auto simp: list_all_iff set_zip)
  note written = send_commands_written [OF this, of "\<lparr>wss_written = [], wss_sent = [], wss_last_message_at = last_at, wss_slept_ms = []\<rparr>"]
  obtain s control where sc: "send_commands (zip ?p (map (\<lambda>_. True) [0..<length ?p]))
      \<lparr>wss_written = [], wss_sent = [], wss_last_message_at = last_at, wss_slept_ms = []\<rparr> = (s, control)"
    by (rule prod.exhaust)
  with written frames have "control = Continue" "wss_sent s = []" "subscription_frames (wss_written s) = ?p"
    by simp_all
  with sc show ?thesis
    by (simp add: connect_and_run_def Let_def plan_commands_server)
qed


end
