(* ===== verification/Feed.thy ===== *)
theory Feed
  imports OrderBook ReferenceStore WsClient
begin

text \<open>
  The feed manager (\<open>pm-data/src/feed.rs\<close>) and the pipeline over it (\<open>pm-data/src/pipeline.rs\<close>):
  messages are normalised by an adapter, applied to the order books and the reference store and
  published on three channels. A broadcast channel is the list of what was sent on it. The trait
  \<open>FeedAdapter\<close> is the locale \<open>feed_adapter\<close>.
\<close>

section \<open>Stores and outputs\<close>

record feed_stores =
  fs_order_books :: order_book_manager
  fs_reference_store :: reference_store

definition feed_stores_new :: feed_stores where
  "feed_stores_new = \<lparr>fs_order_books = Map.empty, fs_reference_store = Map.empty\<rparr>"

record feed_outputs =
  fo_updates :: "normalized_update list"
  fo_notices :: "update_notice list"
  fo_snapshots :: "order_book_snapshot list"

definition feed_outputs_new :: feed_outputs where
  "feed_outputs_new = \<lparr>fo_updates = [], fo_notices = [], fo_snapshots = []\<rparr>"

datatype resolved_feed_state = ResolvedOrderBook order_book_snapshot | ResolvedReference reference_state

definition feed_resolve_notice :: "feed_stores \<Rightarrow> update_notice \<Rightarrow> resolved_feed_state option" where
  "feed_resolve_notice stores notice =
     (if un_kind notice = UKBookSnapshot \<or> un_kind notice = UKBookDelta
      then map_option ResolvedOrderBook
             (get_snapshot (fs_order_books stores) (ir_instrument_id (un_subject notice)))
      else map_option ResolvedReference
             (resolve_subject (fs_reference_store stores) (un_subject notice)))"

definition feed_clear_source :: "feed_stores \<Rightarrow> source_id \<Rightarrow> feed_stores" where
  "feed_clear_source stores source =
     stores\<lparr>fs_order_books := clear_all (fs_order_books stores),
            fs_reference_store := store_clear_source (fs_reference_store stores) source\<rparr>"

definition feed_clear_asset :: "feed_stores \<Rightarrow> source_id \<Rightarrow> string \<Rightarrow> feed_stores" where
  "feed_clear_asset stores source asset =
     stores\<lparr>fs_order_books := clear_asset (fs_order_books stores) asset,
            fs_reference_store := clear_instrument (fs_reference_store stores) source KindAsset asset\<rparr>"

section \<open>Applying updates\<close>

definition book_level_to_ws_level :: "book_level \<Rightarrow> ws_order_book_level" where
  "book_level_to_ws_level l = \<lparr>wl_price = bl_price l, wl_size = bl_size l\<rparr>"

definition book_of_snapshot :: "book_snapshot_update \<Rightarrow> book_update" where
  "book_of_snapshot s =
     \<lparr>bu_asset_id = bs_asset_id s, bu_market = bs_market_id s,
      bu_timestamp = show_word (bs_timestamp_ms s),
      bu_bids = map book_level_to_ws_level (bs_bids s),
      bu_asks = map book_level_to_ws_level (bs_asks s), bu_hash = bs_source_hash s\<rparr>"

definition change_of_delta :: "book_delta_update \<Rightarrow> price_change_batch_entry" where
  "change_of_delta d =
     \<lparr>pcb_asset_id = bd_asset_id d, pcb_price = bd_price d, pcb_size = Some (bd_size d),
      pcb_side = bd_side d, pcb_hash = bd_source_hash d, pcb_best_bid = bd_best_bid d,
      pcb_best_ask = bd_best_ask d\<rparr>"

definition apply_update_to_stores :: "feed_stores \<Rightarrow> normalized_update \<Rightarrow> feed_stores" where
  "apply_update_to_stores stores update =
     (case nu_payload update of
        BookSnapshot s \<Rightarrow>
          stores\<lparr>fs_order_books := apply_book_update (fs_order_books stores) (book_of_snapshot s)\<rparr>
      | BookDelta d \<Rightarrow>
          stores\<lparr>fs_order_books :=
            apply_price_change (fs_order_books stores) (change_of_delta d) (bd_timestamp_ms d)\<rparr>
      | Reconnect _ \<Rightarrow>
          stores\<lparr>fs_order_books := clear_all (fs_order_books stores),
                 fs_reference_store := store_apply_update (fs_reference_store stores) update\<rparr>
      | _ \<Rightarrow> stores\<lparr>fs_reference_store := store_apply_update (fs_reference_store stores) update\<rparr>)"

definition snapshot_from_update :: "feed_stores \<Rightarrow> normalized_update \<Rightarrow> order_book_snapshot option" where
  "snapshot_from_update stores update =
     (case nu_payload update of
        BookSnapshot s \<Rightarrow> get_snapshot (fs_order_books stores) (bs_asset_id s)
      | BookDelta d \<Rightarrow> get_snapshot (fs_order_books stores) (bd_asset_id d)
      | _ \<Rightarrow> None)"

definition publish :: "feed_stores \<times> feed_outputs \<Rightarrow> normalized_update \<Rightarrow> feed_stores \<times> feed_outputs" where
  "publish so update =
     (let stores = apply_update_to_stores (fst so) update;
          out = (snd so)\<lparr>fo_updates := fo_updates (snd so) @ [update],
                         fo_notices := fo_notices (snd so) @ [nu_notice update]\<rparr>
      in (stores, case snapshot_from_update stores update of
            None \<Rightarrow> out
          | Some snap \<Rightarrow> out\<lparr>fo_snapshots := fo_snapshots out @ [snap]\<rparr>))"

definition process_adapter_message ::
    "('m \<Rightarrow> normalized_update list) \<Rightarrow> 'm \<Rightarrow> feed_stores \<Rightarrow> feed_outputs
      \<Rightarrow> (feed_stores \<times> feed_outputs) \<times> nat" where
  "process_adapter_message normalise message stores outputs =
     (let updates = normalise message
      in (foldl publish (stores, outputs) updates, length updates))"

section \<open>The Polymarket adapter\<close>

definition scope_update_to_source ::
    "normalized_update \<Rightarrow> source_id \<Rightarrow> source_kind \<Rightarrow> normalized_update" where
  "scope_update_to_source update source kind =
     update\<lparr>nu_notice := (nu_notice update)
       \<lparr>un_source_id := source, un_source_kind := kind,
        un_subject := (un_subject (nu_notice update))\<lparr>ir_source_id := source\<rparr>\<rparr>\<rparr>"

definition scoped_normalize :: "source_id \<Rightarrow> ws_message \<Rightarrow> normalized_update list" where
  "scoped_normalize source message =
     map (\<lambda>u. scope_update_to_source u source PolymarketWs) (to_normalized_updates message)"

section \<open>The manager\<close>

record polymarket_feed_manager =
  fm_source_id :: source_id
  fm_asset_ids :: "string list"
  fm_subscription_planner :: subscription_planner_config
  fm_ws_client :: ws_client
  fm_stores :: feed_stores
  fm_outputs :: feed_outputs

definition with_subscription_planner ::
    "source_id \<Rightarrow> string list \<Rightarrow> subscription_planner_config \<Rightarrow> polymarket_feed_manager" where
  "with_subscription_planner source ids planner =
     (let desired = bset_collect ids
      in \<lparr>fm_source_id = source, fm_asset_ids = assigned_asset_ids_for_config desired planner,
          fm_subscription_planner = planner, fm_ws_client = ws_client_new desired planner,
          fm_stores = feed_stores_new, fm_outputs = feed_outputs_new\<rparr>)"

definition feed_manager_new :: "source_id \<Rightarrow> string list \<Rightarrow> polymarket_feed_manager" where
  "feed_manager_new source ids = with_subscription_planner source ids default_planner_config"

definition shared_with_subscription_planner ::
    "string list \<Rightarrow> subscription_planner_config \<Rightarrow> polymarket_feed_manager" where
  "shared_with_subscription_planner ids planner = with_subscription_planner public_source_id ids planner"

definition feed_manager_shared :: "string list \<Rightarrow> polymarket_feed_manager" where
  "feed_manager_shared ids = shared_with_subscription_planner ids default_planner_config"

definition process_message ::
    "polymarket_feed_manager \<Rightarrow> ws_message \<Rightarrow> polymarket_feed_manager \<times> nat" where
  "process_message m message =
     (case process_adapter_message (scoped_normalize (fm_source_id m)) message (fm_stores m) (fm_outputs m) of
        ((stores, outputs), n) \<Rightarrow> (m\<lparr>fm_stores := stores, fm_outputs := outputs\<rparr>, n))"

definition feed_reconfigure_assets ::
    "polymarket_feed_manager \<Rightarrow> string list \<Rightarrow> polymarket_feed_manager \<times> bool" where
  "feed_reconfigure_assets m ids =
     (let desired = bset_collect ids;
          current = bset_collect (fm_asset_ids m);
          next_ids = assigned_asset_ids_for_config desired (fm_subscription_planner m);
          next_set = bset_collect next_ids
      in if current = next_set then (m, False)
         else
           let diff = plan_subscription_diff current next_set;
               stores = foldl (\<lambda>st a. feed_clear_asset st (fm_source_id m) a) (fm_stores m) (sd_removes diff)
           in (m\<lparr>fm_stores := stores, fm_asset_ids := next_ids,
                 fm_ws_client := fst (ws_reconfigure_assets (fm_ws_client m) desired)\<rparr>, True))"

text \<open>The task that \<open>run\<close> spawns: one message after the other; what the receiver lost to lag is
  skipped.\<close>

datatype recv_result = Received ws_message | Lagged | ChannelClosed

fun feed_process_loop :: "polymarket_feed_manager \<Rightarrow> recv_result list \<Rightarrow> polymarket_feed_manager" where
  "feed_process_loop m [] = m"
| "feed_process_loop m (r # rs) =
     (case r of
        Received msg \<Rightarrow> feed_process_loop (fst (process_message m msg)) rs
      | Lagged \<Rightarrow> feed_process_loop m rs
      | ChannelClosed \<Rightarrow> m)"

section \<open>The pipeline\<close>

text \<open>The executable's view of a feed manager; every operation is the manager's.\<close>

record pipeline =
  pipe_feed_manager :: polymarket_feed_manager

definition pipeline_new :: "string list \<Rightarrow> pipeline" where
  "pipeline_new ids = \<lparr>pipe_feed_manager = feed_manager_shared ids\<rparr>"

definition pipeline_order_books :: "pipeline \<Rightarrow> order_book_manager" where
  "pipeline_order_books p = fs_order_books (fm_stores (pipe_feed_manager p))"

definition pipeline_reference_store :: "pipeline \<Rightarrow> reference_store" where
  "pipeline_reference_store p = fs_reference_store (fm_stores (pipe_feed_manager p))"

definition pipeline_process_message :: "pipeline \<Rightarrow> ws_message \<Rightarrow> pipeline \<times> nat" where
  "pipeline_process_message p message =
     (case process_message (pipe_feed_manager p) message of (m, n) \<Rightarrow> (p\<lparr>pipe_feed_manager := m\<rparr>, n))"

definition pipeline_reconfigure_assets :: "pipeline \<Rightarrow> string list \<Rightarrow> pipeline \<times> bool" where
  "pipeline_reconfigure_assets p ids =
     (case feed_reconfigure_assets (pipe_feed_manager p) ids of (m, changed) \<Rightarrow> (p\<lparr>pipe_feed_manager := m\<rparr>, changed))"

definition pipeline_run :: "pipeline \<Rightarrow> recv_result list \<Rightarrow> pipeline" where
  "pipeline_run p rs = p\<lparr>pipe_feed_manager := feed_process_loop (pipe_feed_manager p) rs\<rparr>"

section \<open>The contract of an adapter\<close>

locale feed_adapter =
  fixes source_id :: source_id
    and source_kind :: source_kind
    and normalise :: "'m \<Rightarrow> normalized_update list"
  assumes normalise_consistent: "list_all (notice_consistent source_id source_kind) (normalise m)"
begin

lemma outputs_fold:
  "fo_updates (snd (foldl publish so us)) = fo_updates (snd so) @ us"
  "fo_notices (snd (foldl publish so us)) = fo_notices (snd so) @ map nu_notice us"
  by (induction us arbitrary: so) (auto simp: publish_def Let_def split: option.split)

lemma processed_outputs:
  assumes "process_adapter_message normalise m stores outputs = ((stores', outputs'), n)"
  shows "fo_updates outputs' = fo_updates outputs @ normalise m"
    "fo_notices outputs' = fo_notices outputs @ map nu_notice (normalise m)"
    "n = length (normalise m)"
  using assms outputs_fold [of "(stores, outputs)" "normalise m"]
  by (simp_all add: process_adapter_message_def Let_def)

lemma update_of_message:
  assumes "u \<in> set (normalise m)"
  shows "un_source_id (nu_notice u) = source_id" "un_kind (nu_notice u) = payload_kind (nu_payload u)"
    "payload_book_asset (nu_payload u) = Some a \<Longrightarrow> un_subject (nu_notice u) = instrument_asset source_id a"
  using normalise_consistent [of m] assms by (auto simp: list_all_iff notice_consistent_def)

text \<open>Right after an update its own notice resolves.\<close>

lemma published_resolves:
  assumes "u \<in> set (normalise m)"
  shows "feed_resolve_notice (apply_update_to_stores stores u) (nu_notice u) \<noteq> None"
proof (cases "nu_payload u")
  case (BookSnapshot s)
  with update_of_message(2) [OF assms] update_of_message(3) [OF assms, of "bs_asset_id s"] show ?thesis
    by (simp add: feed_resolve_notice_def payload_kind_def payload_book_asset_def instrument_asset_def
        apply_update_to_stores_def get_snapshot_def apply_book_update_def book_of_snapshot_def)
next
  case (BookDelta d)
  with update_of_message(2) [OF assms] update_of_message(3) [OF assms, of "bd_asset_id d"] show ?thesis
    by (simp add: feed_resolve_notice_def payload_kind_def payload_book_asset_def instrument_asset_def
        apply_update_to_stores_def get_snapshot_def apply_price_change_def change_of_delta_def)
qed (use update_of_message(2) [OF assms] in
    \<open>simp_all add: feed_resolve_notice_def payload_kind_def apply_update_to_stores_def resolve_after_apply\<close>)

end

lemma scoped_consistent:
  "notice_consistent s k u \<Longrightarrow> notice_consistent source kind (scope_update_to_source u source kind)"
  by (auto simp: notice_consistent_def scope_update_to_source_def instrument_asset_def split: option.splits)

interpretation scoped: feed_adapter source PolymarketWs "scoped_normalize source" for source
proof
  show "list_all (notice_consistent source PolymarketWs) (scoped_normalize source m)" for m
    using normalized_consistent [of m] by (auto simp: scoped_normalize_def list_all_iff intro: scoped_consistent)
qed

section \<open>The books are the messages' books\<close>

lemma book_of_normalized [simp]:
  "book_level_to_ws_level (normalize_level l) = l"
  by (simp add: book_level_to_ws_level_def normalize_level_def)

lemma apply_book_update_normalized:
  "apply_book_update books (book_of_snapshot
     \<lparr>bs_market_id = bu_market b, bs_asset_id = bu_asset_id b, bs_bids = map normalize_level (bu_bids b),
      bs_asks = map normalize_level (bu_asks b), bs_timestamp_ms = parse_timestamp_ms (bu_timestamp b),
      bs_source_hash = bu_hash b\<rparr>) = apply_book_update books b"
  by (simp add: apply_book_update_def book_of_snapshot_def apply_snapshot_def comp_def
      parse_timestamp_ms_def)

definition direct_books :: "order_book_manager \<Rightarrow> ws_message \<Rightarrow> order_book_manager" where
  "direct_books books msg =
     (case msg of
        WsBook b \<Rightarrow> apply_book_update books b
      | WsPriceChange pc \<Rightarrow>
          foldl (\<lambda>bs e. apply_price_change bs e (parse_timestamp_ms (pce_timestamp pc))) books
            (pce_price_changes pc)
      | WsReconnected _ \<Rightarrow> clear_all books
      | _ \<Rightarrow> books)"

lemma scoped_payload [simp]: "nu_payload (scope_update_to_source u s k) = nu_payload u"
  by (simp add: scope_update_to_source_def)

lemma publish_stores [simp]: "fst (publish so u) = apply_update_to_stores (fst so) u"
  by (simp add: publish_def Let_def)

lemma fold_publish_stores: "fst (foldl publish so us) = foldl apply_update_to_stores (fst so) us"
  by (induction us arbitrary: so) simp_all

lemma price_change_books:
  "fs_order_books (foldl apply_update_to_stores st
     (map (\<lambda>u. scope_update_to_source u s k) (map (normalize_entry p mk ts) es))) =
   foldl (\<lambda>bs e. apply_price_change bs e ts) (fs_order_books st) es"
proof (induction es arbitrary: st)
  case (Cons e es)
  have change: "apply_price_change books (change_of_delta
      \<lparr>bd_market_id = mk, bd_asset_id = pcb_asset_id e, bd_price = pcb_price e,
         bd_size = unwrap_or ''0'' (pcb_size e), bd_side = pcb_side e, bd_timestamp_ms = ts,
         bd_best_bid = pcb_best_bid e, bd_best_ask = pcb_best_ask e, bd_source_hash = pcb_hash e\<rparr>) ts =
      apply_price_change books e ts" for books
    by (cases "pcb_side e") (simp_all add: apply_price_change_def change_of_delta_def apply_delta_def Let_def)
  show ?case
    using Cons.IH by (simp add: apply_update_to_stores_def normalize_entry_def change)
qed simp

lemma process_stores:
  "fm_stores (fst (process_message m msg)) =
     foldl apply_update_to_stores (fm_stores m) (scoped_normalize (fm_source_id m) msg)"
  using fold_publish_stores [of "(fm_stores m, fm_outputs m)" "scoped_normalize (fm_source_id m) msg"]
  by (simp add: process_message_def process_adapter_message_def Let_def case_prod_beta)

text \<open>
  C11. The detour through normalised updates loses nothing of the books: after a message the manager's
  order books are what applying the raw message to them gives, and a reconnection empties them.
\<close>

theorem feed_books_are_direct:
  "fs_order_books (fm_stores (fst (process_message m msg))) = direct_books (fs_order_books (fm_stores m)) msg"
proof -
  have "fs_order_books (fm_stores (fst (process_message m msg))) =
      fs_order_books (foldl apply_update_to_stores (fm_stores m) (scoped_normalize (fm_source_id m) msg))"
    by (simp add: process_stores)
  also have "\<dots> = direct_books (fs_order_books (fm_stores m)) msg"
  proof (cases msg)
    case (WsPriceChange pc)
    then show ?thesis
      using price_change_books by (simp add: scoped_normalize_def to_normalized_updates_def direct_books_def Let_def)
  qed (simp_all add: scoped_normalize_def to_normalized_updates_def Let_def apply_update_to_stores_def
      direct_books_def normalize_book_def apply_book_update_normalized)
  finally show ?thesis .
qed

text \<open>
  C28. Every update of a message is published: the update and notice channels receive, in order, the
  normalised updates and their notices, each notice names the manager's source, the update's kind and
  asset, resolves in the stores right after its update, and the call returns their number.
\<close>

theorem feed_publishes_updates:
  "case process_message m msg of (m', n) \<Rightarrow>
     fo_updates (fm_outputs m') = fo_updates (fm_outputs m) @ scoped_normalize (fm_source_id m) msg \<and>
     fo_notices (fm_outputs m') = fo_notices (fm_outputs m) @ map nu_notice (scoped_normalize (fm_source_id m) msg) \<and>
     n = length (scoped_normalize (fm_source_id m) msg) \<and>
     list_all (\<lambda>u. notice_consistent (fm_source_id m) PolymarketWs u \<and>
       feed_resolve_notice (apply_update_to_stores stores u) (nu_notice u) \<noteq> None)
       (scoped_normalize (fm_source_id m) msg)"
proof -
  obtain st out n where p: "process_adapter_message (scoped_normalize (fm_source_id m)) msg (fm_stores m) (fm_outputs m)
      = ((st, out), n)" by (metis prod.exhaust)
  from scoped.processed_outputs [OF p] scoped.normalise_consistent [of "fm_source_id m" msg]
    scoped.published_resolves [of _ "fm_source_id m" msg stores]
  show ?thesis by (auto simp: process_message_def p list_all_iff)
qed

section \<open>Reconfiguration\<close>

lemma clear_assets_fold:
  "fs_order_books (foldl (\<lambda>st a. feed_clear_asset st s a) st as) x =
     (if x \<in> set as then None else fs_order_books st x)"
  "resolve_subject (fs_reference_store (foldl (\<lambda>st a. feed_clear_asset st s a) st as)) (instrument_asset s x) =
     (if x \<in> set as then None else resolve_subject (fs_reference_store st) (instrument_asset s x))"
  by (induction as arbitrary: st)
    (simp_all add: feed_clear_asset_def clear_asset_def resolve_after_clear_instrument instrument_asset_def)

text \<open>
  Reconfiguring a feed drops the assets it no longer watches and only those: it reports a change
  exactly when the watched set changes, then watches this shard's share of the new assets, an asset no
  longer watched has neither a book nor a reference state, and every other asset keeps both.
\<close>

theorem feed_reconfigure_drops_removed:
  "case feed_reconfigure_assets m ids of (m', changed) \<Rightarrow>
     set (fm_asset_ids m') = set (assigned_asset_ids_for_config (bset_collect ids) (fm_subscription_planner m)) \<and>
     (changed \<longleftrightarrow> set (fm_asset_ids m) \<noteq> set (fm_asset_ids m')) \<and>
     get_snapshot (fs_order_books (fm_stores m')) a =
       (if a \<in> set (fm_asset_ids m) - set (fm_asset_ids m') then None
        else get_snapshot (fs_order_books (fm_stores m)) a) \<and>
     resolve_subject (fs_reference_store (fm_stores m')) (instrument_asset (fm_source_id m) a) =
       (if a \<in> set (fm_asset_ids m) - set (fm_asset_ids m') then None
        else resolve_subject (fs_reference_store (fm_stores m)) (instrument_asset (fm_source_id m) a))"
proof -
  let ?next = "assigned_asset_ids_for_config (bset_collect ids) (fm_subscription_planner m)"
  show ?thesis
  proof (cases "set (fm_asset_ids m) = set ?next")
    case True
    then have "feed_reconfigure_assets m ids = (m, False)"
      by (simp add: feed_reconfigure_assets_def Let_def bset_collect_eq_iff)
    with True show ?thesis by simp
  next
    case False
    then show ?thesis
      by (simp add: feed_reconfigure_assets_def Let_def bset_collect_eq_iff clear_assets_fold plan_subscription_diff_def get_snapshot_def)
  qed
qed

text \<open>
  A reconnection empties the books and nothing else: the reference states of the assets stay.
\<close>

lemma reconnect_keeps_references:
  assumes "s \<noteq> instrument_source (fm_source_id m)"
  shows "resolve_subject (fs_reference_store (fm_stores (fst (process_message m (WsReconnected e))))) s =
    resolve_subject (fs_reference_store (fm_stores m)) s"
  using assms
  by (simp add: process_stores scoped_normalize_def to_normalized_updates_def
      Let_def apply_update_to_stores_def resolve_after_apply scope_update_to_source_def
      instrument_source_def)

end
