(* ===== verification/FeedBooks.thy ===== *)
theory FeedBooks
  imports Feed "HOL-Library.Sublist"
begin

text \<open>
  What the books of a feed manager are of the messages it received (\<open>pm-data/src/feed.rs\<close>, \<open>orderbook.rs\<close>): each message and
  each normalised update stands for operations on the abstract books, and every published snapshot shows the
  book that some of the first operations make.
\<close>

section \<open>The book operations of messages and updates\<close>

definition message_ops :: "ws_message \<Rightarrow> book_op list" where
  "message_ops msg =
     (case msg of
        WsBook b \<Rightarrow> [OpBook b]
      | WsPriceChange pc \<Rightarrow>
          map (\<lambda>e. OpChange e (parse_timestamp_ms (pce_timestamp pc))) (pce_price_changes pc)
      | WsReconnected _ \<Rightarrow> [OpClearAll]
      | _ \<Rightarrow> [])"

definition update_ops :: "normalized_update \<Rightarrow> book_op list" where
  "update_ops u =
     (case nu_payload u of
        BookSnapshot s \<Rightarrow> [OpBook (book_of_snapshot s)]
      | BookDelta d \<Rightarrow> [OpChange (change_of_delta d) (bd_timestamp_ms d)]
      | normalized_update_payload.Reconnect _ \<Rightarrow> [OpClearAll]
      | _ \<Rightarrow> [])"

text \<open>The messages that the processing task takes from its channel.\<close>

fun received_messages :: "recv_result list \<Rightarrow> ws_message list" where
  "received_messages [] = []"
| "received_messages (Received msg # rs) = msg # received_messages rs"
| "received_messages (Lagged # rs) = received_messages rs"
| "received_messages (ChannelClosed # rs) = []"

definition feed_book_ops :: "recv_result list \<Rightarrow> book_op list" where
  "feed_book_ops rs = concat (map message_ops (received_messages rs))"

text \<open>Two operations are the same when they act alike on all books.\<close>

definition effects :: "book_op list \<Rightarrow> (order_book_manager \<Rightarrow> order_book_manager) list" where
  "effects ops = map (\<lambda>opr books. book_step books opr) ops"

lemma effects_simps [simp]:
  "effects [] = []" "effects (opr # ops) = (\<lambda>books. book_step books opr) # effects ops"
  "effects (ops @ ops') = effects ops @ effects ops'"
  by (simp_all add: effects_def)

lemma run_effects: "foldl (\<lambda>books f. f books) books (effects ops) = foldl book_step books ops"
  by (induction ops arbitrary: books) simp_all

lemma effects_fold: "effects ops = effects ops' \<Longrightarrow> foldl book_step books ops = foldl book_step books ops'"
  by (metis run_effects)

lemma effects_prefix:
  assumes "effects ops = effects ops'" and "prefix part ops"
  obtains part' where "prefix part' ops'" "foldl book_step books part = foldl book_step books part'"
proof
  from assms(2) obtain rest where "ops = part @ rest" by (auto simp: prefix_def)
  then have "effects part = take (length part) (effects ops)" by (simp add: effects_def)
  also have "\<dots> = effects (take (length part) ops')" by (simp only: assms(1)) (simp add: effects_def take_map)
  finally show "foldl book_step books part = foldl book_step books (take (length part) ops')"
    by (rule effects_fold)
  show "prefix (take (length part) ops') ops'" by (rule take_is_prefix)
qed

lemma update_books:
  "fs_order_books (apply_update_to_stores st u) = foldl book_step (fs_order_books st) (update_ops u)"
  by (simp add: apply_update_to_stores_def update_ops_def book_step_def split: normalized_update_payload.split)

lemma fold_update_books:
  "fs_order_books (foldl apply_update_to_stores st us) =
     foldl book_step (fs_order_books st) (concat (map update_ops us))"
  by (induction us arbitrary: st) (simp_all add: update_books)

lemma entry_effect:
  "effects (update_ops (scope_update_to_source (normalize_entry p mk ts e) s k)) = effects [OpChange e ts]"
  by (cases "pcb_side e")
    (simp_all add: update_ops_def normalize_entry_def book_step_def apply_price_change_def change_of_delta_def
      apply_delta_def Let_def fun_eq_iff)

lemma entries_effect:
  "effects (concat (map (\<lambda>u. update_ops (scope_update_to_source u s k)) (map (normalize_entry p mk ts) es))) =
     effects (map (\<lambda>e. OpChange e ts) es)"
  by (induction es) (use entry_effect in simp_all)

lemma message_effect: "effects (concat (map update_ops (scoped_normalize s msg))) = effects (message_ops msg)"
proof (cases msg)
  case (WsPriceChange pc)
  then show ?thesis
    using entries_effect by (simp add: scoped_normalize_def to_normalized_updates_def message_ops_def Let_def comp_def)
qed (simp_all add: scoped_normalize_def to_normalized_updates_def message_ops_def update_ops_def Let_def
    book_step_def normalize_book_def apply_book_update_normalized)

section \<open>Every published snapshot shows a book of the messages\<close>

lemma published_snapshot:
  assumes "snap \<in> set (fo_snapshots (snd (publish so u)))"
  shows "snap \<in> set (fo_snapshots (snd so)) \<or>
    (\<exists>a. get_snapshot (fs_order_books (apply_update_to_stores (fst so) u)) a = Some snap)"
  using assms
  by (auto simp: publish_def Let_def snapshot_from_update_def split: option.splits normalized_update_payload.splits)

lemma published_snapshots:
  assumes "snap \<in> set (fo_snapshots (snd (foldl publish so us)))"
  shows "snap \<in> set (fo_snapshots (snd so)) \<or>
    (\<exists>part a. prefix part (concat (map update_ops us)) \<and>
       get_snapshot (foldl book_step (fs_order_books (fst so)) part) a = Some snap)"
  using assms
proof (induction us arbitrary: so)
  case (Cons u us)
  from Cons.IH [of "publish so u"] Cons.prems consider
      (before) "snap \<in> set (fo_snapshots (snd (publish so u)))"
    | (later) part a where "prefix part (concat (map update_ops us))"
        "get_snapshot (foldl book_step (fs_order_books (fst (publish so u))) part) a = Some snap"
    by auto
  then show ?case
  proof cases
    case before
    from published_snapshot [OF this] show ?thesis
      unfolding update_books by (auto intro!: exI [of _ "update_ops u"])
  next
    case later
    then have "prefix (update_ops u @ part) (concat (map update_ops (u # us)))"
        "get_snapshot (foldl book_step (fs_order_books (fst so)) (update_ops u @ part)) a = Some snap"
      by (simp_all add: update_books)
    then show ?thesis by blast
  qed
qed simp

definition shows_books :: "book_op list \<Rightarrow> polymarket_feed_manager \<Rightarrow> bool" where
  "shows_books ops m \<longleftrightarrow> fs_order_books (fm_stores m) = book_run ops \<and>
     (\<forall>snap \<in> set (fo_snapshots (fm_outputs m)). \<exists>part a. prefix part ops \<and> get_snapshot (book_run part) a = Some snap)"

lemma process_shows_books:
  assumes "shows_books ops m"
  shows "shows_books (ops @ message_ops msg) (fst (process_message m msg))"
proof -
  let ?us = "scoped_normalize (fm_source_id m) msg"
  let ?m = "fst (process_message m msg)"
  have stores: "fs_order_books (fm_stores ?m) = book_run (ops @ message_ops msg)"
    using assms effects_fold [OF message_effect]
    by (simp add: process_stores fold_update_books shows_books_def book_run_def)
  moreover have "\<exists>part a. prefix part (ops @ message_ops msg) \<and> get_snapshot (book_run part) a = Some snap"
    if "snap \<in> set (fo_snapshots (fm_outputs ?m))" for snap
  proof -
    from that have "snap \<in> set (fo_snapshots (snd (foldl publish (fm_stores m, fm_outputs m) ?us)))"
      by (simp add: process_message_def process_adapter_message_def Let_def case_prod_beta)
    from published_snapshots [OF this] consider
        (before) "snap \<in> set (fo_snapshots (fm_outputs m))"
      | (now) part a where "prefix part (concat (map update_ops ?us))"
          "get_snapshot (foldl book_step (fs_order_books (fm_stores m)) part) a = Some snap" by auto
    then show ?thesis
    proof cases
      case before
      with assms show ?thesis unfolding shows_books_def by (meson prefix_prefix)
    next
      case now
      obtain part' where "prefix part' (message_ops msg)"
          "foldl book_step (fs_order_books (fm_stores m)) part = foldl book_step (fs_order_books (fm_stores m)) part'"
        by (rule effects_prefix [OF message_effect now(1)])
      with now(2) assms have "prefix (ops @ part') (ops @ message_ops msg)"
          "get_snapshot (book_run (ops @ part')) a = Some snap"
        by (simp_all add: shows_books_def book_run_def)
      then show ?thesis by blast
    qed
  qed
  ultimately show ?thesis unfolding shows_books_def by blast
qed

lemma loop_shows_books:
  "shows_books ops m \<Longrightarrow> \<exists>part. prefix part (feed_book_ops rs) \<and> shows_books (ops @ part) (feed_process_loop m rs)"
proof (induction rs arbitrary: ops m rule: received_messages.induct)
  case (2 msg rs)
  from "2.IH" [OF process_shows_books [OF "2.prems"], of msg] obtain part where
      "prefix part (feed_book_ops rs)"
      "shows_books ((ops @ message_ops msg) @ part) (feed_process_loop (fst (process_message m msg)) rs)" by blast
  then show ?case
    by (intro exI [of _ "message_ops msg @ part"]) (simp add: feed_book_ops_def)
qed (auto simp: feed_book_ops_def intro: exI [of _ "[]"])

lemma feed_snapshot_refines:
  assumes "snap \<in> set (fo_snapshots (fm_outputs (feed_process_loop (feed_manager_shared ids) rs)))"
  shows "\<exists>part book. prefix part (feed_book_ops rs) \<and> abs_run part (obs_asset_id snap) = Some book \<and>
    is_best_bid (ab_bids book) (obs_best_bid snap) \<and> is_best_ask (ab_asks book) (obs_best_ask snap)"
proof -
  have "shows_books [] (feed_manager_shared ids)"
    by (simp add: shows_books_def feed_manager_shared_def shared_with_subscription_planner_def with_subscription_planner_def feed_stores_new_def
        feed_outputs_new_def book_run_def Let_def)
  from loop_shows_books [OF this, of rs] assms obtain whole part a where
      "prefix whole (feed_book_ops rs)" "prefix part whole" "get_snapshot (book_run part) a = Some snap"
    by (auto simp: shows_books_def)
  moreover from this(1,2) have "prefix part (feed_book_ops rs)" using prefix_order.trans by blast
  ultimately show ?thesis using snapshot_refines [of part a snap] by auto
qed

end
