(* ===== verification/TwoPaths.thy ===== *)
theory TwoPaths
  imports FeedBooks HotState
begin

text \<open>
  The two ways a price reaches a strategy: the snapshots of the feed's order books (\<open>pm-data/src/orderbook.rs\<close>), whose ladders
  are ordered by the price texts, and the books of the hot state store (\<open>rtt-core/src/hot_state.rs\<close>), which keeps only the
  best levels and takes them from the updates that the feed publishes. Where the exchange's quotes are
  true, the two show the same best prices.
\<close>

section \<open>The best prices of both\<close>

definition ladder_best :: "order_book_manager \<Rightarrow> string \<Rightarrow> string option \<times> string option" where
  "ladder_best books a =
     (map_option pl_price (Option.bind (get_snapshot books a) obs_best_bid),
      map_option pl_price (Option.bind (get_snapshot books a) obs_best_ask))"

definition level_price :: "hot_book_level \<Rightarrow> string" where
  "level_price l = hv_exact (hbl_price l)"

definition hot_best :: "hot_state_store \<Rightarrow> source_id \<Rightarrow> string \<Rightarrow> string option \<times> string option" where
  "hot_best st source a =
     (map_option level_price (Option.bind (book_state st source a) hb_best_bid),
      map_option level_price (Option.bind (book_state st source a) hb_best_ask))"

text \<open>
  Levels that both read alike: prices of one digit and up to six decimals, no two of them equal as numbers, and sizes
  that parse.
\<close>

definition readable_side :: "book_level list \<Rightarrow> bool" where
  "readable_side levels \<longleftrightarrow>
     list_all (\<lambda>l. canonical_price (bl_price l) \<and> last (bl_price l) \<noteq> CHR ''.'' \<and> parse_scaled (bl_size l) \<noteq> None) levels \<and>
     distinct (map (\<lambda>l. decimal_micros (bl_price l)) levels)"

text \<open>The price \<open>q\<close> is the best of a side of the abstract book, as a number: the greatest bid or the least ask.\<close>

definition numerically_best :: "bool \<Rightarrow> (string \<rightharpoonup> string) \<Rightarrow> string \<Rightarrow> bool" where
  "numerically_best take_max prices q \<longleftrightarrow>
     q \<in> dom prices \<and>
     (\<forall>p \<in> dom prices. canonical_price p \<and>
        (if take_max then the (decimal_micros p) \<le> the (decimal_micros q)
         else the (decimal_micros q) \<le> the (decimal_micros p))) \<and>
     inj_on decimal_micros (dom prices)"

text \<open>
  What the exchange promises of an update, against the abstract books after it: the best prices that it quotes are the
  best of its book, and what it writes can be read.
\<close>

definition quotes_true :: "(string \<rightharpoonup> abs_book) \<Rightarrow> normalized_update \<Rightarrow> bool" where
  "quotes_true spec u =
     (case nu_payload u of
        BookSnapshot s \<Rightarrow> readable_side (bs_bids s) \<and> readable_side (bs_asks s)
      | BookDelta d \<Rightarrow>
          (case (spec (bd_asset_id d), bd_side d, bd_best_bid d, bd_best_ask d) of
             (Some b, Buy, Some q, _) \<Rightarrow> numerically_best True (ab_bids b) q \<and> last q \<noteq> CHR ''.'' \<and> parse_scaled (bd_size d) \<noteq> None
           | (Some b, Sell, _, Some q) \<Rightarrow> numerically_best False (ab_asks b) q \<and> last q \<noteq> CHR ''.'' \<and> parse_scaled (bd_size d) \<noteq> None
           | _ \<Rightarrow> False)
      | BestBidAsk u \<Rightarrow>
          (case spec (bba_asset_id u) of
             Some b \<Rightarrow> numerically_best True (ab_bids b) (bba_best_bid u) \<and> last (bba_best_bid u) \<noteq> CHR ''.'' \<and>
               numerically_best False (ab_asks b) (bba_best_ask u) \<and> last (bba_best_ask u) \<noteq> CHR ''.''
           | None \<Rightarrow> False)
      | _ \<Rightarrow> True)"

fun exchange_truthful :: "(string \<rightharpoonup> abs_book) \<Rightarrow> normalized_update list \<Rightarrow> bool" where
  "exchange_truthful spec [] = True"
| "exchange_truthful spec (u # us) =
     (let spec = foldl abs_step spec (update_ops u) in quotes_true spec u \<and> exchange_truthful spec us)"

section \<open>The best level of a side\<close>

lemma canonical_scaled:
  assumes "canonical_price p" and "last p \<noteq> CHR ''.''"
  obtains n where "decimal_micros p = Some n" "n < 2 ^ 64" "parse_scaled p = Some (of_nat n)"
proof (rule canonical_micros [OF assms(1)])
  fix d f
  assume p: "decimal_micros p = Some (digit_val d * 10 ^ 6 + scaled_fraction 6 f)" "is_digit d"
    "all_digits f" "length f \<le> 6" "p = [d] \<and> f = [] \<or> p = d # CHR ''.'' # f"
  have shape: "p = [d] @ (if f = [] then [] else CHR ''.'' # f)" using p(5) assms(2) by auto
  have "digit_val d \<le> 9" using digit_val_less [of d] p(2) by simp
  moreover have "scaled_fraction 6 f < 10 ^ 6" using p by (intro scaled_fraction_less) auto
  ultimately have small: "digit_val d * 10 ^ 6 + scaled_fraction 6 f < 2 ^ 64" by simp
  have "parse_scaled p = Some (of_nat (digit_val d * 10 ^ 6 + scaled_fraction 6 f))"
    unfolding shape scaled_fraction_def
    using parse_scaled_digits [of "[d]" f] p small \<open>digit_val d \<le> 9\<close> by (simp add: scaled_fraction_def)
  with p(1) small that show thesis by blast
qed

lemma readable_level_units:
  assumes "readable_side levels" and "l \<in> set levels"
  obtains n x where "decimal_micros (bl_price l) = Some n" "n < 2 ^ 64"
    "make_book_level (bl_price l) (bl_size l) reg = Some x" "unat (hv_units (hbl_price x)) = n"
    "level_price x = bl_price l"
proof -
  have l: "canonical_price (bl_price l)" "last (bl_price l) \<noteq> CHR ''.''" "parse_scaled (bl_size l) \<noteq> None"
    using assms by (auto simp: readable_side_def list_all_iff)
  obtain n where n: "decimal_micros (bl_price l) = Some n" "n < 2 ^ 64" "parse_scaled (bl_price l) = Some (of_nat n)"
    by (rule canonical_scaled [OF l(1,2)])
  have "unat (of_nat n :: u64) = n" using n(2) by (intro unat_of_nat_less) simp
  with l(3) n that show thesis by (auto simp: make_book_level_def hot_value_def level_price_def)
qed

lemma best_level_by_text:
  assumes "readable_side levels" and "l \<in> set levels"
    and "\<forall>k \<in> set levels. if m then bl_price k \<le> bl_price l else bl_price l \<le> bl_price k"
  shows "map_option level_price (best_level levels m reg) = Some (bl_price l)"
proof -
  obtain n x where l: "decimal_micros (bl_price l) = Some n" "make_book_level (bl_price l) (bl_size l) reg = Some x"
      "unat (hv_units (hbl_price x)) = n"
    using readable_level_units [OF assms(1,2)] by metis
  obtain r where r: "best_level levels m reg = Some r" "\<not> better m x r"
    using best_level_extremal [OF assms(2) l(2)] by blast
  obtain k where k: "k \<in> set levels" "make_book_level (bl_price k) (bl_size k) reg = Some r"
    using best_level_member [OF r(1)] by blast
  obtain n' where k': "decimal_micros (bl_price k) = Some n'" "unat (hv_units (hbl_price r)) = n'" "level_price r = bl_price k"
    using readable_level_units [OF assms(1) k(1), of reg] k(2) by (metis option.inject)
  have canonical: "canonical_price (bl_price k)" "canonical_price (bl_price l)"
    using assms(1,2) k(1) by (auto simp: readable_side_def list_all_iff)
  have "n = n'"
  proof (cases m)
    case True
    then have "n' \<le> n" using canonical_mono [OF canonical] assms(3) k(1) k'(1) l(1) by fastforce
    moreover have "n \<le> n'" using r(2) True l(3) k'(2) by (simp add: better_def word_le_nat_alt not_less)
    ultimately show ?thesis by simp
  next
    case False
    then have "n \<le> n'" using canonical_mono [OF canonical(2,1)] assms(3) k(1) k'(1) l(1) by fastforce
    moreover have "n' \<le> n" using r(2) False l(3) k'(2) by (simp add: better_def word_le_nat_alt not_less)
    ultimately show ?thesis by simp
  qed
  moreover have "inj_on (\<lambda>l. decimal_micros (bl_price l)) (set levels)"
    using assms(1) by (simp add: readable_side_def distinct_map)
  ultimately have "k = l" using inj_onD l(1) k'(1) assms(2) k(1) by fastforce
  with r(1) k'(3) show ?thesis by simp
qed

text \<open>The numerically best level of a readable side is the one whose price is the best text.\<close>

lemma side_agrees:
  fixes levels :: "book_level list"
  assumes "readable_side levels"
  defines "ladder \<equiv> ladder_apply_levels (map book_level_to_ws_level levels)"
  shows "map_option pl_price (ladder_best_bid ladder) = map_option level_price (best_level levels True reg)"
    "map_option pl_price (ladder_best_ask ladder) = map_option level_price (best_level levels False reg)"
proof -
  let ?m = "side_of_levels (map book_level_to_ws_level levels)"
  have best: "is_best_bid ?m (ladder_best_bid ladder)" "is_best_ask ?m (ladder_best_ask ladder)"
    unfolding ladder_def using ladder_best_is_best [OF ladder_levels_refine(1)] by (simp_all add: ladder_levels_refine(2))
  have entry: "\<exists>l \<in> set levels. bl_price l = p" if "?m p = Some z" for p z
    using map_of_SomeD [OF that [unfolded side_of_levels_def]] by (auto simp: book_level_to_ws_level_def)
  have listed: "?m (bl_price l) \<noteq> None" if "l \<in> set levels" for l
    unfolding side_of_levels_def map_of_eq_None_iff
    using that by (auto simp: image_iff book_level_to_ws_level_def)
  have empty: "?m = Map.empty \<Longrightarrow> levels = []" using listed by (cases levels) auto
  show "map_option pl_price (ladder_best_bid ladder) = map_option level_price (best_level levels True reg)"
  proof (cases "ladder_best_bid ladder")
    case None
    then show ?thesis using best(1) empty by (simp add: is_best_bid_def best_level_def List.map_filter_def)
  next
    case (Some e)
    with best(1) have "?m (pl_price e) = Some (pl_size e)" by (simp add: is_best_bid_def)
    from entry [OF this] obtain l where l: "l \<in> set levels" "bl_price l = pl_price e" by blast
    moreover have "\<forall>k \<in> set levels. bl_price k \<le> bl_price l"
      using best(1) Some listed l(2) by (auto simp: is_best_bid_def)
    ultimately show ?thesis using best_level_by_text [OF assms(1) l(1), of True reg] Some by auto
  qed
  show "map_option pl_price (ladder_best_ask ladder) = map_option level_price (best_level levels False reg)"
  proof (cases "ladder_best_ask ladder")
    case None
    then show ?thesis using best(2) empty by (simp add: is_best_ask_def best_level_def List.map_filter_def)
  next
    case (Some e)
    with best(2) have "?m (pl_price e) = Some (pl_size e)" by (simp add: is_best_ask_def)
    from entry [OF this] obtain l where l: "l \<in> set levels" "bl_price l = pl_price e" by blast
    moreover have "\<forall>k \<in> set levels. bl_price l \<le> bl_price k"
      using best(2) Some listed l(2) by (auto simp: is_best_ask_def)
    ultimately show ?thesis using best_level_by_text [OF assms(1) l(1), of False reg] Some by auto
  qed
qed

section \<open>One update\<close>

lemma ladder_after_snapshot:
  "ladder_best (apply_book_update books (book_of_snapshot s)) a =
     (if a = bs_asset_id s
      then (map_option pl_price (ladder_best_bid (ladder_apply_levels (map book_level_to_ws_level (bs_bids s)))),
            map_option pl_price (ladder_best_ask (ladder_apply_levels (map book_level_to_ws_level (bs_asks s)))))
      else ladder_best books a)"
  by (simp add: ladder_best_def get_snapshot_def apply_book_update_def book_of_snapshot_def apply_snapshot_def to_snapshot_def)

lemma level_price_refresh [simp]:
  "map_option level_price (refresh_book_level_units l t u) = map_option level_price l"
  by (cases l) (simp_all add: refresh_book_level_units_def level_price_def)

lemma registered_prices [simp]:
  "map_option level_price (hb_best_bid (apply_registered r b)) = map_option level_price (hb_best_bid b)"
  "map_option level_price (hb_best_ask (apply_registered r b)) = map_option level_price (hb_best_ask b)"
  by (cases r; simp add: apply_registered_def apply_registered_market_def)+

lemma hot_put_book:
  "hot_best (put_book (key_asset source b) bk st) source a =
     (if a = b then (map_option level_price (hb_best_bid bk), map_option level_price (hb_best_ask bk))
      else hot_best st source a)"
  by (simp add: hot_best_def book_state_def)

lemma hot_after_snapshot:
  "hot_best (apply_book_snapshot_update st n s) (un_source_id n) a =
     (if a = bs_asset_id s
      then (map_option level_price (best_level (bs_bids s) True (hs_markets_by_asset st (bs_asset_id s))),
            map_option level_price (best_level (bs_asks s) False (hs_markets_by_asset st (bs_asset_id s))))
      else hot_best st (un_source_id n) a)"
  by (simp add: apply_book_snapshot_update_def Let_def hot_put_book)

lemma ladder_after_change:
  "ladder_best (apply_price_change books (change_of_delta d) ts) a =
     (if a \<noteq> bd_asset_id d then ladder_best books a
      else case bd_side d of
             Buy \<Rightarrow> (fst (ladder_best (apply_price_change books (change_of_delta d) ts) a), snd (ladder_best books a))
           | Sell \<Rightarrow> (fst (ladder_best books a), snd (ladder_best (apply_price_change books (change_of_delta d) ts) a)))"
proof -
  have none: "ladder_best_bid [] = None" "ladder_best_ask [] = None"
    by (simp_all add: ladder_best_bid_def ladder_best_ask_def bt_last_def bt_first_def)
  show ?thesis
    by (cases "bd_side d"; cases "books (bd_asset_id d)")
      (simp_all add: ladder_best_def get_snapshot_def apply_price_change_def change_of_delta_def apply_delta_def
        to_snapshot_def entry_or_new_def book_new_def Let_def none)
qed

lemma delta_best_quoted:
  assumes "pred_option level_ok cur" and "parse_scaled q \<noteq> None" and "parse_scaled (bd_size d) \<noteq> None"
  shows "map_option level_price (delta_best cur (Some q) d reg m) = Some q"
proof -
  have zero: "parse_scaled ''0'' \<noteq> None" using parse_scaled_digits [of "''0''" "[]"] by (simp add: is_digit_def digit_val_def)
  have "parse_scaled (if q = bd_price d then bd_size d
      else unwrap_or ''0'' (map_option (\<lambda>l. hv_exact (hbl_size l)) cur)) \<noteq> None"
    using assms zero by (cases cur) (auto simp: level_ok_def value_ok_def)
  then show ?thesis using assms(2)
    by (auto simp: delta_best_def Let_def make_book_level_def hot_value_def level_price_def)
qed

lemma hot_after_delta:
  assumes "hot_wf st" and "parse_scaled (bd_size d) \<noteq> None"
    and "(case bd_side d of Buy \<Rightarrow> bd_best_bid d | Sell \<Rightarrow> bd_best_ask d) = Some q" and "parse_scaled q \<noteq> None"
  shows "hot_best (apply_book_delta_update st n d) (un_source_id n) a =
     (if a = bd_asset_id d
      then (case bd_side d of Buy \<Rightarrow> (Some q, snd (hot_best st (un_source_id n) a))
            | Sell \<Rightarrow> (fst (hot_best st (un_source_id n) a), Some q))
      else hot_best st (un_source_id n) a)"
proof -
  let ?src = "un_source_id n" and ?asset = "bd_asset_id d"
  let ?reg = "hs_markets_by_asset st ?asset"
  define old where "old = unwrap_or (fresh_book n (Some (bd_market_id d)) ?asset ?reg (bd_timestamp_ms d) (bd_source_hash d))
    (hs_books st (key_asset ?src ?asset))"
  note ok = old_book_ok [OF assms(1) old_def]
  have prices: "map_option level_price (hb_best_bid old) = fst (hot_best st ?src ?asset)"
    "map_option level_price (hb_best_ask old) = snd (hot_best st ?src ?asset)"
    by (cases "hs_books st (key_asset ?src ?asset)"; simp add: old_def hot_best_def book_state_def)+
  show ?thesis
  proof (cases "bd_side d")
    case Buy
    then have q: "bd_best_bid d = Some q" using assms(3) by simp
    have "hot_best (apply_book_delta_update st n d) ?src a =
        (if a = ?asset then (map_option level_price (delta_best (hb_best_bid old) (Some q) d ?reg True),
           map_option level_price (hb_best_ask old)) else hot_best st ?src a)"
      by (simp add: apply_book_delta_update_def Let_def hot_put_book Buy q flip: old_def)
    then show ?thesis unfolding delta_best_quoted [OF ok(2) assms(4,2)] prices by (simp add: Buy)
  next
    case Sell
    then have q: "bd_best_ask d = Some q" using assms(3) by simp
    have "hot_best (apply_book_delta_update st n d) ?src a =
        (if a = ?asset then (map_option level_price (hb_best_bid old),
           map_option level_price (delta_best (hb_best_ask old) (Some q) d ?reg False)) else hot_best st ?src a)"
      by (simp add: apply_book_delta_update_def Let_def hot_put_book Sell q flip: old_def)
    then show ?thesis unfolding delta_best_quoted [OF ok(3) assms(4,2)] prices by (simp add: Sell)
  qed
qed

lemma hot_after_best_bid_ask:
  assumes "parse_scaled (bba_best_bid u) \<noteq> None" and "parse_scaled (bba_best_ask u) \<noteq> None"
  shows "hot_best (apply_best_bid_ask_update st n u) (un_source_id n) a =
     (if a = bba_asset_id u then (Some (bba_best_bid u), Some (bba_best_ask u)) else hot_best st (un_source_id n) a)"
proof -
  have zero: "parse_scaled ''0'' \<noteq> None" using parse_scaled_digits [of "''0''" "[]"] by (simp add: is_digit_def digit_val_def)
  have level: "map_option level_price (make_book_level q ''0'' reg) = Some q" if "parse_scaled q \<noteq> None" for q reg
    using that zero by (auto simp: make_book_level_def hot_value_def level_price_def)
  show ?thesis
    unfolding apply_best_bid_ask_update_def Let_def hot_put_book midpoint_fields registered_prices
    by (simp add: level [OF assms(1)] level [OF assms(2)])
qed

lemma hot_after_tick_size:
  "hot_best (apply_tick_size_change_update st n u) (un_source_id n) a = hot_best st (un_source_id n) a"
  by (cases "hs_books st (key_asset (un_source_id n) (tsc_asset_id u))")
    (simp_all add: apply_tick_size_change_update_def Let_def hot_put_book hot_best_def book_state_def)

lemma hot_other_updates:
  "hot_best (update_reference st n f) source a = hot_best st source a"
  "hot_best (apply_reconnect_update st n r) (un_source_id n) a = (None, None)"
  by (simp_all add: hot_best_def book_state_def update_reference_books apply_reconnect_update_def retain_def Let_def)

text \<open>The numerically best price of a side is the best one of the ladder.\<close>

lemma best_text_unique:
  assumes "numerically_best m prices q" and "e \<in> dom prices"
    and "if m then q \<le> e else e \<le> q"
  shows "e = q"
proof -
  have canonical: "canonical_price q" "canonical_price e" and best:
    "if m then the (decimal_micros e) \<le> the (decimal_micros q) else the (decimal_micros q) \<le> the (decimal_micros e)"
    using assms(1,2) by (auto simp: numerically_best_def)
  have "decimal_micros e = decimal_micros q"
  proof (cases m)
    case True
    with canonical_mono [OF canonical] best assms(3) show ?thesis by force
  next
    case False
    with canonical_mono [OF canonical(2,1)] best assms(3) show ?thesis by force
  qed
  with assms(1,2) show ?thesis by (auto simp: numerically_best_def dest: inj_onD)
qed

lemma ladder_shows_best:
  assumes "refines books spec" and "spec a = Some b"
  shows "numerically_best True (ab_bids b) q \<Longrightarrow> fst (ladder_best books a) = Some q"
    "numerically_best False (ab_asks b) q \<Longrightarrow> snd (ladder_best books a) = Some q"
proof -
  obtain bk where bk: "books a = Some bk" "book_wf a bk" "b = abs_of bk"
    using assms by (auto simp: refines_def)
  have best: "is_best_bid (ab_bids b) (ladder_best_bid (bk_bids bk))" "is_best_ask (ab_asks b) (ladder_best_ask (bk_asks bk))"
    using bk(2) by (simp_all add: bk(3) abs_of_def book_wf_def ladder_best_is_best)
  have shown: "ladder_best books a =
      (map_option pl_price (ladder_best_bid (bk_bids bk)), map_option pl_price (ladder_best_ask (bk_asks bk)))"
    by (simp add: ladder_best_def get_snapshot_def bk(1) to_snapshot_def)
  show "fst (ladder_best books a) = Some q" if q: "numerically_best True (ab_bids b) q"
  proof (cases "ladder_best_bid (bk_bids bk)")
    case None
    with best(1) q show ?thesis by (auto simp: is_best_bid_def numerically_best_def)
  next
    case (Some e)
    with best(1) q have "pl_price e \<in> dom (ab_bids b)" "q \<le> pl_price e"
      by (auto simp: is_best_bid_def numerically_best_def)
    with best_text_unique [OF q] Some show ?thesis by (simp add: shown)
  qed
  show "snd (ladder_best books a) = Some q" if q: "numerically_best False (ab_asks b) q"
  proof (cases "ladder_best_ask (bk_asks bk)")
    case None
    with best(2) q show ?thesis by (auto simp: is_best_ask_def numerically_best_def)
  next
    case (Some e)
    with best(2) q have "pl_price e \<in> dom (ab_asks b)" "pl_price e \<le> q"
      by (auto simp: is_best_ask_def numerically_best_def)
    with best_text_unique [OF q] Some show ?thesis by (simp add: shown)
  qed
qed

lemma best_parses: "numerically_best m prices q \<Longrightarrow> last q \<noteq> CHR ''.'' \<Longrightarrow> parse_scaled q \<noteq> None"
  using canonical_scaled [of q] by (auto simp: numerically_best_def)

lemma update_refines:
  assumes "refines (fs_order_books st) spec"
  shows "refines (fs_order_books (apply_update_to_stores st u)) (foldl abs_step spec (update_ops u))"
proof -
  have "refines (foldl book_step books ops) (foldl abs_step spec ops)" if "refines books spec" for books spec ops
    using that by (induction ops arbitrary: books spec) (simp_all add: book_step_refines)
  with assms show ?thesis by (simp add: update_books)
qed

text \<open>An update with true quotes keeps the agreement.\<close>

lemma delta_keeps_agreement:
  assumes "hot_wf h" and "un_source_id n = source" and "nu_payload u = BookDelta d" and "nu_notice u = n"
    and "quotes_true spec u" and "refines (fs_order_books (apply_update_to_stores st u)) spec"
    and "\<forall>a. ladder_best (fs_order_books st) a = hot_best h source a"
  shows "ladder_best (fs_order_books (apply_update_to_stores st u)) a = hot_best (apply_update h u) source a"
proof -
  let ?books = "fs_order_books (apply_update_to_stores st u)"
  obtain q where q: "(case bd_side d of Buy \<Rightarrow> bd_best_bid d | Sell \<Rightarrow> bd_best_ask d) = Some q" "parse_scaled q \<noteq> None"
    and size: "parse_scaled (bd_size d) \<noteq> None"
    and shown: "(case bd_side d of Buy \<Rightarrow> fst (ladder_best ?books (bd_asset_id d)) | Sell \<Rightarrow> snd (ladder_best ?books (bd_asset_id d))) = Some q"
    using assms(3,5) ladder_shows_best [OF assms(6)] best_parses
    by (auto simp: quotes_true_def split: option.splits side.splits)
  have books: "?books = apply_price_change (fs_order_books st) (change_of_delta d) (bd_timestamp_ms d)"
    using assms(3) by (simp add: apply_update_to_stores_def)
  have hot: "apply_update h u = apply_book_delta_update h n d" using assms(3,4) by (simp add: apply_update_def)
  show ?thesis
    unfolding hot
    using hot_after_delta [OF assms(1) size q, of n a] shown assms(2,7)
      ladder_after_change [of "fs_order_books st" d "bd_timestamp_ms d" a]
    by (cases "bd_side d") (auto simp: books split: if_splits)
qed

lemma update_keeps_agreement:
  assumes "hot_wf h" and "un_source_id (nu_notice u) = source" and "refines (fs_order_books st) spec"
    and "quotes_true (foldl abs_step spec (update_ops u)) u"
    and "\<forall>a. ladder_best (fs_order_books st) a = hot_best h source a"
  shows "ladder_best (fs_order_books (apply_update_to_stores st u)) a = hot_best (apply_update h u) source a"
proof (cases "nu_payload u")
  case (BookSnapshot s)
  with assms(2,4,5) show ?thesis
    using hot_after_snapshot [of h "nu_notice u" s a]
    by (simp add: apply_update_to_stores_def apply_update_def quotes_true_def ladder_after_snapshot side_agrees)
next
  case (BookDelta d)
  show ?thesis
    by (rule delta_keeps_agreement [OF assms(1,2) BookDelta refl assms(4) update_refines [OF assms(3)] assms(5)])
next
  case (BestBidAsk b)
  then have same: "fs_order_books (apply_update_to_stores st u) = fs_order_books st" "update_ops u = []"
    by (simp_all add: apply_update_to_stores_def update_ops_def)
  obtain book where "spec (bba_asset_id b) = Some book" "numerically_best True (ab_bids book) (bba_best_bid b)"
      "numerically_best False (ab_asks book) (bba_best_ask b)"
      "last (bba_best_bid b) \<noteq> CHR ''.''" "last (bba_best_ask b) \<noteq> CHR ''.''"
    using assms(4) by (auto simp: quotes_true_def BestBidAsk same split: option.splits)
  note quoted = this
  have "ladder_best (fs_order_books st) (bba_asset_id b) = (Some (bba_best_bid b), Some (bba_best_ask b))"
    using ladder_shows_best [OF assms(3) quoted(1)] quoted(2,3) by (simp add: prod_eq_iff)
  then show ?thesis
    using assms(2,5) BestBidAsk hot_after_best_bid_ask [of b h "nu_notice u" a] best_parses [OF quoted(2,4)] best_parses [OF quoted(3,5)]
    by (auto simp: same apply_update_def)
next
  case (TickSizeChange t)
  with assms(2,5) show ?thesis using hot_after_tick_size [of h "nu_notice u" t a]
    by (simp add: apply_update_to_stores_def apply_update_def)
next
  case (Reconnect r)
  with assms(2) show ?thesis using hot_other_updates(2) [of h "nu_notice u" r a]
    by (simp add: apply_update_to_stores_def apply_update_def clear_all_def ladder_best_def get_snapshot_def)
qed (use assms(5) in \<open>simp_all add: apply_update_to_stores_def apply_update_def reference_updates_def hot_other_updates\<close>)

section \<open>A whole run\<close>

lemma agreement_kept:
  assumes "hot_wf h" and "list_all (\<lambda>u. un_source_id (nu_notice u) = source) us"
    and "refines (fs_order_books st) spec" and "exchange_truthful spec us"
    and "\<forall>a. ladder_best (fs_order_books st) a = hot_best h source a"
  shows "ladder_best (fs_order_books (foldl apply_update_to_stores st us)) a = hot_best (foldl apply_update h us) source a"
  using assms
proof (induction us arbitrary: st h spec)
  case (Cons u us)
  let ?spec = "foldl abs_step spec (update_ops u)"
  have true: "quotes_true ?spec u" "exchange_truthful ?spec us" using Cons.prems(4) by (simp_all add: Let_def)
  have "\<forall>a. ladder_best (fs_order_books (apply_update_to_stores st u)) a = hot_best (apply_update h u) source a"
    using update_keeps_agreement [OF Cons.prems(1) _ Cons.prems(3) true(1) Cons.prems(5)] Cons.prems(2) by simp
  with Cons.IH [OF _ _ update_refines [OF Cons.prems(3)] true(2)] Cons.prems(1,2) show ?case
    by (simp add: apply_update_wf)
qed simp

text \<open>What a run of the processing task has published is what it has applied to its stores.\<close>

lemma process_published:
  "fo_updates (fm_outputs (fst (process_message m msg))) = fo_updates (fm_outputs m) @ scoped_normalize (fm_source_id m) msg"
  "fm_source_id (fst (process_message m msg)) = fm_source_id m"
  using feed_adapter.outputs_fold [OF scoped.feed_adapter_axioms]
  by (simp_all add: process_message_def process_adapter_message_def Let_def case_prod_beta)

lemma loop_published:
  "\<exists>us. fo_updates (fm_outputs (feed_process_loop m rs)) = fo_updates (fm_outputs m) @ us \<and>
     fm_stores (feed_process_loop m rs) = foldl apply_update_to_stores (fm_stores m) us \<and>
     list_all (\<lambda>u. un_source_id (nu_notice u) = fm_source_id m) us"
proof (induction m rs rule: feed_process_loop.induct)
  case (2 m r rs)
  show ?case
  proof (cases r)
    case (Received msg)
    from 2(1) [OF Received] obtain us where
        us: "fo_updates (fm_outputs (feed_process_loop (fst (process_message m msg)) rs)) =
          fo_updates (fm_outputs (fst (process_message m msg))) @ us"
        "fm_stores (feed_process_loop (fst (process_message m msg)) rs) =
          foldl apply_update_to_stores (fm_stores (fst (process_message m msg))) us"
        "list_all (\<lambda>u. un_source_id (nu_notice u) = fm_source_id (fst (process_message m msg))) us" by blast
    have "list_all (\<lambda>u. un_source_id (nu_notice u) = fm_source_id m) (scoped_normalize (fm_source_id m) msg)"
      using scoped.normalise_consistent [of "fm_source_id m" msg] by (auto simp: list_all_iff notice_consistent_def)
    with us show ?thesis
      by (intro exI [of _ "scoped_normalize (fm_source_id m) msg @ us"])
        (simp add: Received process_published process_stores)
  qed (use 2 in \<open>auto\<close>)
qed simp

text \<open>
  C12. The two ways to a price agree: when the exchange's quotes are true, after any messages the order books of the feed manager
  and the books that a hot state store keeps from the published updates show the same best bid and the same best ask,
  text for text, for every asset, although the one compares texts over whole ladders and the other numbers of single levels.
\<close>

theorem read_paths_agree:
  assumes "m = feed_process_loop (feed_manager_new source ids) rs"
    and "exchange_truthful Map.empty (fo_updates (fm_outputs m))"
    and "hot_wf h" and "\<forall>a. book_state h source a = None"
  shows "ladder_best (fs_order_books (fm_stores m)) a = hot_best (foldl apply_update h (fo_updates (fm_outputs m))) source a"
proof -
  let ?new = "feed_manager_new source ids"
  have new: "fm_source_id ?new = source" "fm_stores ?new = feed_stores_new" "fo_updates (fm_outputs ?new) = []"
    by (simp_all add: feed_manager_new_def with_subscription_planner_def feed_outputs_new_def Let_def)
  have "\<forall>a. ladder_best (fs_order_books feed_stores_new) a = hot_best h source a"
    using assms(4) by (simp add: ladder_best_def hot_best_def feed_stores_new_def get_snapshot_def)
  with loop_published [of ?new rs] show ?thesis
    using agreement_kept [OF assms(3) _ _ assms(2)] by (auto simp: assms(1) new feed_stores_new_def refines_def)
qed

section \<open>Where they differ\<close>

definition two_messages :: "ws_message list" where
  "two_messages =
     [WsBook \<lparr>bu_asset_id = ''42'', bu_market = ''m'', bu_timestamp = ''1'',
        bu_bids = [\<lparr>wl_price = ''0.4'', wl_size = ''7''\<rparr>, \<lparr>wl_price = ''0.5'', wl_size = ''1''\<rparr>],
        bu_asks = [\<lparr>wl_price = ''0.6'', wl_size = ''1''\<rparr>], bu_hash = None\<rparr>,
      WsPriceChange \<lparr>pce_market = ''m'', pce_timestamp = ''2'',
        pce_price_changes = [\<lparr>pcb_asset_id = ''42'', pcb_price = ''0.5'', pcb_size = Some ''0'', pcb_side = Buy,
          pcb_hash = None, pcb_best_bid = Some ''0.4'', pcb_best_ask = Some ''0.6''\<rparr>]\<rparr>]"

definition two_updates :: "normalized_update list" where
  "two_updates = concat (map (scoped_normalize public_source_id) two_messages)"

lemma two_updates_published:
  "fo_updates (fm_outputs (feed_process_loop (feed_manager_new public_source_id ids) (map Received two_messages))) = two_updates"
  by (simp add: two_updates_def two_messages_def process_published feed_manager_new_def with_subscription_planner_def
      feed_outputs_new_def Let_def)

lemmas two_facts = two_updates_def two_messages_def scoped_normalize_def to_normalized_updates_def normalize_book_def
  normalize_level_def normalize_entry_def scope_update_to_source_def Let_def

lemma two_books:
  "map_option (\<lambda>s. (obs_best_bid s, obs_best_ask s))
     (get_snapshot (fs_order_books (foldl apply_update_to_stores feed_stores_new two_updates)) ''42'') =
   Some (Some \<lparr>pl_price = ''0.4'', pl_size = ''7''\<rparr>, Some \<lparr>pl_price = ''0.6'', pl_size = ''1''\<rparr>)"
  by (simp add: two_facts apply_update_to_stores_def feed_stores_new_def apply_book_update_def book_of_snapshot_def
      book_level_to_ws_level_def apply_snapshot_def entry_or_new_def book_new_def ladder_apply_levels_def
      apply_price_change_def change_of_delta_def apply_delta_def ladder_upsert_def zero_size_def get_snapshot_def to_snapshot_def
      ladder_best_bid_def ladder_best_ask_def bt_last_def bt_first_def level_of_entry_def less_char_def bt_remove_def)

lemma digit_units:
  assumes "is_digit c"
  shows "parse_scaled (''0.'' @ [c]) = Some (of_nat (digit_val c * 100000))"
    "parse_scaled [c] = Some (of_nat (digit_val c * 1000000))"
proof -
  have c: "digit_val c < 10" using digit_val_less [of c] assms by simp
  show "parse_scaled (''0.'' @ [c]) = Some (of_nat (digit_val c * 100000))"
    using parse_scaled_digits [of "''0''" "[c]"] assms c by (simp add: is_digit_def digit_val_def)
  show "parse_scaled [c] = Some (of_nat (digit_val c * 1000000))"
    using parse_scaled_digits [of "[c]" "[]"] assms c by simp
qed

lemma two_units:
  "parse_scaled ''0.4'' = Some 400000" "parse_scaled ''0.5'' = Some 500000" "parse_scaled ''0.6'' = Some 600000"
  "parse_scaled ''0'' = Some 0" "parse_scaled ''1'' = Some 1000000" "parse_scaled ''7'' = Some 7000000"
  using digit_units(1) [of "CHR ''4''"] digit_units(1) [of "CHR ''5''"] digit_units(1) [of "CHR ''6''"]
    digit_units(2) [of "CHR ''0''"] digit_units(2) [of "CHR ''1''"] digit_units(2) [of "CHR ''7''"]
  by (simp_all add: is_digit_def digit_val_def)

lemma two_hot_books:
  "map_option (\<lambda>b. (map_option snapshot_level (hb_best_bid b), map_option snapshot_level (hb_best_ask b)))
     (book_state (foldl apply_update hot_state_empty two_updates) public_source_id ''42'') =
   Some (Some \<lparr>pl_price = ''0.4'', pl_size = ''1''\<rparr>, Some \<lparr>pl_price = ''0.6'', pl_size = ''1''\<rparr>)"
  by (simp add: two_facts two_units apply_update_def apply_book_snapshot_update_def apply_book_delta_update_def hot_state_empty_def
      fresh_book_def best_level_def List.map_filter_def make_book_level_def hot_value_def better_def put_book_def
      apply_registered_def refresh_midpoint_def delta_best_def book_state_def snapshot_level_def)

text \<open>
  The sizes differ: when a change removes the best bid, the hot state store shows the price that the exchange quotes as the
  new best, but with the size of the level that is gone, where the ladder has the size of the level.
\<close>

lemma hot_size_stale:
  "map_option obs_best_bid
     (get_snapshot (fs_order_books (foldl apply_update_to_stores feed_stores_new two_updates)) ''42'') =
     Some (Some \<lparr>pl_price = ''0.4'', pl_size = ''7''\<rparr>) \<and>
   map_option (\<lambda>b. map_option snapshot_level (hb_best_bid b))
     (book_state (foldl apply_update hot_state_empty two_updates) public_source_id ''42'') =
     Some (Some \<lparr>pl_price = ''0.4'', pl_size = ''1''\<rparr>)"
  using two_books two_hot_books by auto

lemma two_best:
  "ladder_best (fs_order_books (foldl apply_update_to_stores feed_stores_new two_updates)) ''42'' = (Some ''0.4'', Some ''0.6'')"
  using two_books by (auto simp: ladder_best_def)

lemma two_readable:
  "readable_side [\<lparr>bl_price = ''0.4'', bl_size = ''7''\<rparr>, \<lparr>bl_price = ''0.5'', bl_size = ''1''\<rparr>]"
  "readable_side [\<lparr>bl_price = ''0.6'', bl_size = ''1''\<rparr>]"
  by (simp_all add: readable_side_def canonical_price_def two_units decimal_micros_def is_digit_def digit_val_def)

lemma two_updates_truthful: "exchange_truthful Map.empty two_updates"
proof -
  let ?bids = "[\<lparr>wl_price = ''0.4'', wl_size = ''7''\<rparr>, \<lparr>wl_price = ''0.5'', wl_size = ''1''\<rparr>]"
  obtain u1 u2 where us: "two_updates = [u1, u2]" and
    u1: "\<exists>s. nu_payload u1 = BookSnapshot s \<and> bs_asset_id s = ''42'' \<and>
      bs_bids s = [\<lparr>bl_price = ''0.4'', bl_size = ''7''\<rparr>, \<lparr>bl_price = ''0.5'', bl_size = ''1''\<rparr>] \<and>
      bs_asks s = [\<lparr>bl_price = ''0.6'', bl_size = ''1''\<rparr>]" and
    u2: "\<exists>d. nu_payload u2 = BookDelta d \<and> bd_asset_id d = ''42'' \<and> bd_side d = Buy \<and> bd_best_bid d = Some ''0.4'' \<and>
      bd_price d = ''0.5'' \<and> bd_size d = ''0''"
    by (simp add: two_facts)
  from u1 obtain s where s: "nu_payload u1 = BookSnapshot s" "bs_asset_id s = ''42''"
      "bs_bids s = [\<lparr>bl_price = ''0.4'', bl_size = ''7''\<rparr>, \<lparr>bl_price = ''0.5'', bl_size = ''1''\<rparr>]"
      "bs_asks s = [\<lparr>bl_price = ''0.6'', bl_size = ''1''\<rparr>]" by blast
  from u2 obtain d where d: "nu_payload u2 = BookDelta d" "bd_asset_id d = ''42''" "bd_side d = Buy"
      "bd_best_bid d = Some ''0.4''" "bd_price d = ''0.5''" "bd_size d = ''0''" by blast
  have "\<exists>b. foldl abs_step Map.empty (update_ops u1) = [''42'' \<mapsto> b] \<and> ab_bids b = side_of_levels ?bids"
    by (intro exI [of _ "the (foldl abs_step Map.empty (update_ops u1) ''42'')"])
      (simp add: update_ops_def s abs_step_def book_of_snapshot_def book_level_to_ws_level_def)
  then obtain b where b: "foldl abs_step Map.empty (update_ops u1) = [''42'' \<mapsto> b]" "ab_bids b = side_of_levels ?bids" by blast
  have "\<exists>b'. foldl abs_step [''42'' \<mapsto> b] (update_ops u2) ''42'' = Some b' \<and> ab_bids b' = (ab_bids b)(''0.5'' := None)"
    by (simp add: update_ops_def d abs_step_def change_of_delta_def side_change_def zero_size_def Let_def)
  then obtain b' where b': "foldl abs_step [''42'' \<mapsto> b] (update_ops u2) ''42'' = Some b'"
      "ab_bids b' = (ab_bids b)(''0.5'' := None)" by blast
  have dom: "dom ((side_of_levels ?bids)(''0.5'' := None)) = {''0.4''}"
    by (auto simp: side_of_levels_def split: if_splits)
  have best: "numerically_best True (ab_bids b') ''0.4''"
    unfolding numerically_best_def b'(2) b(2) dom by (simp add: canonical_price_def is_digit_def)
  have first: "quotes_true [''42'' \<mapsto> b] u1" using two_readable by (simp add: quotes_true_def s)
  have second: "quotes_true (foldl abs_step [''42'' \<mapsto> b] (update_ops u2)) u2"
    by (simp add: quotes_true_def d b'(1) best two_units)
  show ?thesis unfolding us using first second by (simp add: Let_def b(1))
qed

theorem read_paths_agree_witness:
  "ladder_best (fs_order_books (foldl apply_update_to_stores feed_stores_new two_updates)) ''42'' =
     hot_best (foldl apply_update hot_state_empty two_updates) public_source_id ''42'' \<and>
   hot_best (foldl apply_update hot_state_empty two_updates) public_source_id ''42'' = (Some ''0.4'', Some ''0.6'')"
proof -
  let ?m = "feed_process_loop (feed_manager_new public_source_id [''42'']) (map Received two_messages)"
  have stores: "fm_stores ?m = foldl apply_update_to_stores feed_stores_new two_updates"
    by (simp add: two_updates_def two_messages_def process_stores process_published feed_manager_new_def
        with_subscription_planner_def Let_def)
  have "ladder_best (fs_order_books (fm_stores ?m)) ''42'' =
      hot_best (foldl apply_update hot_state_empty (fo_updates (fm_outputs ?m))) public_source_id ''42''"
    by (rule read_paths_agree [OF refl _ hot_wf_empty])
      (simp_all only: two_updates_published two_updates_truthful, simp add: book_state_def hot_state_empty_def)
  then show ?thesis unfolding stores two_updates_published using two_best by simp
qed

end
