(* ===== verification/Quote.thy ===== *)
theory Quote
  imports CoreTypes RustText
begin

text \<open>
  Desired quotes (\<open>pm-strategy/src/quote.rs\<close>): what a quoting strategy wants on the exchange.
\<close>

type_synonym quote_id = string

record desired_quote =
  dq_quote_id :: quote_id
  dq_asset_id :: string
  dq_side :: side
  dq_price :: string
  dq_size :: string
  dq_order_type :: order_type

record desired_quotes =
  dqs_quotes :: "desired_quote list"

definition desired_quotes_single :: "desired_quote \<Rightarrow> desired_quotes" where
  "desired_quotes_single q = \<lparr>dqs_quotes = [q]\<rparr>"

definition desired_quote_new ::
    "quote_id \<Rightarrow> string \<Rightarrow> side \<Rightarrow> string \<Rightarrow> string \<Rightarrow> order_type \<Rightarrow> desired_quote" where
  "desired_quote_new i a s p sz ot =
     \<lparr>dq_quote_id = i, dq_asset_id = a, dq_side = s, dq_price = p, dq_size = sz, dq_order_type = ot\<rparr>"

end
