(* ===== verification/OrderState.thy ===== *)
theory OrderState
  imports Quote
begin

text \<open>
  The life of one working quote (\<open>pm-executor/src/order_state.rs\<close>): the local view of an order and the
  observations of the exchange that move it.
\<close>

section \<open>Data\<close>

datatype working_quote_state =
    WqPendingSubmit
  | WqWorking
  | WqPendingCancel
  | WqCanceled
  | WqRejected string
  | WqUnknownOrStale string

datatype exchange_observed_quote_state = ObsWorking | ObsPendingCancel | ObsCanceled | ObsRejected string

record exchange_observed_quote =
  eo_quote_id :: quote_id
  eo_client_order_id :: "string option"
  eo_state :: exchange_observed_quote_state
  eo_observed_at_ms :: u64

record working_quote =
  wq_quote_id :: quote_id
  wq_asset_id :: string
  wq_side :: side
  wq_price :: string
  wq_size :: string
  wq_order_type :: order_type
  wq_state :: working_quote_state
  wq_client_order_id :: "string option"
  wq_created_at_ms :: u64
  wq_last_update_ms :: u64
  wq_last_command_ms :: "u64 option"
  wq_last_exchange_observed_ms :: "u64 option"

section \<open>Operations\<close>

definition pending_submit :: "desired_quote \<Rightarrow> u64 \<Rightarrow> working_quote" where
  "pending_submit d now =
     \<lparr>wq_quote_id = dq_quote_id d, wq_asset_id = dq_asset_id d, wq_side = dq_side d,
      wq_price = dq_price d, wq_size = dq_size d, wq_order_type = dq_order_type d,
      wq_state = WqPendingSubmit, wq_client_order_id = None, wq_created_at_ms = now,
      wq_last_update_ms = now, wq_last_command_ms = Some now, wq_last_exchange_observed_ms = None\<rparr>"

definition mark_working :: "working_quote \<Rightarrow> string \<Rightarrow> u64 \<Rightarrow> working_quote" where
  "mark_working q cid now =
     q\<lparr>wq_state := WqWorking, wq_client_order_id := Some cid, wq_last_update_ms := now\<rparr>"

definition mark_pending_cancel :: "working_quote \<Rightarrow> u64 \<Rightarrow> working_quote" where
  "mark_pending_cancel q now =
     q\<lparr>wq_state := WqPendingCancel, wq_last_update_ms := now, wq_last_command_ms := Some now\<rparr>"

definition mark_canceled :: "working_quote \<Rightarrow> u64 \<Rightarrow> working_quote" where
  "mark_canceled q now = q\<lparr>wq_state := WqCanceled, wq_last_update_ms := now\<rparr>"

definition mark_rejected :: "working_quote \<Rightarrow> string \<Rightarrow> u64 \<Rightarrow> working_quote" where
  "mark_rejected q reason now = q\<lparr>wq_state := WqRejected reason, wq_last_update_ms := now\<rparr>"

definition mark_unknown_or_stale :: "working_quote \<Rightarrow> string \<Rightarrow> u64 \<Rightarrow> working_quote" where
  "mark_unknown_or_stale q reason now =
     q\<lparr>wq_state := WqUnknownOrStale reason, wq_last_update_ms := now\<rparr>"

definition blocks_convergence :: "working_quote \<Rightarrow> bool" where
  "blocks_convergence q = (case wq_state q of WqUnknownOrStale _ \<Rightarrow> True | _ \<Rightarrow> False)"

definition is_cancelable :: "working_quote \<Rightarrow> bool" where
  "is_cancelable q =
     (case wq_state q of
        WqPendingSubmit \<Rightarrow> True | WqWorking \<Rightarrow> True | WqPendingCancel \<Rightarrow> True | _ \<Rightarrow> False)"

definition mark_unknown_if_timed_out ::
    "working_quote \<Rightarrow> u64 \<Rightarrow> u64 \<Rightarrow> u64 \<Rightarrow> working_quote \<times> bool" where
  "mark_unknown_if_timed_out q submit_timeout cancel_timeout now =
     (case wq_last_command_ms q of
        None \<Rightarrow> (q, False)
      | Some sent \<Rightarrow>
          let elapsed = saturating_sub now sent
          in case wq_state q of
               WqPendingSubmit \<Rightarrow>
                 if elapsed \<ge> submit_timeout
                 then (mark_unknown_or_stale q ''submit_timeout'' now, True) else (q, False)
             | WqPendingCancel \<Rightarrow>
                 if elapsed \<ge> cancel_timeout
                 then (mark_unknown_or_stale q ''cancel_timeout'' now, True) else (q, False)
             | _ \<Rightarrow> (q, False))"

definition mark_reconnect_stale :: "working_quote \<Rightarrow> u64 \<Rightarrow> working_quote" where
  "mark_reconnect_stale q now = mark_unknown_or_stale q ''reconnect_resync_required'' now"

text \<open>The arms of the match in the source's order: a rejection or a cancellation wins in every state,
  a working order does not take back a cancel that is pending.\<close>

definition apply_exchange_observation :: "working_quote \<Rightarrow> exchange_observed_quote \<Rightarrow> working_quote" where
  "apply_exchange_observation q0 obs =
     (let q = q0\<lparr>wq_last_exchange_observed_ms := Some (eo_observed_at_ms obs)\<rparr>
      in case eo_state obs of
           ObsRejected reason \<Rightarrow> mark_rejected q reason (eo_observed_at_ms obs)
         | ObsCanceled \<Rightarrow> mark_canceled q (eo_observed_at_ms obs)
         | ObsPendingCancel \<Rightarrow>
             q\<lparr>wq_state := WqPendingCancel, wq_client_order_id := eo_client_order_id obs,
               wq_last_update_ms := eo_observed_at_ms obs\<rparr>
         | ObsWorking \<Rightarrow>
             if wq_state q = WqPendingCancel then q\<lparr>wq_last_update_ms := eo_observed_at_ms obs\<rparr>
             else (case eo_client_order_id obs of
                     Some cid \<Rightarrow> mark_working q cid (eo_observed_at_ms obs)
                   | None \<Rightarrow> q\<lparr>wq_state := WqWorking, wq_last_update_ms := eo_observed_at_ms obs\<rparr>))"

definition apply_authoritative_absence :: "working_quote \<Rightarrow> u64 \<Rightarrow> working_quote \<times> bool" where
  "apply_authoritative_absence q now =
     (case wq_state q of
        WqPendingCancel \<Rightarrow> (mark_canceled q now, False)
      | WqCanceled \<Rightarrow> (mark_canceled q now, False)
      | WqUnknownOrStale _ \<Rightarrow> (mark_canceled q now, False)
      | WqPendingSubmit \<Rightarrow> (mark_unknown_or_stale q ''exchange_missing_authoritative'' now, True)
      | WqWorking \<Rightarrow> (mark_unknown_or_stale q ''exchange_missing_authoritative'' now, True)
      | WqRejected _ \<Rightarrow> (q, False))"

section \<open>The state machine\<close>

text \<open>One step of a quote: a local mark, a timeout check or news of the exchange.\<close>

inductive quote_step :: "working_quote \<Rightarrow> working_quote \<Rightarrow> bool" where
  step_cancel: "is_cancelable q \<Longrightarrow> quote_step q (mark_pending_cancel q now)"
| step_timeout: "mark_unknown_if_timed_out q st ct now = (q', True) \<Longrightarrow> quote_step q q'"
| step_reconnect: "is_cancelable q \<Longrightarrow> quote_step q (mark_reconnect_stale q now)"
| step_observed: "eo_quote_id obs = wq_quote_id q \<Longrightarrow> quote_step q (apply_exchange_observation q obs)"
| step_absent: "apply_authoritative_absence q now = (q', stale) \<Longrightarrow> quote_step q q'"

inductive_cases quote_stepE: "quote_step q q'"

inductive quote_reachable :: "working_quote \<Rightarrow> bool" where
  reachable_submit: "quote_reachable (pending_submit d now)"
| reachable_step: "quote_reachable q \<Longrightarrow> quote_step q q' \<Longrightarrow> quote_reachable q'"

lemmas mark_defs = mark_working_def mark_pending_cancel_def mark_canceled_def mark_rejected_def
  mark_unknown_or_stale_def mark_reconnect_stale_def

lemma cancelable_or_blocked:
  "is_cancelable q \<Longrightarrow> \<not> blocks_convergence q"
  by (auto simp: is_cancelable_def blocks_convergence_def split: working_quote_state.splits)

lemma observation_state:
  "wq_state (apply_exchange_observation q obs) =
     (case eo_state obs of
        ObsRejected r \<Rightarrow> WqRejected r | ObsCanceled \<Rightarrow> WqCanceled | ObsPendingCancel \<Rightarrow> WqPendingCancel
      | ObsWorking \<Rightarrow> if wq_state q = WqPendingCancel then WqPendingCancel else WqWorking)"
  by (simp add: apply_exchange_observation_def Let_def mark_defs split: exchange_observed_quote_state.split option.split)

lemma observation_clears_block: "\<not> blocks_convergence (apply_exchange_observation q obs)"
  by (simp add: blocks_convergence_def observation_state split: exchange_observed_quote_state.split)

lemma timed_out_iff:
  "snd (mark_unknown_if_timed_out q st ct now) \<longleftrightarrow>
     (\<exists>sent. wq_last_command_ms q = Some sent \<and>
       (wq_state q = WqPendingSubmit \<and> st \<le> saturating_sub now sent \<or>
        wq_state q = WqPendingCancel \<and> ct \<le> saturating_sub now sent))"
  by (auto simp: mark_unknown_if_timed_out_def Let_def split: option.splits working_quote_state.splits)

lemma timed_out_unchanged: "\<not> snd (mark_unknown_if_timed_out q st ct now) \<Longrightarrow> mark_unknown_if_timed_out q st ct now = (q, False)"
  by (auto simp: mark_unknown_if_timed_out_def Let_def split: option.splits working_quote_state.splits if_splits)

lemma quote_step_identity:
  "quote_step q q' \<Longrightarrow> wq_quote_id q' = wq_quote_id q \<and> wq_asset_id q' = wq_asset_id q \<and> wq_side q' = wq_side q \<and>
     wq_price q' = wq_price q \<and> wq_size q' = wq_size q \<and> wq_order_type q' = wq_order_type q \<and>
     wq_created_at_ms q' = wq_created_at_ms q"
proof (induction rule: quote_step.induct)
  case (step_timeout q st ct now q')
  then show ?case by (auto simp: mark_unknown_if_timed_out_def Let_def mark_defs
    split: option.splits working_quote_state.splits if_splits)
next
  case (step_observed obs q)
  then show ?case by (simp add: apply_exchange_observation_def Let_def mark_defs
    split: exchange_observed_quote_state.split option.split)
next
  case (step_absent q now q' stale)
  then show ?case by (auto simp: apply_authoritative_absence_def mark_defs split: working_quote_state.splits)
qed (simp_all add: mark_defs)

lemma observation_command_time [simp]: "wq_last_command_ms (apply_exchange_observation q obs) = wq_last_command_ms q"
  by (simp add: apply_exchange_observation_def Let_def mark_defs split: exchange_observed_quote_state.split option.split)

lemma absence_command_time:
  "apply_authoritative_absence q now = (q', b) \<Longrightarrow> wq_last_command_ms q' = wq_last_command_ms q"
  by (auto simp: apply_authoritative_absence_def mark_defs split: working_quote_state.splits)

lemma timeout_command_time:
  "mark_unknown_if_timed_out q st ct now = (q', b) \<Longrightarrow> wq_last_command_ms q' = wq_last_command_ms q"
  by (auto simp: mark_unknown_if_timed_out_def Let_def mark_defs split: option.splits working_quote_state.splits if_splits)

lemma reachable_command_time: "quote_reachable q \<Longrightarrow> wq_last_command_ms q \<noteq> None"
proof (induction rule: quote_reachable.induct)
  case (reachable_step q q')
  from reachable_step(2,3) show ?case
    by (cases rule: quote_step.cases)
      (auto simp: mark_defs dest: absence_command_time timeout_command_time)
qed (simp add: pending_submit_def)

text \<open>
  A quote that a command put on the exchange keeps its terms for life and can always time out: no
  reachable quote waits without the time of its last command, and a step changes only its state and
  its times.
\<close>

theorem reachable_quote_keeps_terms:
  assumes "quote_reachable q" and "quote_step q q'"
  shows "wq_last_command_ms q' \<noteq> None \<and> wq_quote_id q' = wq_quote_id q \<and> wq_asset_id q' = wq_asset_id q \<and>
    wq_side q' = wq_side q \<and> wq_price q' = wq_price q \<and> wq_size q' = wq_size q"
  using reachable_command_time [OF reachable_step [OF assms]] quote_step_identity [OF assms(2)] by simp

theorem reachable_quote_keeps_terms_witness:
  "wq_price (mark_pending_cancel (pending_submit (desired_quote_new ''q'' ''a'' Buy ''0.4'' ''5'' GTC) 1) 2) = ''0.4''"
  using reachable_quote_keeps_terms [OF reachable_submit step_cancel, of "desired_quote_new ''q'' ''a'' Buy ''0.4'' ''5'' GTC" 1 2]
  by (simp add: is_cancelable_def pending_submit_def desired_quote_new_def)


definition sample_quote :: working_quote where
  "sample_quote = mark_reconnect_stale (pending_submit (desired_quote_new ''q'' ''a'' Buy ''0.4'' ''5'' GTC) 1) 2"


end
