(* ===== verification/OrderManager.thy ===== *)
theory OrderManager
  imports OrderState OrdMap
begin

text \<open>
  Local reconciliation (\<open>pm-executor/src/order_manager.rs\<close>): the commands that move the working quotes
  towards the desired ones, the synchronisation with a snapshot of the exchange and the exposure
  that new fills add.
\<close>

section \<open>Data\<close>

datatype execution_command = Place desired_quote | Cancel quote_id | CancelAll

record reconciliation_policy =
  rpo_min_price_change_units :: u64
  rpo_min_size_change_units :: u64
  rpo_replace_cooldown_ms :: u64
  rpo_submit_timeout_ms :: u64
  rpo_cancel_timeout_ms :: u64

definition default_policy :: reconciliation_policy where
  "default_policy =
     \<lparr>rpo_min_price_change_units = 1, rpo_min_size_change_units = 1, rpo_replace_cooldown_ms = 0,
      rpo_submit_timeout_ms = 5000, rpo_cancel_timeout_ms = 5000\<rparr>"

record exchange_fill =
  ef_fill_id :: string
  ef_asset_id :: string
  ef_side :: side
  ef_filled_size :: string
  ef_price :: string
  ef_observed_at_ms :: u64

record exchange_sync_snapshot =
  es_authoritative :: bool
  es_resync_pending :: bool
  es_quotes :: "exchange_observed_quote list"
  es_fills :: "exchange_fill list"
  es_observed_at_ms :: u64

record exposure_delta =
  ed_asset_id :: string
  ed_side :: side
  ed_filled_size_delta :: string
  ed_notional_delta :: string
  ed_observed_at_ms :: u64

record reconciliation_outcome =
  ro_commands :: "execution_command list"
  ro_blocked :: bool
  ro_blocked_quotes :: "quote_id list"
  ro_working :: "working_quote list"
  ro_resync_required :: bool
  ro_exposure_deltas :: "exposure_delta list"

record local_order_manager =
  lom_policy :: reconciliation_policy
  lom_seen_fill_ids :: "string set"

definition local_order_manager_new :: "reconciliation_policy \<Rightarrow> local_order_manager" where
  "local_order_manager_new p = \<lparr>lom_policy = p, lom_seen_fill_ids = {}\<rparr>"

section \<open>Units\<close>

definition parse_units :: "string \<Rightarrow> u64" where
  "parse_units value =
     (let parts = split_on CHR ''.'' value;
          whole = unwrap_or 0 (parse_uint (hd parts) :: u64 option);
          frac = (case tl parts of [] \<Rightarrow> [] | f # _ \<Rightarrow> f);
          cut = take 6 frac;
          frac_units = unwrap_or 0 (parse_uint (cut @ replicate (6 - length cut) CHR ''0''))
      in saturating_add (saturating_mul whole 1000000) frac_units)"

definition format_units :: "u128 \<Rightarrow> string" where
  "format_units units =
     show_word (units div 1000000) @ ''.'' @ pad_left 6 (show_word (units mod 1000000))"

section \<open>Reconciliation\<close>

definition cooldown_elapsed :: "reconciliation_policy \<Rightarrow> working_quote \<Rightarrow> u64 \<Rightarrow> bool" where
  "cooldown_elapsed policy q now =
     unwrap_or True (map_option (\<lambda>sent. saturating_sub now sent \<ge> rpo_replace_cooldown_ms policy)
       (wq_last_command_ms q))"

definition is_material_change :: "reconciliation_policy \<Rightarrow> working_quote \<Rightarrow> desired_quote \<Rightarrow> bool" where
  "is_material_change policy w d =
     (if wq_asset_id w \<noteq> dq_asset_id d \<or> wq_side w \<noteq> dq_side d \<or> wq_order_type w \<noteq> dq_order_type d
      then True
      else
        let price_delta = abs_diff (parse_units (wq_price w)) (parse_units (dq_price d));
            size_delta = abs_diff (parse_units (wq_size w)) (parse_units (dq_size d))
        in price_delta \<ge> rpo_min_price_change_units policy \<or> size_delta \<ge> rpo_min_size_change_units policy)"

definition cancel_command ::
    "reconciliation_policy \<Rightarrow> (quote_id, desired_quote) btree \<Rightarrow> u64 \<Rightarrow> quote_id \<times> working_quote
      \<Rightarrow> execution_command option" where
  "cancel_command policy desired_by_id now e =
     (if \<not> is_cancelable (snd e) then None
      else case bt_get desired_by_id (fst e) of
             None \<Rightarrow> Some (Cancel (fst e))
           | Some d \<Rightarrow>
               if is_material_change policy (snd e) d \<and> cooldown_elapsed policy (snd e) now
               then Some (Cancel (fst e)) else None)"

definition place_command ::
    "reconciliation_policy \<Rightarrow> (quote_id, working_quote) btree \<Rightarrow> u64 \<Rightarrow> quote_id \<times> desired_quote
      \<Rightarrow> execution_command option" where
  "place_command policy working_by_id now e =
     (case bt_get working_by_id (fst e) of
        None \<Rightarrow> Some (Place (snd e))
      | Some w \<Rightarrow>
          if \<not> is_cancelable w then Some (Place (snd e))
          else if is_material_change policy w (snd e) \<and> cooldown_elapsed policy w now
          then Some (Place (snd e)) else None)"

definition outcome_of :: "execution_command list \<Rightarrow> bool \<Rightarrow> quote_id list \<Rightarrow> working_quote list \<Rightarrow> reconciliation_outcome" where
  "outcome_of commands blocked blocked_quotes working =
     \<lparr>ro_commands = commands, ro_blocked = blocked, ro_blocked_quotes = blocked_quotes,
      ro_working = working, ro_resync_required = False, ro_exposure_deltas = []\<rparr>"

definition reconcile ::
    "local_order_manager \<Rightarrow> desired_quotes \<Rightarrow> working_quote list \<Rightarrow> u64 \<Rightarrow> reconciliation_outcome" where
  "reconcile mgr desired working now =
     (let blocked_quotes = map wq_quote_id (filter blocks_convergence working)
      in if blocked_quotes \<noteq> [] then outcome_of [] True blocked_quotes working
         else
           let desired_by_id = bt_collect (map (\<lambda>d. (dq_quote_id d, d)) (dqs_quotes desired));
               working_by_id = bt_collect (map (\<lambda>w. (wq_quote_id w, w)) working)
           in if desired_by_id = [] \<and> list_ex is_cancelable working
              then outcome_of [CancelAll] False [] working
              else outcome_of
                (List.map_filter (cancel_command (lom_policy mgr) desired_by_id now) working_by_id @
                 List.map_filter (place_command (lom_policy mgr) working_by_id now) desired_by_id)
                False [] working)"

section \<open>Fills\<close>

definition exposure_of_fill :: "exchange_fill \<Rightarrow> exposure_delta" where
  "exposure_of_fill fill =
     (let notional_units = (ucast (parse_units (ef_price fill)) :: u128) * ucast (parse_units (ef_filled_size fill))
      in \<lparr>ed_asset_id = ef_asset_id fill, ed_side = ef_side fill,
          ed_filled_size_delta = format_units (ucast (parse_units (ef_filled_size fill))),
          ed_notional_delta = format_units (notional_units div 1000000),
          ed_observed_at_ms = ef_observed_at_ms fill\<rparr>)"

fun collect_fills :: "string set \<Rightarrow> exchange_fill list \<Rightarrow> string set \<times> exposure_delta list" where
  "collect_fills seen [] = (seen, [])"
| "collect_fills seen (f # fs) =
     (if ef_fill_id f \<in> seen then collect_fills seen fs
      else case collect_fills (insert (ef_fill_id f) seen) fs of
             (seen', ds) \<Rightarrow> (seen', exposure_of_fill f # ds))"

definition collect_new_exposure_deltas ::
    "local_order_manager \<Rightarrow> exchange_sync_snapshot \<Rightarrow> local_order_manager \<times> exposure_delta list" where
  "collect_new_exposure_deltas mgr snap =
     (case collect_fills (lom_seen_fill_ids mgr) (es_fills snap) of
        (seen, ds) \<Rightarrow> (mgr\<lparr>lom_seen_fill_ids := seen\<rparr>, ds))"

section \<open>Reconciliation with the exchange\<close>

text \<open>The loop over the synchronised quotes: the observations not yet used and the resync flag.\<close>

definition sync_quote ::
    "reconciliation_policy \<Rightarrow> exchange_sync_snapshot \<Rightarrow> u64
      \<Rightarrow> (quote_id, exchange_observed_quote) btree \<Rightarrow> working_quote
      \<Rightarrow> (quote_id, exchange_observed_quote) btree \<times> working_quote \<times> bool" where
  "sync_quote policy snap now observed q =
     (case mark_unknown_if_timed_out q (rpo_submit_timeout_ms policy) (rpo_cancel_timeout_ms policy) now of
        (q1, timed_out) \<Rightarrow>
          (case bt_get observed (wq_quote_id q1) of
             Some obs \<Rightarrow>
               (bt_remove (wq_quote_id q1) observed, apply_exchange_observation q1 obs, timed_out)
           | None \<Rightarrow>
               if es_authoritative snap then
                 (case apply_authoritative_absence q1 (es_observed_at_ms snap) of
                    (q2, missing) \<Rightarrow> (observed, q2, timed_out \<or> missing))
               else (observed, q1, timed_out)))"

fun sync_quotes ::
    "reconciliation_policy \<Rightarrow> exchange_sync_snapshot \<Rightarrow> u64
      \<Rightarrow> (quote_id, exchange_observed_quote) btree \<Rightarrow> working_quote list \<Rightarrow> working_quote list \<times> bool" where
  "sync_quotes policy snap now observed [] = ([], False)"
| "sync_quotes policy snap now observed (q # qs) =
     (case sync_quote policy snap now observed q of
        (observed', q', r) \<Rightarrow>
          (case sync_quotes policy snap now observed' qs of (qs', rs) \<Rightarrow> (q' # qs', r \<or> rs)))"

definition reconcile_with_exchange ::
    "local_order_manager \<Rightarrow> desired_quotes \<Rightarrow> working_quote list \<Rightarrow> exchange_sync_snapshot \<Rightarrow> u64
      \<Rightarrow> local_order_manager \<times> reconciliation_outcome" where
  "reconcile_with_exchange mgr desired working snap now =
     (case collect_new_exposure_deltas mgr snap of
        (mgr', deltas) \<Rightarrow>
          if es_resync_pending snap then
            let synchronized = map (\<lambda>q. if is_cancelable q
                  then mark_reconnect_stale q (es_observed_at_ms snap) else q) working
            in (mgr', \<lparr>ro_commands = [], ro_blocked = True,
                 ro_blocked_quotes = map wq_quote_id (filter blocks_convergence synchronized),
                 ro_working = synchronized, ro_resync_required = True, ro_exposure_deltas = deltas\<rparr>)
          else
            let observed_by_id = bt_collect (map (\<lambda>o'. (eo_quote_id o', o')) (es_quotes snap));
                (synchronized, resync) = sync_quotes (lom_policy mgr) snap now observed_by_id working;
                outcome = reconcile mgr desired synchronized now
            in (mgr', outcome\<lparr>ro_working := synchronized,
                 ro_resync_required := resync \<or> ro_blocked outcome,
                 ro_exposure_deltas := deltas\<rparr>))"

text \<open>The trait \<open>ExchangeStateProvider\<close> is its one method.\<close>

definition reconcile_against_exchange ::
    "local_order_manager \<Rightarrow> desired_quotes \<Rightarrow> working_quote list \<Rightarrow> (unit \<Rightarrow> exchange_sync_snapshot) \<Rightarrow> u64
      \<Rightarrow> local_order_manager \<times> reconciliation_outcome" where
  "reconcile_against_exchange mgr desired working provider now =
     reconcile_with_exchange mgr desired working (provider ()) now"

section \<open>Lookups of quotes\<close>

definition lookup_by :: "('a \<Rightarrow> string) \<Rightarrow> 'a list \<Rightarrow> string \<Rightarrow> 'a option" where
  "lookup_by f xs i = map_of (map (\<lambda>x. (f x, x)) xs) i"

lemma lookup_by_simps [simp]:
  "lookup_by f [] i = None" "lookup_by f (x # xs) i = (if f x = i then Some x else lookup_by f xs i)"
  by (simp_all add: lookup_by_def)

lemma lookup_by_Some: "distinct (map f xs) \<Longrightarrow> lookup_by f xs i = Some x \<longleftrightarrow> x \<in> set xs \<and> f x = i"
  by (auto simp: lookup_by_def map_of_eq_Some_iff comp_def)

lemma lookup_by_None: "lookup_by f xs i = None \<longleftrightarrow> i \<notin> f ` set xs"
  by (auto simp: lookup_by_def map_of_eq_None_iff image_image)

lemma map_of_rev_distinct: "distinct (map fst xs) \<Longrightarrow> map_of (rev xs) k = map_of xs k"
  by (metis (no_types) distinct_rev map_of_eq_Some_iff not_Some_eq rev_map set_rev)

lemma by_id_lookup:
  assumes "distinct (map f xs)"
  shows "bt_get (bt_collect (map (\<lambda>x. (f x, x)) xs)) i = lookup_by f xs i"
proof -
  have "distinct (map fst (map (\<lambda>x. (f x, x)) xs))" using assms by (simp add: comp_def)
  from map_of_rev_distinct [OF this] show ?thesis by (simp add: bt_get_collect lookup_by_def)
qed

lemma by_id_entries:
  fixes f :: "'a \<Rightarrow> string"
  assumes "distinct (map f xs)"
  shows "(i, x) \<in> set (bt_collect (map (\<lambda>x. (f x, x)) xs)) \<longleftrightarrow> x \<in> set xs \<and> f x = i"
  using by_id_lookup [OF assms, of i] lookup_by_Some [OF assms, of i x]
  by (simp add: bt_get_iff_entry [symmetric])

lemma by_id_filter:
  fixes f :: "'a \<Rightarrow> string"
  assumes "distinct (map f xs)"
  defines "m \<equiv> bt_collect (map (\<lambda>x. (f x, x)) xs)"
  shows "set (map snd (filter (\<lambda>e. P (snd e)) m)) = {x \<in> set xs. P x}"
    "map f (map snd (filter (\<lambda>e. P (snd e)) m)) = map fst (filter (\<lambda>e. P (snd e)) m)"
    "set (map fst (filter (\<lambda>e. P (snd e)) m)) = f ` {x \<in> set xs. P x}"
proof -
  have e: "(i, x) \<in> set m \<longleftrightarrow> x \<in> set xs \<and> f x = i" for i x
    unfolding m_def by (rule by_id_entries [OF assms(1)])
  show vals: "set (map snd (filter (\<lambda>e. P (snd e)) m)) = {x \<in> set xs. P x}"
  proof (intro equalityI subsetI)
    fix x assume "x \<in> {x \<in> set xs. P x}"
    then have "(f x, x) \<in> set (filter (\<lambda>e. P (snd e)) m)" using e by simp
    then show "x \<in> set (map snd (filter (\<lambda>e. P (snd e)) m))" by (metis image_eqI set_map snd_conv)
  qed (auto simp: e)
  show keys: "map f (map snd (filter (\<lambda>e. P (snd e)) m)) = map fst (filter (\<lambda>e. P (snd e)) m)"
    using e by (auto simp: list.map_comp intro!: map_cong)
  show "set (map fst (filter (\<lambda>e. P (snd e)) m)) = f ` {x \<in> set xs. P x}"
    unfolding keys [symmetric] using vals by (simp only: set_map)
qed

lemma by_id_filter_Nil:
  fixes f :: "'a \<Rightarrow> string"
  assumes "distinct (map f xs)" and "\<And>x. x \<in> set xs \<Longrightarrow> \<not> P x"
  shows "filter (\<lambda>e. P (snd e)) (bt_collect (map (\<lambda>x. (f x, x)) xs)) = []"
  using by_id_filter(1) [OF assms(1), of P] assms(2) by (auto simp: filter_empty_conv)

lemma by_id_Nil:
  fixes f :: "'a \<Rightarrow> string"
  shows "bt_collect (map (\<lambda>x. (f x, x)) xs) = [] \<longleftrightarrow> xs = []"
proof
  assume "bt_collect (map (\<lambda>x. (f x, x)) xs) = []"
  then have "map_of (rev (map (\<lambda>x. (f x, x)) xs)) i = None" for i
    by (metis bt_get_collect bt_get_Nil)
  then have "f x \<notin> f ` set xs" for x by (simp add: map_of_eq_None_iff image_image)
  then show "xs = []" by (cases xs) auto
qed (simp add: bt_collect_def)

section \<open>Which commands a reconciliation issues\<close>

text \<open>A working quote is given up when nobody wants it any more or it must be replaced; a desired quote
  is placed when it has no live order or its order must be replaced.\<close>

definition replaces :: "reconciliation_policy \<Rightarrow> u64 \<Rightarrow> working_quote \<Rightarrow> desired_quote \<Rightarrow> bool" where
  "replaces policy now w d \<longleftrightarrow> is_material_change policy w d \<and> cooldown_elapsed policy w now"

definition gives_up :: "reconciliation_policy \<Rightarrow> desired_quote list \<Rightarrow> u64 \<Rightarrow> working_quote \<Rightarrow> bool" where
  "gives_up policy ds now w \<longleftrightarrow> is_cancelable w \<and>
     (case lookup_by dq_quote_id ds (wq_quote_id w) of None \<Rightarrow> True | Some d \<Rightarrow> replaces policy now w d)"

definition places :: "reconciliation_policy \<Rightarrow> working_quote list \<Rightarrow> u64 \<Rightarrow> desired_quote \<Rightarrow> bool" where
  "places policy ws now d \<longleftrightarrow>
     (case lookup_by wq_quote_id ws (dq_quote_id d) of
        None \<Rightarrow> True | Some w \<Rightarrow> \<not> is_cancelable w \<or> replaces policy now w d)"

lemma map_filter_map_filter:
  "(\<And>e. e \<in> set xs \<Longrightarrow> f e = (if P e then Some (g e) else None)) \<Longrightarrow> List.map_filter f xs = map g (filter P xs)"
  by (induction xs) (auto simp: List.map_filter_def)

lemma reconcile_form:
  assumes dd: "distinct (map dq_quote_id (dqs_quotes desired))" and dw: "distinct (map wq_quote_id working)"
    and nb: "filter blocks_convergence working = []"
    and live: "dqs_quotes desired \<noteq> [] \<or> \<not> list_ex is_cancelable working"
  shows "reconcile mgr desired working now = outcome_of
    (map (Cancel \<circ> fst) (filter (\<lambda>e. gives_up (lom_policy mgr) (dqs_quotes desired) now (snd e))
        (bt_collect (map (\<lambda>w. (wq_quote_id w, w)) working))) @
     map (Place \<circ> snd) (filter (\<lambda>e. places (lom_policy mgr) working now (snd e))
        (bt_collect (map (\<lambda>d. (dq_quote_id d, d)) (dqs_quotes desired)))))
    False [] working"
proof -
  let ?db = "bt_collect (map (\<lambda>d. (dq_quote_id d, d)) (dqs_quotes desired))"
  let ?wb = "bt_collect (map (\<lambda>w. (wq_quote_id w, w)) working)"
  have c: "List.map_filter (cancel_command (lom_policy mgr) ?db now) ?wb =
      map (Cancel \<circ> fst) (filter (\<lambda>e. gives_up (lom_policy mgr) (dqs_quotes desired) now (snd e)) ?wb)"
  proof (rule map_filter_map_filter)
    fix e assume "e \<in> set ?wb"
    then have "fst e = wq_quote_id (snd e)" using by_id_entries [OF dw, of "fst e" "snd e"] by simp
    then show "cancel_command (lom_policy mgr) ?db now e =
        (if gives_up (lom_policy mgr) (dqs_quotes desired) now (snd e) then Some ((Cancel \<circ> fst) e) else None)"
      by (simp add: cancel_command_def gives_up_def replaces_def by_id_lookup [OF dd] split: option.split)
  qed
  have p: "List.map_filter (place_command (lom_policy mgr) ?wb now) ?db =
      map (Place \<circ> snd) (filter (\<lambda>e. places (lom_policy mgr) working now (snd e)) ?db)"
  proof (rule map_filter_map_filter)
    fix e assume "e \<in> set ?db"
    then have "fst e = dq_quote_id (snd e)" using by_id_entries [OF dd, of "fst e" "snd e"] by simp
    then show "place_command (lom_policy mgr) ?wb now e =
        (if places (lom_policy mgr) working now (snd e) then Some ((Place \<circ> snd) e) else None)"
      by (simp add: place_command_def places_def replaces_def by_id_lookup [OF dw] split: option.split)
  qed
  have "\<not> (?db = [] \<and> list_ex is_cancelable working)"
    using live by_id_Nil [of dq_quote_id "dqs_quotes desired"] by blast
  with nb c p show ?thesis by (auto simp: reconcile_def Let_def)
qed


definition sample_desired :: "string \<Rightarrow> desired_quotes" where
  "sample_desired price = desired_quotes_single (desired_quote_new ''q'' ''a'' Buy price ''5'' GTC)"


section \<open>Reconciliation converges\<close>

text \<open>What the exchange makes of a command once it is done.\<close>

definition fulfil :: "u64 \<Rightarrow> working_quote list \<Rightarrow> execution_command \<Rightarrow> working_quote list" where
  "fulfil now ws c =
     (case c of
        Place d \<Rightarrow> filter (\<lambda>w. wq_quote_id w \<noteq> dq_quote_id d) ws @ [pending_submit d now]
      | Cancel i \<Rightarrow> map (\<lambda>w. if wq_quote_id w = i then mark_canceled w now else w) ws
      | CancelAll \<Rightarrow> map (\<lambda>w. if is_cancelable w then mark_canceled w now else w) ws)"

abbreviation look :: "working_quote list \<Rightarrow> string \<Rightarrow> working_quote option" where
  "look \<equiv> lookup_by wq_quote_id"

lemma canceled_id [simp]: "wq_quote_id (mark_canceled w now) = wq_quote_id w"
  by (simp add: mark_canceled_def)

lemma canceled_dead [simp]: "\<not> is_cancelable (mark_canceled w now)" "\<not> blocks_convergence (mark_canceled w now)"
  by (simp_all add: mark_canceled_def is_cancelable_def blocks_convergence_def)

lemma canceled_fix: "mark_canceled w now = w \<Longrightarrow> \<not> is_cancelable w"
  by (metis canceled_dead(1))

lemma submitted [simp]: "wq_quote_id (pending_submit d now) = dq_quote_id d"
    "is_cancelable (pending_submit d now)" "\<not> blocks_convergence (pending_submit d now)"
  by (simp_all add: pending_submit_def is_cancelable_def blocks_convergence_def)

lemma look_map:
  "(\<And>w. wq_quote_id (f w) = wq_quote_id w) \<Longrightarrow> look (map f ws) i = map_option f (look ws i)"
  by (induction ws) (auto simp: lookup_by_def)

lemma look_place:
  "wq_quote_id w = j \<Longrightarrow> look (filter (\<lambda>w. wq_quote_id w \<noteq> j) ws @ [w]) i = (if i = j then Some w else look ws i)"
  by (induction ws) (auto simp: lookup_by_def)

lemma look_fulfil:
  "look (fulfil now ws (Cancel j)) i = map_option (\<lambda>w. if i = j then mark_canceled w now else w) (look ws i)"
  "look (fulfil now ws (Place d)) i = (if i = dq_quote_id d then Some (pending_submit d now) else look ws i)"
proof -
  have "wq_quote_id w = i" if "look ws i = Some w" for w
    using map_of_SomeD [OF that [unfolded lookup_by_def]] by auto
  then show "look (fulfil now ws (Cancel j)) i = map_option (\<lambda>w. if i = j then mark_canceled w now else w) (look ws i)"
    using look_map [of "\<lambda>w. if wq_quote_id w = j then mark_canceled w now else w" ws i]
    by (cases "look ws i") (auto simp: fulfil_def)
  show "look (fulfil now ws (Place d)) i = (if i = dq_quote_id d then Some (pending_submit d now) else look ws i)"
    by (simp add: fulfil_def look_place)
qed

lemma look_cancels:
  "look (foldl (fulfil now) ws (map Cancel is)) i =
     map_option (\<lambda>w. if i \<in> set is then mark_canceled w now else w) (look ws i)"
proof (induction "is" arbitrary: ws)
  case (Cons j js)
  have idem: "mark_canceled (mark_canceled w now) now = mark_canceled w now" for w
    by (simp add: mark_canceled_def)
  show ?case using Cons.IH [of "fulfil now ws (Cancel j)"]
    by (auto simp: look_fulfil option.map_comp comp_def idem intro: option.map_cong)
qed (simp add: option.map_ident)

lemma look_places:
  "distinct (map dq_quote_id ds) \<Longrightarrow>
   look (foldl (fulfil now) ws (map Place ds)) i =
     (case lookup_by dq_quote_id ds i of None \<Rightarrow> look ws i | Some d \<Rightarrow> Some (pending_submit d now))"
proof (induction ds arbitrary: ws)
  case (Cons d ds)
  have "lookup_by dq_quote_id ds (dq_quote_id d) = None" using Cons.prems by (simp add: lookup_by_None)
  with Cons show ?case by (auto simp: look_fulfil split: option.split)
qed simp

lemma fulfil_distinct: "distinct (map wq_quote_id ws) \<Longrightarrow> distinct (map wq_quote_id (fulfil now ws c))"
proof (cases c)
  case (Place d)
  assume "distinct (map wq_quote_id ws)"
  then have "distinct (map wq_quote_id (filter (\<lambda>w. wq_quote_id w \<noteq> dq_quote_id d) ws))"
    by (rule distinct_map_filter)
  then show ?thesis by (auto simp: Place fulfil_def)
qed (simp_all add: fulfil_def comp_def if_distrib [of wq_quote_id] cong: if_cong)

lemma fulfil_unblocked:
  "filter blocks_convergence ws = [] \<Longrightarrow> filter blocks_convergence (fulfil now ws c) = []"
  by (cases c) (auto simp: fulfil_def filter_empty_conv)

lemma fold_fulfil:
  assumes "distinct (map wq_quote_id ws)" and "filter blocks_convergence ws = []"
  shows "distinct (map wq_quote_id (foldl (fulfil now) ws cs)) \<and> filter blocks_convergence (foldl (fulfil now) ws cs) = []"
  using assms by (induction cs arbitrary: ws) (auto simp: fulfil_distinct fulfil_unblocked)

lemma submitted_not_material:
  "0 < rpo_min_price_change_units policy \<Longrightarrow> 0 < rpo_min_size_change_units policy \<Longrightarrow>
   \<not> is_material_change policy (pending_submit d now) d"
  by (auto simp: is_material_change_def pending_submit_def abs_diff_def not_le Let_def)

lemma reconcile_quiet:
  assumes "distinct (map dq_quote_id (dqs_quotes desired))" and "distinct (map wq_quote_id ws)"
    and "filter blocks_convergence ws = []"
    and "\<And>i w. look ws i = Some w \<Longrightarrow> is_cancelable w \<Longrightarrow>
      \<exists>d. lookup_by dq_quote_id (dqs_quotes desired) i = Some d \<and> \<not> is_material_change (lom_policy mgr) w d"
    and "\<And>i d. lookup_by dq_quote_id (dqs_quotes desired) i = Some d \<Longrightarrow> \<exists>w. look ws i = Some w \<and> is_cancelable w"
  shows "ro_commands (reconcile mgr desired ws now) = []"
proof -
  have dead: "dqs_quotes desired \<noteq> [] \<or> \<not> list_ex is_cancelable ws"
  proof (rule ccontr)
    assume "\<not> ?thesis"
    then obtain w where "dqs_quotes desired = []" "w \<in> set ws" "is_cancelable w" by (auto simp: list_ex_iff)
    with assms(4) [of "wq_quote_id w" w] lookup_by_Some [OF assms(2)] show False by simp
  qed
  have "\<not> gives_up (lom_policy mgr) (dqs_quotes desired) now w" if "w \<in> set ws" for w
  proof -
    have "look ws (wq_quote_id w) = Some w" using that lookup_by_Some [OF assms(2)] by blast
    from assms(4) [OF this] show ?thesis by (auto simp: gives_up_def replaces_def)
  qed
  moreover have "\<not> places (lom_policy mgr) ws now d" if "d \<in> set (dqs_quotes desired)" for d
  proof -
    have "lookup_by dq_quote_id (dqs_quotes desired) (dq_quote_id d) = Some d"
      using that lookup_by_Some [OF assms(1)] by blast
    with assms(5) [OF this] obtain w where w: "look ws (dq_quote_id d) = Some w" "is_cancelable w" by blast
    with assms(4) [OF w] \<open>lookup_by dq_quote_id (dqs_quotes desired) (dq_quote_id d) = Some d\<close> show ?thesis
      by (auto simp: places_def replaces_def)
  qed
  ultimately show ?thesis
    by (simp add: reconcile_form [OF assms(1-3) dead] outcome_of_def by_id_filter_Nil [OF assms(2)]
        by_id_filter_Nil [OF assms(1)])
qed

lemma cancel_all_quiet:
  assumes "dqs_quotes desired = []" and "distinct (map wq_quote_id ws)" and "filter blocks_convergence ws = []"
    and "\<not> list_ex is_cancelable ws"
  shows "ro_commands (reconcile mgr desired ws now) = []"
  by (rule reconcile_quiet)
    (use assms in \<open>auto simp: list_ex_iff lookup_by_Some [OF assms(2)]\<close>)

text \<open>The quotes after a fulfilled round, id by id.\<close>

lemma round_lookup:
  assumes "distinct (map dq_quote_id (dqs_quotes desired))" and "distinct (map wq_quote_id working)"
    and "filter blocks_convergence working = []"
    and "dqs_quotes desired \<noteq> [] \<or> \<not> list_ex is_cancelable working"
  shows "look (foldl (fulfil t) working (ro_commands (reconcile mgr desired working now))) i =
    (case lookup_by dq_quote_id (dqs_quotes desired) i of
       Some d \<Rightarrow> if places (lom_policy mgr) working now d then Some (pending_submit d t) else look working i
     | None \<Rightarrow> map_option (\<lambda>w. if is_cancelable w then mark_canceled w t else w) (look working i))"
proof -
  let ?p = "lom_policy mgr" and ?ds = "dqs_quotes desired"
  define js where "js = map fst (filter (\<lambda>e. gives_up ?p ?ds now (snd e)) (bt_collect (map (\<lambda>w. (wq_quote_id w, w)) working)))"
  define qs where "qs = map snd (filter (\<lambda>e. places ?p working now (snd e)) (bt_collect (map (\<lambda>d. (dq_quote_id d, d)) ?ds)))"
  have cmds: "ro_commands (reconcile mgr desired working now) = map Cancel js @ map Place qs"
    by (simp add: reconcile_form [OF assms] outcome_of_def js_def qs_def)
  have js: "set js = wq_quote_id ` {w \<in> set working. gives_up ?p ?ds now w}"
    unfolding js_def by (rule by_id_filter(3) [OF assms(2)])
  have qs: "set qs = {d \<in> set ?ds. places ?p working now d}"
    unfolding qs_def by (rule by_id_filter(1) [OF assms(1)])
  have "distinct (map fst (filter (\<lambda>e. places ?p working now (snd e)) (bt_collect (map (\<lambda>d. (dq_quote_id d, d)) ?ds))))"
    by (intro distinct_map_filter bt_distinct) simp
  then have dqs: "distinct (map dq_quote_id qs)"
    unfolding qs_def by_id_filter(2) [OF assms(1), of "places ?p working now"] .
  have qs_look: "lookup_by dq_quote_id qs i = (case lookup_by dq_quote_id ?ds i of
      Some d \<Rightarrow> if places ?p working now d then Some d else None | None \<Rightarrow> None)"
  proof (cases "lookup_by dq_quote_id qs i")
    case None
    then show ?thesis using qs lookup_by_Some [OF assms(1), of i]
      by (auto simp: lookup_by_None image_iff split: option.split)
  next
    case (Some d)
    then have "lookup_by dq_quote_id ?ds i = Some d" "places ?p working now d"
      using lookup_by_Some [OF dqs] lookup_by_Some [OF assms(1)] qs by auto
    with Some show ?thesis by simp
  qed
  have js_iff: "i \<in> set js \<longleftrightarrow> gives_up ?p ?ds now w" if "look working i = Some w" for w
  proof -
    have w: "w \<in> set working" "wq_quote_id w = i" using that lookup_by_Some [OF assms(2)] by blast+
    have "v = w" if "v \<in> set working" "wq_quote_id v = i" for v
      using that w assms(2) by (metis distinct_map inj_onD)
    then show ?thesis unfolding js using w by blast
  qed
  have id: "wq_quote_id w = i" if "look working i = Some w" for w
    using that lookup_by_Some [OF assms(2)] by blast
  have did: "dq_quote_id d = i" if "lookup_by dq_quote_id ?ds i = Some d" for d
    using that lookup_by_Some [OF assms(1)] by blast
  show ?thesis
    unfolding cmds foldl_append look_places [OF dqs] look_cancels qs_look
    by (cases "look working i"; cases "lookup_by dq_quote_id ?ds i")
      (simp_all add: js_iff id did gives_up_def places_def)
qed



section \<open>Fills are counted once\<close>

text \<open>The fills of a run of snapshots that bring a new id, in the order they were seen.\<close>

fun first_fills :: "string set \<Rightarrow> exchange_fill list \<Rightarrow> exchange_fill list" where
  "first_fills seen [] = []"
| "first_fills seen (f # fs) =
     (if ef_fill_id f \<in> seen then first_fills seen fs
      else f # first_fills (insert (ef_fill_id f) seen) fs)"

lemma collect_fills_first:
  "collect_fills seen fs = (seen \<union> ef_fill_id ` set fs, map exposure_of_fill (first_fills seen fs))"
  by (induction seen fs rule: first_fills.induct) auto

lemma first_fills_append:
  "first_fills seen (fs @ gs) = first_fills seen fs @ first_fills (seen \<union> ef_fill_id ` set fs) gs"
  by (induction seen fs rule: first_fills.induct) (auto simp: insert_absorb)

lemma first_fills_ids:
  "distinct (map ef_fill_id (first_fills seen fs)) \<and> ef_fill_id ` set (first_fills seen fs) = ef_fill_id ` set fs - seen"
  by (induction seen fs rule: first_fills.induct) auto

text \<open>A run of synchronisations: the exposure of all its outcomes.\<close>

fun sync_run ::
    "local_order_manager \<Rightarrow> (desired_quotes \<times> working_quote list \<times> exchange_sync_snapshot \<times> u64) list
      \<Rightarrow> local_order_manager \<times> exposure_delta list" where
  "sync_run mgr [] = (mgr, [])"
| "sync_run mgr ((desired, working, snap, now) # rest) =
     (case reconcile_with_exchange mgr desired working snap now of
        (mgr', outcome) \<Rightarrow> (case sync_run mgr' rest of
          (mgr'', ds) \<Rightarrow> (mgr'', ro_exposure_deltas outcome @ ds)))"

lemma reconcile_with_exchange_fills:
  "fst (reconcile_with_exchange mgr desired working snap now) =
     mgr\<lparr>lom_seen_fill_ids := lom_seen_fill_ids mgr \<union> ef_fill_id ` set (es_fills snap)\<rparr>"
  "ro_exposure_deltas (snd (reconcile_with_exchange mgr desired working snap now)) =
     map exposure_of_fill (first_fills (lom_seen_fill_ids mgr) (es_fills snap))"
  by (simp_all add: reconcile_with_exchange_def collect_new_exposure_deltas_def collect_fills_first Let_def
      split: prod.split)

lemma sync_run_fills:
  "snd (sync_run mgr inputs) =
     map exposure_of_fill (first_fills (lom_seen_fill_ids mgr) (concat (map (\<lambda>(_, _, snap, _). es_fills snap) inputs)))"
proof (induction inputs arbitrary: mgr)
  case (Cons x inputs)
  obtain desired working snap now where x: "x = (desired, working, snap, now)" by (metis prod.exhaust)
  show ?case
    using Cons.IH [of "fst (reconcile_with_exchange mgr desired working snap now)"]
    by (simp add: x case_prod_beta reconcile_with_exchange_fills first_fills_append)
qed simp

text \<open>
  C9. No fill is counted twice: over any run of synchronisations of a new manager the exposure reported
  is that of the fills in the order they were first seen, one for each fill id the snapshots hold.
\<close>

theorem fills_counted_once:
  "let fills = concat (map (\<lambda>(_, _, snap, _). es_fills snap) inputs) in
   snd (sync_run (local_order_manager_new policy) inputs) = map exposure_of_fill (first_fills {} fills) \<and>
   distinct (map ef_fill_id (first_fills {} fills)) \<and>
   set (map ef_fill_id (first_fills {} fills)) = set (map ef_fill_id fills)"
  using sync_run_fills [of "local_order_manager_new policy" inputs] first_fills_ids [of "{}"]
  by (simp add: local_order_manager_new_def Let_def)

section \<open>No command on uncertain ground\<close>

lemma reconcile_blocked:
  "list_ex blocks_convergence ws \<Longrightarrow> ro_commands (reconcile mgr desired ws now) = [] \<and> ro_blocked (reconcile mgr desired ws now)"
  by (auto simp: reconcile_def Let_def outcome_of_def list_ex_iff filter_empty_conv)

text \<open>
  C8. While the exchange is being resynchronised, or any quote is stale after the synchronisation, the
  manager issues no command, and says that it is blocked and needs a resync.
\<close>

theorem no_command_while_uncertain:
  assumes "es_resync_pending snap \<or>
    list_ex blocks_convergence (ro_working (snd (reconcile_with_exchange mgr desired working snap now)))"
  shows "ro_commands (snd (reconcile_with_exchange mgr desired working snap now)) = [] \<and>
    ro_blocked (snd (reconcile_with_exchange mgr desired working snap now)) \<and>
    ro_resync_required (snd (reconcile_with_exchange mgr desired working snap now))"
proof (cases "es_resync_pending snap")
  case True
  then show ?thesis by (simp add: reconcile_with_exchange_def Let_def split: prod.split)
next
  case False
  obtain qs r where qs: "sync_quotes (lom_policy mgr) snap now
      (bt_collect (map (\<lambda>ob. (eo_quote_id ob, ob)) (es_quotes snap))) working = (qs, r)" by fastforce
  with False assms have "list_ex blocks_convergence qs"
    by (simp add: reconcile_with_exchange_def Let_def split: prod.splits)
  from reconcile_blocked [OF this, of mgr desired now] False qs show ?thesis
    by (simp add: reconcile_with_exchange_def Let_def split: prod.split)
qed

theorem no_command_while_uncertain_witness:
  "ro_commands (snd (reconcile_with_exchange (local_order_manager_new default_policy) (sample_desired ''0.4'') []
     \<lparr>es_authoritative = True, es_resync_pending = True, es_quotes = [], es_fills = [], es_observed_at_ms = 3\<rparr> 4)) = []"
  using no_command_while_uncertain [of "\<lparr>es_authoritative = True, es_resync_pending = True, es_quotes = [],
      es_fills = [], es_observed_at_ms = 3\<rparr>" "local_order_manager_new default_policy" "sample_desired ''0.4''" "[]" 4]
  by simp

text \<open>
  An order of the exchange that no local quote knows is left alone: with no working quote the snapshot's
  quotes change nothing, an authoritative snapshot included.
\<close>

lemma unknown_orders_ignored:
  assumes "\<not> es_resync_pending snap"
  shows "ro_commands (snd (reconcile_with_exchange mgr desired [] snap now)) =
    ro_commands (snd (reconcile_with_exchange mgr desired [] (snap\<lparr>es_quotes := []\<rparr>) now))"
  using assms by (simp add: reconcile_with_exchange_def collect_new_exposure_deltas_def split: prod.split)

section \<open>Units\<close>

text \<open>
  The text of a reported amount is the amount: parsing what was printed gives back every 64-bit
  number of units.
\<close>

theorem parse_units_format_units: "parse_units (format_units (ucast (u :: u64))) = u"
proof -
  let ?w = "unat u div 1000000" and ?r = "unat u mod 1000000"
  have uc: "unat (ucast u :: u128) = unat u"
    by (simp add: unsigned_ucast_eq take_bit_nat_eq_self less_le_trans [OF unat_u64_less])
  have w64: "?w < 2 ^ 64" by (rule le_less_trans [OF div_le_dividend]) simp
  let ?f = "pad_left 6 (show_nat ?r)"
  have "length (show_nat ?r) \<le> Suc 5" by (rule length_show_nat_le) simp
  then have len: "length ?f = 6" by (simp add: pad_left_facts)
  have digs: "all_digits (show_nat ?w)" "all_digits ?f" by (simp_all add: pad_left_facts)
  have fu: "format_units (ucast u) = show_nat ?w @ CHR ''.'' # ?f"
    by (simp add: format_units_def show_word_def unat_div unat_mod uc)
  have split: "split_on CHR ''.'' (show_nat ?w @ CHR ''.'' # ?f) = [show_nat ?w, ?f]"
    using digs by (simp add: split_on_append split_on_none all_digits_no_dot)
  have pw: "parse_uint (show_nat ?w) = Some (of_nat ?w :: u64)"
    using w64 by (simp add: parse_uint_digits)
  have "?f \<noteq> []" using len by auto
  then have pf: "parse_uint ?f = Some (of_nat ?r :: u64)"
    using digs(2) by (simp add: parse_uint_digits pad_left_facts le_less_trans [OF mod_le_divisor])
  have uw: "unat (of_nat ?w :: u64) = ?w" using w64 by (intro unat_of_nat_less) simp
  have ur: "unat (of_nat ?r :: u64) = ?r" by (intro unat_of_nat_less) (simp add: less_trans [OF mod_less_divisor])
  have "unat (saturating_add (saturating_mul (of_nat ?w) 1000000) (of_nat ?r) :: u64) = unat u"
  proof -
    have total: "?w * 1000000 + ?r = unat u" by simp
    have "unat u < 2 ^ 64" by simp
    with total have "?w * 1000000 < 2 ^ 64" "?w * 1000000 + ?r < 2 ^ 64" by linarith+
    moreover have "unat u \<le> 18446744073709551615" using unat_u64_less [of u] by linarith
    ultimately show ?thesis by (simp add: arith_facts uw ur min_absorb1 del: of_nat_div)
  qed
  then have "saturating_add (saturating_mul (of_nat ?w) 1000000) (of_nat ?r) = u"
    by (simp only: word_unat_eq_iff)
  then show ?thesis using fu split pw pf len by (simp add: parse_units_def Let_def)
qed

end
