(* ===== verification/Float64.thy ===== *)
theory Float64
  imports RustText Complex_Main
begin

text \<open>
  The binary64 numbers of Rust: rounding to nearest with ties to even, the arithmetic the program
  uses (product, difference, comparison, the cast to \<open>u64\<close>) and the text form that
  \<open>str::parse::<f64>\<close> reads. Everything computes on integers; \<open>f64_real\<close> gives the real
  value of a finite number.
\<close>

section \<open>Numbers\<close>

text \<open>
  \<open>Finite s m e\<close> is \<open>m * 2 ^ e\<close>, negated when \<open>s\<close>: a normal number has 53 significant bits, a
  subnormal one and zero the exponent \<open>-1074\<close>.
\<close>

datatype f64 = NaN | Infinity bool | Finite bool nat int

definition f64_canonical :: "f64 \<Rightarrow> bool" where
  "f64_canonical x \<longleftrightarrow>
     (case x of
        Finite s m e \<Rightarrow>
          m < 2 ^ 53 \<and> - 1074 \<le> e \<and> e \<le> 971 \<and> (2 ^ 52 \<le> m \<or> e = - 1074)
      | _ \<Rightarrow> True)"

definition f64_real :: "f64 \<Rightarrow> real" where
  "f64_real x = (case x of Finite s m e \<Rightarrow> (if s then - 1 else 1) * real m * 2 powi e | _ \<Rightarrow> 0)"

definition f64_zero :: f64 where
  "f64_zero = Finite False 0 (- 1074)"

fun f64_finite :: "f64 \<Rightarrow> bool" where
  "f64_finite (Finite s m e) = True"
| "f64_finite x = False"

section \<open>Rounding a quotient\<close>

fun bit_len :: "nat \<Rightarrow> nat" where
  "bit_len n = (if n = 0 then 0 else Suc (bit_len (n div 2)))"

declare bit_len.simps [simp del]

lemma bit_len_step: "n \<noteq> 0 \<Longrightarrow> bit_len n = Suc (bit_len (n div 2))"
  by (subst bit_len.simps) simp

lemma bit_len_numeral [simp]:
  "bit_len 0 = 0" "bit_len (Suc 0) = 1"
  "bit_len (numeral (Num.Bit0 n)) = Suc (bit_len (numeral n))"
  "bit_len (numeral (Num.Bit1 n)) = Suc (bit_len (numeral n))"
proof -
  show z: "bit_len 0 = 0" by (subst bit_len.simps) simp
  show "bit_len (Suc 0) = 1" by (subst bit_len_step) (simp_all add: z)
  show "bit_len (numeral (Num.Bit0 n)) = Suc (bit_len (numeral n))"
    by (subst bit_len_step) simp_all
  show "bit_len (numeral (Num.Bit1 n)) = Suc (bit_len (numeral n))"
    by (subst bit_len_step) simp_all
qed

definition ratio_exp :: "nat \<Rightarrow> nat \<Rightarrow> int" where
  "ratio_exp p q =
     (let d = int (bit_len p) - int (bit_len q)
      in if q * 2 ^ nat d \<le> p * 2 ^ nat (- d) then d else d - 1)"

definition round_half_even :: "nat \<Rightarrow> nat \<Rightarrow> nat" where
  "round_half_even p q =
     (let m = p div q; r = p mod q
      in if q < 2 * r \<or> (2 * r = q \<and> odd m) then m + 1 else m)"

definition finish_round :: "bool \<Rightarrow> nat \<Rightarrow> int \<Rightarrow> f64" where
  "finish_round s m e =
     (if m = 2 ^ 53 then (if 971 < e + 1 then Infinity s else Finite s (2 ^ 52) (e + 1))
      else if 971 < e then Infinity s
      else Finite s m e)"

definition round_ratio :: "bool \<Rightarrow> nat \<Rightarrow> nat \<Rightarrow> f64" where
  "round_ratio s p q =
     (if p = 0 then Finite s 0 (- 1074)
      else let e = max (ratio_exp p q - 52) (- 1074)
           in finish_round s (round_half_even (p * 2 ^ nat (- e)) (q * 2 ^ nat e)) e)"

section \<open>Arithmetic\<close>

fun f64_mul :: "f64 \<Rightarrow> f64 \<Rightarrow> f64" where
  "f64_mul NaN y = NaN"
| "f64_mul x NaN = NaN"
| "f64_mul (Infinity s) (Infinity t) = Infinity (s \<noteq> t)"
| "f64_mul (Infinity s) (Finite t m e) = (if m = 0 then NaN else Infinity (s \<noteq> t))"
| "f64_mul (Finite s m e) (Infinity t) = (if m = 0 then NaN else Infinity (s \<noteq> t))"
| "f64_mul (Finite s m e) (Finite t n f) =
     round_ratio (s \<noteq> t) (m * n * 2 ^ nat (e + f)) (2 ^ nat (- (e + f)))"

text \<open>Division by a finite number other than zero, the only division of the program.\<close>

fun f64_div :: "f64 \<Rightarrow> f64 \<Rightarrow> f64" where
  "f64_div (Finite s m e) (Finite t n f) =
     (if n = 0 then (if m = 0 then NaN else Infinity (s \<noteq> t))
      else round_ratio (s \<noteq> t) (m * 2 ^ nat (e - f)) (n * 2 ^ nat (f - e)))"
| "f64_div (Infinity s) (Finite t n f) = Infinity (s \<noteq> t)"
| "f64_div (Finite s m e) (Infinity t) = Finite (s \<noteq> t) 0 (- 1074)"
| "f64_div x y = NaN"

definition f64_of_u64 :: "u64 \<Rightarrow> f64" where
  "f64_of_u64 w = round_ratio False (unat w) 1"

definition signed_units :: "bool \<Rightarrow> nat \<Rightarrow> int \<Rightarrow> int \<Rightarrow> int" where
  "signed_units s m e base = (if s then - 1 else 1) * int m * 2 ^ nat (e - base)"

fun f64_neg :: "f64 \<Rightarrow> f64" where
  "f64_neg NaN = NaN"
| "f64_neg (Infinity s) = Infinity (\<not> s)"
| "f64_neg (Finite s m e) = Finite (\<not> s) m e"

fun f64_add :: "f64 \<Rightarrow> f64 \<Rightarrow> f64" where
  "f64_add NaN y = NaN"
| "f64_add x NaN = NaN"
| "f64_add (Infinity s) (Infinity t) = (if s = t then Infinity s else NaN)"
| "f64_add (Infinity s) (Finite t n f) = Infinity s"
| "f64_add (Finite s m e) (Infinity t) = Infinity t"
| "f64_add (Finite s m e) (Finite t n f) =
     (let b = min e f; v = signed_units s m e b + signed_units t n f b
      in if v = 0 then Finite (s \<and> t) 0 (- 1074)
         else round_ratio (v < 0) (nat \<bar>v\<bar> * 2 ^ nat b) (2 ^ nat (- b)))"

definition f64_sub :: "f64 \<Rightarrow> f64 \<Rightarrow> f64" where
  "f64_sub x y = f64_add x (f64_neg y)"

fun f64_less :: "f64 \<Rightarrow> f64 \<Rightarrow> bool" where
  "f64_less NaN y = False"
| "f64_less x NaN = False"
| "f64_less (Infinity s) (Infinity t) = (s \<and> \<not> t)"
| "f64_less (Infinity s) (Finite t n f) = s"
| "f64_less (Finite s m e) (Infinity t) = (\<not> t)"
| "f64_less (Finite s m e) (Finite t n f) =
     (signed_units s m e (min e f) < signed_units t n f (min e f))"

fun f64_le :: "f64 \<Rightarrow> f64 \<Rightarrow> bool" where
  "f64_le NaN y = False"
| "f64_le x NaN = False"
| "f64_le (Infinity s) (Infinity t) = (s \<or> \<not> t)"
| "f64_le (Infinity s) (Finite t n f) = s"
| "f64_le (Finite s m e) (Infinity t) = (\<not> t)"
| "f64_le (Finite s m e) (Finite t n f) =
     (signed_units s m e (min e f) \<le> signed_units t n f (min e f))"

text \<open>The cast \<open>x as u64\<close>: towards zero, saturating, and 0 for no number.\<close>

fun f64_to_u64 :: "f64 \<Rightarrow> u64" where
  "f64_to_u64 NaN = 0"
| "f64_to_u64 (Infinity s) = (if s then 0 else - 1)"
| "f64_to_u64 (Finite s m e) =
     (if s then 0
      else let n = m * 2 ^ nat e div 2 ^ nat (- e)
           in if n < 2 ^ 64 then of_nat n else - 1)"

section \<open>Text\<close>

text \<open>
  \<open>str::parse::<f64>\<close>: an optional sign, then digits with at most one dot and at least one digit and
  an optional exponent, or \<open>inf\<close>, \<open>infinity\<close>, \<open>nan\<close> in any case.
\<close>

definition parse_exponent :: "string \<Rightarrow> int option" where
  "parse_exponent s =
     (case s of
        [] \<Rightarrow> Some 0
      | c # r \<Rightarrow>
          if c = CHR ''e'' \<or> c = CHR ''E'' then
            (let neg = (case r of d # t \<Rightarrow> d = CHR ''-'' | [] \<Rightarrow> False);
                 ds = (case r of d # t \<Rightarrow> if d = CHR ''-'' \<or> d = CHR ''+'' then t else r | [] \<Rightarrow> r)
             in if ds \<noteq> [] \<and> all_digits ds
                then Some (if neg then - int (digits_val 0 ds) else int (digits_val 0 ds))
                else None)
          else None)"

definition parse_decimal :: "string \<Rightarrow> (nat \<times> int) option" where
  "parse_decimal s =
     (let ip = takeWhile is_digit s; r = dropWhile is_digit s;
          (fp, t) = (case r of
                       [] \<Rightarrow> ([], r)
                     | c # r' \<Rightarrow> if c = CHR ''.'' then (takeWhile is_digit r', dropWhile is_digit r')
                                 else ([], r))
      in if ip = [] \<and> fp = [] then None
         else map_option (\<lambda>x. (digits_val 0 (ip @ fp), x - int (length fp))) (parse_exponent t))"

definition round_decimal :: "bool \<Rightarrow> nat \<Rightarrow> int \<Rightarrow> f64" where
  "round_decimal s n x = round_ratio s (n * 10 ^ nat x) (10 ^ nat (- x))"

definition parse_f64 :: "string \<Rightarrow> f64 option" where
  "parse_f64 s =
     (let neg = (case s of c # r \<Rightarrow> c = CHR ''-'' | [] \<Rightarrow> False);
          t = (case s of c # r \<Rightarrow> if c = CHR ''-'' \<or> c = CHR ''+'' then r else s | [] \<Rightarrow> s)
      in case parse_decimal t of
           Some (n, x) \<Rightarrow> Some (round_decimal neg n x)
         | None \<Rightarrow>
             (let l = ascii_lowercase t
              in if l = ''nan'' then Some NaN
                 else if l = ''inf'' \<or> l = ''infinity'' then Some (Infinity neg)
                 else None))"

text \<open>\<open>format!("{:.2}", x)\<close>.\<close>

fun format_two_decimals :: "f64 \<Rightarrow> string" where
  "format_two_decimals NaN = ''NaN''"
| "format_two_decimals (Infinity s) = (if s then ''-inf'' else ''inf'')"
| "format_two_decimals (Finite s m e) =
     (let n = round_half_even (m * 2 ^ nat e * 100) (2 ^ nat (- e))
      in (if s then ''-'' else []) @ show_nat (n div 100) @ ''.'' @ pad_left 2 (show_nat (n mod 100)))"

section \<open>The exponent of a quotient\<close>

lemma bit_len_bounds:
  "0 < n \<Longrightarrow> 2 ^ (bit_len n - 1) \<le> n \<and> n < 2 ^ bit_len n \<and> 0 < bit_len n"
proof (induction n rule: bit_len.induct)
  case (1 n)
  show ?case
  proof (cases "n div 2 = 0")
    case True
    with 1 have "n = 1" by auto
    then show ?thesis by (simp add: bit_len.simps)
  next
    case False
    with 1 have IH: "2 ^ (bit_len (n div 2) - 1) \<le> n div 2" "n div 2 < 2 ^ bit_len (n div 2)"
      "0 < bit_len (n div 2)" by auto
    have eq: "bit_len n = Suc (bit_len (n div 2))" using 1 by (subst bit_len.simps) simp
    obtain k where k: "bit_len (n div 2) = Suc k" using IH(3) by (cases "bit_len (n div 2)") auto
    show ?thesis using IH 1 by (auto simp: eq k)
  qed
qed

lemma powi_split: "(2::real) powi e = 2 ^ nat e / 2 ^ nat (- e)"
proof (cases "0 \<le> e")
  case True
  then show ?thesis by (simp add: power_int_def)
next
  case False
  then show ?thesis by (simp add: power_int_def power_one_over inverse_eq_divide)
qed

lemma powi_pos [simp]: "0 < (2::real) powi e"
  by simp

lemma powi_Suc: "(2::real) powi (e + 1) = 2 * 2 powi e"
  by (subst power_int_add) auto

lemma bit_len_real:
  assumes "0 < n"
  shows "2 powi (int (bit_len n) - 1) \<le> real n" "real n < 2 powi int (bit_len n)"
proof -
  note B = bit_len_bounds [OF assms]
  have "\<exists>k. bit_len n = Suc k" using B by (intro exI [of _ "bit_len n - 1"]) linarith
  then obtain k where k: "bit_len n = Suc k" ..
  have "2 ^ k \<le> n" "n < 2 ^ Suc k" using B unfolding k diff_Suc_1 by blast+
  then have R: "real (2 ^ k) \<le> real n" "real n < real (2 ^ Suc k)"
    unfolding of_nat_le_iff of_nat_less_iff .
  have E: "int (bit_len n) - 1 = int k" "int (bit_len n) = int (Suc k)" using k by simp_all
  show "2 powi (int (bit_len n) - 1) \<le> real n"
    unfolding E(1) power_int_of_nat using R(1) unfolding of_nat_power of_nat_numeral .
  show "real n < 2 powi int (bit_len n)"
    unfolding E(2) power_int_of_nat using R(2) unfolding of_nat_power of_nat_numeral .
qed

lemma ratio_exp_bounds:
  assumes "0 < p" "0 < q"
  shows "2 powi ratio_exp p q \<le> real p / real q" "real p / real q < 2 powi (ratio_exp p q + 1)"
proof -
  define d where "d = int (bit_len p) - int (bit_len q)"
  note pr = bit_len_real [OF assms(1)] and qr = bit_len_real [OF assms(2)]
  have q0: "0 < real q" using assms by simp
  have lo: "2 powi (d - 1) \<le> real p / real q"
  proof -
    have "2 powi (d - 1) * real q \<le> 2 powi (d - 1) * 2 powi int (bit_len q)"
      using qr(2) by (intro mult_left_mono) auto
    also have "\<dots> = 2 powi ((d - 1) + int (bit_len q))"
      by (subst power_int_add) auto
    also have "\<dots> = 2 powi (int (bit_len p) - 1)" by (simp add: d_def)
    also have "\<dots> \<le> real p" by (rule pr)
    finally show ?thesis using q0 by (simp add: pos_le_divide_eq)
  qed
  have hi: "real p / real q < 2 powi (d + 1)"
  proof -
    have "real p < 2 powi int (bit_len p)" by (rule pr)
    also have "\<dots> = 2 powi ((d + 1) + (int (bit_len q) - 1))" by (simp add: d_def)
    also have "\<dots> = 2 powi (d + 1) * 2 powi (int (bit_len q) - 1)"
      by (subst power_int_add) auto
    also have "\<dots> \<le> 2 powi (d + 1) * real q" using qr(1) by (intro mult_left_mono) auto
    finally show ?thesis using q0 by (simp add: pos_divide_less_eq)
  qed
  have test: "q * 2 ^ nat d \<le> p * 2 ^ nat (- d) \<longleftrightarrow> 2 powi d \<le> real p / real q"
  proof -
    have "q * 2 ^ nat d \<le> p * 2 ^ nat (- d)
      \<longleftrightarrow> real (q * 2 ^ nat d) \<le> real (p * 2 ^ nat (- d))"
      by (simp only: of_nat_le_iff)
    also have "\<dots> \<longleftrightarrow> 2 powi d \<le> real p / real q"
      using q0 by (simp add: powi_split field_simps)
    finally show ?thesis .
  qed
  have R: "ratio_exp p q = (if 2 powi d \<le> real p / real q then d else d - 1)"
    unfolding ratio_exp_def Let_def d_def [symmetric] test ..
  show "2 powi ratio_exp p q \<le> real p / real q" using lo by (simp add: R)
  show "real p / real q < 2 powi (ratio_exp p q + 1)" using hi by (auto simp: R)
qed

section \<open>The rounding error\<close>

lemma round_half_even_error:
  assumes "0 < q"
  shows "\<bar>real (round_half_even p q) - real p / real q\<bar> \<le> 1 / 2"
proof -
  define m r where "m = p div q" and "r = p mod q"
  have p: "p = m * q + r" and r: "r < q" using assms by (simp_all add: m_def r_def)
  have v: "real p / real q = real m + real r / real q"
    using assms by (simp add: p field_simps)
  have frac: "0 \<le> real r / real q" "real r / real q < 1" using r by simp_all
  have half: "q < 2 * r \<longleftrightarrow> 1 / 2 < real r / real q"
    using assms by (simp add: less_divide_eq) linarith
  have tie: "2 * r = q \<longleftrightarrow> real r / real q = 1 / 2"
    using assms by (simp add: divide_eq_eq) linarith
  have R: "round_half_even p q = (if q < 2 * r \<or> (2 * r = q \<and> odd m) then m + 1 else m)"
    by (simp add: round_half_even_def m_def r_def Let_def)
  show ?thesis
  proof (cases "q < 2 * r \<or> (2 * r = q \<and> odd m)")
    case True
    then have "1 / 2 \<le> real r / real q" using half tie by auto
    with True frac show ?thesis by (simp add: R v)
  next
    case False
    then have "real r / real q \<le> 1 / 2" using half tie by (auto simp: not_less)
    moreover have "round_half_even p q = m" unfolding R using False by (rule if_not_P)
    ultimately show ?thesis using frac by (simp add: v)
  qed
qed

lemma round_half_even_mono_bound:
  assumes "0 < q" "real p / real q < real k"
  shows "round_half_even p q \<le> k"
proof -
  have "real p < real k * real q" using assms by (simp add: pos_divide_less_eq)
  then have "real p < real (k * q)" by simp
  then have "p < k * q" unfolding of_nat_less_iff .
  then have "p div q < k" by (simp add: div_less_iff_less_mult assms(1))
  then show ?thesis by (simp add: round_half_even_def Let_def)
qed

lemma f64_real_Finite: "f64_real (Finite s m e) = (if s then - 1 else 1) * (real m * 2 powi e)"
  by (simp add: f64_real_def)

lemma finish_round_real:
  "f64_finite (finish_round s m e) \<Longrightarrow>
   f64_real (finish_round s m e) = (if s then - 1 else 1) * (real m * 2 powi e)"
  by (auto simp: finish_round_def f64_real_Finite powi_Suc split: if_splits)

lemma scaled_ratio:
  assumes "0 < q"
  shows "real (p * 2 ^ nat (- e)) / real (q * 2 ^ nat e) = (real p / real q) / 2 powi e"
  using assms by (simp add: powi_split field_simps)

text \<open>The result of a rounding is within half a unit of its last place.\<close>

lemma round_ratio_error:
  assumes "0 < p" "0 < q" and fin: "f64_finite (round_ratio False p q)"
  shows "\<bar>f64_real (round_ratio False p q) - real p / real q\<bar>
           \<le> max (2 powi (- 53) * (real p / real q)) (2 powi (- 1075))"
proof -
  define e where "e = max (ratio_exp p q - 52) (- 1074)"
  define v where "v = real p / real q"
  define m where "m = round_half_even (p * 2 ^ nat (- e)) (q * 2 ^ nat e)"
  have RR: "round_ratio False p q = finish_round False m e"
    using assms(1) by (simp add: round_ratio_def Let_def e_def m_def)
  have real: "f64_real (round_ratio False p q) = real m * 2 powi e"
    using finish_round_real [of False m e] fin by (simp add: RR)
  have "\<bar>real m - v / 2 powi e\<bar> \<le> 1 / 2"
    using round_half_even_error [of "q * 2 ^ nat e" "p * 2 ^ nat (- e)"] assms(2)
    unfolding scaled_ratio [OF assms(2)] m_def v_def by simp
  then have "\<bar>real m - v / 2 powi e\<bar> * 2 powi e \<le> 1 / 2 * 2 powi e"
    by (intro mult_right_mono) auto
  moreover have "\<bar>real m - v / 2 powi e\<bar> * 2 powi e = \<bar>real m * 2 powi e - v\<bar>"
  proof -
    have "\<bar>real m - v / 2 powi e\<bar> * 2 powi e = \<bar>(real m - v / 2 powi e) * 2 powi e\<bar>"
      by (simp add: abs_mult)
    also have "(real m - v / 2 powi e) * 2 powi e = real m * 2 powi e - v"
      by (simp add: left_diff_distrib)
    finally show ?thesis .
  qed
  ultimately have E: "\<bar>real m * 2 powi e - v\<bar> \<le> 2 powi (e - 1)"
    by (simp add: power_int_diff)
  have "2 powi (e - 1) \<le> max (2 powi (- 53) * v) (2 powi (- 1075))"
  proof (cases "- 1074 \<le> ratio_exp p q - 52")
    case True
    then have "(2::real) powi (e - 1) = 2 powi (- 53) * 2 powi ratio_exp p q"
      by (subst power_int_add [symmetric]) (auto simp: e_def)
    also have "\<dots> \<le> 2 powi (- 53) * v"
      unfolding v_def by (intro mult_left_mono ratio_exp_bounds(1) assms) simp
    finally show ?thesis by (rule max.coboundedI1)
  next
    case False
    then have "e - 1 = - 1075" by (simp add: e_def)
    then show ?thesis unfolding \<open>e - 1 = - 1075\<close> by (intro max.cobounded2)
  qed
  with E show ?thesis by (simp only: real v_def)
qed

text \<open>Every rounding is a canonical number, and a finite one below \<open>2 ^ 1023\<close>.\<close>

lemma scaled_bounds:
  assumes "0 < p" "0 < q"
  defines "e \<equiv> max (ratio_exp p q - 52) (- 1074)"
  shows "(real p / real q) / 2 powi e < 2 ^ 53"
    and "- 1074 < e \<Longrightarrow> 2 ^ 52 \<le> (real p / real q) / 2 powi e"
proof -
  have "real p / real q < 2 powi (ratio_exp p q + 1)" by (rule ratio_exp_bounds(2) [OF assms(1,2)])
  also have "\<dots> \<le> 2 powi (53 + e)" by (intro power_int_increasing) (auto simp: e_def)
  also have "\<dots> = 2 powi 53 * 2 powi e" by (subst power_int_add) auto
  finally show "(real p / real q) / 2 powi e < 2 ^ 53"
    by (subst pos_divide_less_eq) simp_all
  assume "- 1074 < e"
  then have e: "ratio_exp p q = 52 + e" by (simp add: e_def)
  have "2 powi 52 * 2 powi e = (2::real) powi ratio_exp p q"
    unfolding e by (subst power_int_add) auto
  also have "\<dots> \<le> real p / real q" by (rule ratio_exp_bounds(1) [OF assms(1,2)])
  finally show "2 ^ 52 \<le> (real p / real q) / 2 powi e"
    by (subst pos_le_divide_eq) simp_all
qed

lemma round_half_even_lower:
  assumes "0 < q" "real k \<le> real p / real q"
  shows "k \<le> round_half_even p q"
proof -
  have "real k * real q \<le> real p" using assms by (simp add: le_divide_eq)
  then have "real (k * q) \<le> real p" by simp
  then have "k * q \<le> p" unfolding of_nat_le_iff .
  then have "k \<le> p div q" by (simp add: less_eq_div_iff_mult_less_eq assms(1))
  then show ?thesis by (simp add: round_half_even_def Let_def)
qed

lemma round_ratio_significand:
  assumes "0 < p" "0 < q"
  defines "e \<equiv> max (ratio_exp p q - 52) (- 1074)"
  defines "m \<equiv> round_half_even (p * 2 ^ nat (- e)) (q * 2 ^ nat e)"
  shows "m \<le> 2 ^ 53" and "- 1074 < e \<Longrightarrow> 2 ^ 52 \<le> m" and "round_ratio s p q = finish_round s m e"
proof -
  have q: "0 < q * 2 ^ nat e" using assms(2) by simp
  note B = scaled_bounds [OF assms(1,2), folded e_def]
  show "m \<le> 2 ^ 53"
    unfolding m_def by (rule round_half_even_mono_bound [OF q])
      (unfold scaled_ratio [OF assms(2)] of_nat_power of_nat_numeral, rule B)
  show "2 ^ 52 \<le> m" if "- 1074 < e"
    unfolding m_def by (rule round_half_even_lower [OF q])
      (unfold scaled_ratio [OF assms(2)] of_nat_power of_nat_numeral, rule B(2) [OF that])
  show "round_ratio s p q = finish_round s m e"
    using assms(1) by (simp add: round_ratio_def Let_def e_def m_def)
qed

lemma finish_round_canonical:
  assumes "m \<le> 2 ^ 53" "- 1074 \<le> e" "- 1074 < e \<Longrightarrow> 2 ^ 52 \<le> m"
  shows "f64_canonical (finish_round s m e)"
proof (cases "e = - 1074")
  case True
  with assms(1) show ?thesis by (auto simp: finish_round_def f64_canonical_def)
next
  case False
  with assms show ?thesis by (auto simp: finish_round_def f64_canonical_def)
qed

lemma round_ratio_canonical: "0 < q \<Longrightarrow> f64_canonical (round_ratio s p q)"
proof (cases "p = 0")
  case True
  then show ?thesis by (simp add: round_ratio_def f64_canonical_def)
next
  case False
  assume "0 < q"
  with False show ?thesis
    by (subst round_ratio_significand(3))
      (auto intro!: finish_round_canonical round_ratio_significand(1,2))
qed

lemma round_ratio_finite:
  assumes "0 < q" "real p / real q < 2 powi 1023"
  shows "f64_finite (round_ratio s p q)"
proof (cases "p = 0")
  case True
  then show ?thesis by (simp add: round_ratio_def)
next
  case False
  then have p: "0 < p" by simp
  have "2 powi ratio_exp p q < (2::real) powi 1023"
    using ratio_exp_bounds(1) [OF p assms(1)] assms(2) by (rule order.strict_trans1)
  then have "ratio_exp p q < 1023"
    by (meson less_le_not_le linorder_le_less_linear power_int_increasing one_le_numeral)
  then show ?thesis
    by (subst round_ratio_significand(3) [OF p assms(1)]) (auto simp: finish_round_def)
qed

text \<open>The relative error of a rounding in the normal range, and zero exactly.\<close>

definition f64_unit :: real where
  "f64_unit = 2 powi (- 53)"

definition f64_approx :: "f64 \<Rightarrow> real \<Rightarrow> real \<Rightarrow> bool" where
  "f64_approx x v u \<longleftrightarrow>
     (\<exists>m e. x = Finite False m e) \<and> v * (1 - u) \<le> f64_real x \<and> f64_real x \<le> v * (1 + u)"

definition normal_range :: "real \<Rightarrow> bool" where
  "normal_range v \<longleftrightarrow> v = 0 \<or> 2 powi (- 1022) \<le> v \<and> v < 2 powi 1023"

lemma round_ratio_sign: "f64_finite (round_ratio s p q) \<Longrightarrow> \<exists>m e. round_ratio s p q = Finite s m e"
  by (auto simp: round_ratio_def finish_round_def Let_def split: if_splits)

lemma round_ratio_approx:
  assumes q: "0 < q" and n: "normal_range (real p / real q)"
  shows "f64_approx (round_ratio False p q) (real p / real q) f64_unit"
proof (cases "p = 0")
  case True
  then show ?thesis by (simp add: round_ratio_def f64_approx_def f64_real_def)
next
  case False
  define v where "v = real p / real q"
  from False have p: "0 < p" by simp
  then have v0: "0 < v" using q by (simp add: v_def)
  with n have lo: "2 powi (- 1022) \<le> v" and hi: "v < 2 powi 1023"
    by (auto simp: normal_range_def v_def)
  have fin: "f64_finite (round_ratio False p q)" using q hi by (simp only: v_def round_ratio_finite)
  have "(2::real) powi (- 1075) = f64_unit * 2 powi (- 1022)"
    unfolding f64_unit_def by (subst power_int_add [symmetric]) auto
  also have "\<dots> \<le> f64_unit * v" using lo by (intro mult_left_mono) (auto simp: f64_unit_def)
  finally have "max (f64_unit * v) (2 powi (- 1075)) = f64_unit * v" by (rule max_absorb1)
  then have "\<bar>f64_real (round_ratio False p q) - v\<bar> \<le> f64_unit * v"
    using round_ratio_error [OF p q fin] by (simp only: v_def f64_unit_def)
  then show ?thesis
    using round_ratio_sign [OF fin] by (simp add: f64_approx_def v_def [symmetric] algebra_simps abs_le_iff)
qed

lemma f64_approx_range:
  assumes "f64_approx x v u" "0 \<le> v" "u \<le> 1 / 2"
  shows "v / 2 \<le> f64_real x" "f64_real x \<le> 2 * v"
proof -
  have "v * (1 / 2) \<le> v * (1 - u)" by (rule mult_left_mono) (use assms in auto)
  moreover have "v * (1 + u) \<le> v * 2" by (rule mult_left_mono) (use assms in auto)
  ultimately show "v / 2 \<le> f64_real x" "f64_real x \<le> 2 * v" using assms(1) by (auto simp: f64_approx_def)
qed

lemma f64_mul_real:
  "f64_mul (Finite False m e) (Finite False n f) = round_ratio False (m * n * 2 ^ nat (e + f)) (2 ^ nat (- (e + f)))"
  "real (m * n * 2 ^ nat (e + f)) / real (2 ^ nat (- (e + f)))
     = f64_real (Finite False m e) * f64_real (Finite False n f)"
proof -
  have "real (m * n * 2 ^ nat (e + f)) / real (2 ^ nat (- (e + f))) = real m * real n * 2 powi (e + f)"
    by (simp add: powi_split)
  also have "(2::real) powi (e + f) = 2 powi e * 2 powi f" by (rule power_int_add) simp
  finally show "real (m * n * 2 ^ nat (e + f)) / real (2 ^ nat (- (e + f)))
     = f64_real (Finite False m e) * f64_real (Finite False n f)"
    by (simp add: f64_real_def)
qed simp

text \<open>Values far from the ends of the range, whose products are normal.\<close>

definition moderate :: "real \<Rightarrow> bool" where
  "moderate v \<longleftrightarrow> v = 0 \<or> 2 powi (- 300) \<le> v \<and> v \<le> 2 powi 300"

lemma normal_range_mul:
  assumes "f64_approx x v a" "f64_approx y w b" "moderate v" "moderate w" "a \<le> 1 / 2" "b \<le> 1 / 2"
  shows "normal_range (f64_real x * f64_real y)"
proof (cases "v = 0 \<or> w = 0")
  case True
  then have "f64_real x = 0 \<or> f64_real y = 0" using assms(1,2) by (auto simp: f64_approx_def)
  then show ?thesis by (auto simp: normal_range_def)
next
  case False
  have p: "(0::real) < 2 powi (- 300)" by simp
  from False assms(3,4) have b: "2 powi (- 300) \<le> v" "v \<le> 2 powi 300" "2 powi (- 300) \<le> w" "w \<le> 2 powi 300"
    by (auto simp: moderate_def)
  then have v: "0 \<le> v" "0 \<le> w" using p by linarith+
  note rx = f64_approx_range [OF assms(1) v(1) assms(5)] and ry = f64_approx_range [OF assms(2) v(2) assms(6)]
  have e: "(2::real) powi (- 301) = 2 powi (- 300) / 2" "(2::real) powi 301 = 2 * 2 powi 300"
    by simp_all
  have "(2::real) powi (- 301) \<le> v / 2" "(2::real) powi (- 301) \<le> w / 2" using b e(1) by linarith+
  with rx(1) ry(1) have lo: "2 powi (- 301) \<le> f64_real x" "2 powi (- 301) \<le> f64_real y" by linarith+
  have "2 * v \<le> 2 powi 301" "2 * w \<le> 2 powi 301" using b e(2) by linarith+
  with rx(2) ry(2) have hi: "f64_real x \<le> 2 powi 301" "f64_real y \<le> 2 powi 301" by linarith+
  have z: "(0::real) \<le> 2 powi (- 301)" "(0::real) \<le> 2 powi 301" by simp_all
  have nn: "0 \<le> f64_real x" "0 \<le> f64_real y" using lo z(1) by linarith+
  have "(2::real) powi (- 1022) \<le> 2 powi (- 301) * 2 powi (- 301)"
    by (subst power_int_add [symmetric]) (auto intro!: power_int_increasing)
  also have "\<dots> \<le> f64_real x * f64_real y" using lo nn z by (intro mult_mono)
  finally have L: "2 powi (- 1022) \<le> f64_real x * f64_real y" .
  have "f64_real x * f64_real y \<le> 2 powi 301 * 2 powi 301" using hi nn z by (intro mult_mono)
  also have "\<dots> < (2::real) powi 1023"
    by (subst power_int_add [symmetric]) (auto intro!: power_int_strict_increasing)
  finally show ?thesis using L by (simp only: normal_range_def simp_thms)
qed

text \<open>The product of two approximations approximates the product.\<close>

lemma f64_mul_approx:
  assumes x: "f64_approx x v a" and y: "f64_approx y w b"
    and nonneg: "0 \<le> v" "0 \<le> w" "0 \<le> a" "a \<le> 1" "0 \<le> b" "b \<le> 1"
    and range: "normal_range (f64_real x * f64_real y)"
    and up: "(1 + a) * (1 + b) * (1 + f64_unit) \<le> 1 + c"
    and down: "1 - c \<le> (1 - a) * (1 - b) * (1 - f64_unit)"
  shows "f64_approx (f64_mul x y) (v * w) c"
proof -
  obtain m e n f where xy: "x = Finite False m e" "y = Finite False n f"
    using x y by (auto simp: f64_approx_def)
  have u: "0 \<le> f64_unit" "f64_unit \<le> 1" by (simp_all add: f64_unit_def)
  have A: "f64_approx (f64_mul x y) (f64_real x * f64_real y) f64_unit"
    unfolding xy f64_mul_real
    using round_ratio_approx [of "2 ^ nat (- (e + f))" "m * n * 2 ^ nat (e + f)"] range
    unfolding f64_mul_real xy by simp
  have bx: "v * (1 - a) \<le> f64_real x" "f64_real x \<le> v * (1 + a)" using x by (auto simp: f64_approx_def)
  have byy: "w * (1 - b) \<le> f64_real y" "f64_real y \<le> w * (1 + b)" using y by (auto simp: f64_approx_def)
  have pos: "0 \<le> v * (1 - a)" "0 \<le> w * (1 - b)" using nonneg by auto
  then have pos': "0 \<le> f64_real x" "0 \<le> f64_real y" using bx byy by linarith+
  have lo: "(v * (1 - a)) * (w * (1 - b)) \<le> f64_real x * f64_real y"
    using bx(1) byy(1) pos by (intro mult_mono) auto
  have hi: "f64_real x * f64_real y \<le> (v * (1 + a)) * (w * (1 + b))"
    using bx(2) byy(2) pos' nonneg by (intro mult_mono) auto
  have "(v * w) * (1 - c) \<le> (v * w) * ((1 - a) * (1 - b) * (1 - f64_unit))"
    using nonneg down by (intro mult_left_mono) auto
  also have "\<dots> = ((v * (1 - a)) * (w * (1 - b))) * (1 - f64_unit)" by (simp add: mult.assoc mult.left_commute)
  also have "\<dots> \<le> (f64_real x * f64_real y) * (1 - f64_unit)"
    using lo u by (intro mult_right_mono) auto
  also have "\<dots> \<le> f64_real (f64_mul x y)" using A by (simp add: f64_approx_def)
  finally have L: "(v * w) * (1 - c) \<le> f64_real (f64_mul x y)" .
  have "f64_real (f64_mul x y) \<le> (f64_real x * f64_real y) * (1 + f64_unit)"
    using A by (simp add: f64_approx_def)
  also have "\<dots> \<le> ((v * (1 + a)) * (w * (1 + b))) * (1 + f64_unit)"
    using hi u by (intro mult_right_mono) auto
  also have "\<dots> = (v * w) * ((1 + a) * (1 + b) * (1 + f64_unit))" by (simp add: mult.assoc mult.left_commute)
  also have "\<dots> \<le> (v * w) * (1 + c)" using nonneg up by (intro mult_left_mono) auto
  finally show ?thesis using L A by (simp add: f64_approx_def)
qed

text \<open>The cast truncates.\<close>

lemma real_div_bounds:
  assumes "0 < (d::nat)"
  shows "real (k div d) \<le> real k / real d" "real k / real d < real (k div d) + 1"
proof -
  have "real k = real (k div d * d + k mod d)" by simp
  then have k: "real k = real (k div d) * real d + real (k mod d)"
    unfolding of_nat_add of_nat_mult .
  have m: "real (k mod d) < real d" using assms by simp
  show "real (k div d) \<le> real k / real d"
    using assms k by (subst pos_le_divide_eq) auto
  show "real k / real d < real (k div d) + 1"
    using assms k m by (subst pos_divide_less_eq) (auto simp: distrib_right)
qed

lemma f64_to_u64_approx:
  assumes x: "f64_approx x v u" and small: "v * (1 + u) < 2 ^ 64"
  shows "v * (1 - u) - 1 < real (unat (f64_to_u64 x))" "real (unat (f64_to_u64 x)) \<le> v * (1 + u)"
proof -
  obtain m e where xe: "x = Finite False m e" using x by (auto simp: f64_approx_def)
  define n where "n = m * 2 ^ nat e div 2 ^ nat (- e)"
  have r: "f64_real x = real (m * 2 ^ nat e) / real (2 ^ nat (- e))"
    by (simp add: xe f64_real_def powi_split)
  have n1: "real n \<le> f64_real x" and n2: "f64_real x < real n + 1"
    unfolding r n_def by (rule real_div_bounds; simp)+
  have "real n < 2 ^ 64" using n1 x small by (auto simp: f64_approx_def)
  then have "real n < real (2 ^ 64)" by simp
  then have lt: "n < 2 ^ 64" unfolding of_nat_less_iff .
  then have "unat (f64_to_u64 x) = n" by (simp add: xe n_def [symmetric] Let_def unat_of_nat_less)
  with n1 n2 x show "v * (1 - u) - 1 < real (unat (f64_to_u64 x))"
    "real (unat (f64_to_u64 x)) \<le> v * (1 + u)"
    by (auto simp: f64_approx_def)
qed

text \<open>Evaluation of a rounding and of a text at a concrete input.\<close>

lemmas round_eval = round_ratio_def ratio_exp_def round_half_even_def finish_round_def Let_def

lemmas parse_eval =
  parse_f64_def parse_decimal_def parse_exponent_def round_decimal_def is_digit_def digit_val_def

end
