(* ===== verification/FloatOrder.thy ===== *)
theory FloatOrder
  imports Float64
begin

text \<open>
  The order of binary64 numbers: comparisons are those of the real values, and rounding, products and the
  cast to an integer are monotone. Also the rounding to an integer, \<open>f64::round\<close>, half away from zero.
\<close>

fun f64_round :: "f64 \<Rightarrow> f64" where
  "f64_round NaN = NaN"
| "f64_round (Infinity s) = Infinity s"
| "f64_round (Finite s m e) =
     round_ratio s ((2 * m * 2 ^ nat e + 2 ^ nat (- e)) div (2 * 2 ^ nat (- e))) 1"

section \<open>Comparisons\<close>

lemma signed_units_real:
  "b \<le> e \<Longrightarrow> real_of_int (signed_units s m e b) * 2 powi b = f64_real (Finite s m e)"
proof -
  assume "b \<le> e"
  then have "(2::real) ^ nat (e - b) * 2 powi b = 2 powi (e - b) * 2 powi b" by (simp add: power_int_def)
  also have "\<dots> = 2 powi e" by (subst power_int_add [symmetric]) auto
  finally have "(2::real) ^ nat (e - b) * 2 powi b = 2 powi e" .
  then show ?thesis by (simp add: signed_units_def f64_real_def mult.assoc)
qed

lemma f64_le_Finite:
  "f64_le (Finite s m e) (Finite t n f) \<longleftrightarrow> f64_real (Finite s m e) \<le> f64_real (Finite t n f)"
proof -
  define b where "b = min e f"
  have "f64_le (Finite s m e) (Finite t n f) \<longleftrightarrow>
      real_of_int (signed_units s m e b) \<le> real_of_int (signed_units t n f b)"
    by (simp add: b_def)
  also have "\<dots> \<longleftrightarrow> real_of_int (signed_units s m e b) * 2 powi b \<le> real_of_int (signed_units t n f b) * 2 powi b"
    by simp
  also have "\<dots> \<longleftrightarrow> f64_real (Finite s m e) \<le> f64_real (Finite t n f)"
    by (simp only: signed_units_real b_def min.cobounded1 min.cobounded2)
  finally show ?thesis .
qed

lemma f64_less_Finite:
  "f64_less (Finite s m e) (Finite t n f) \<longleftrightarrow> f64_real (Finite s m e) < f64_real (Finite t n f)"
proof -
  define b where "b = min e f"
  have "f64_less (Finite s m e) (Finite t n f) \<longleftrightarrow>
      real_of_int (signed_units s m e b) < real_of_int (signed_units t n f b)"
    by (simp add: b_def)
  also have "\<dots> \<longleftrightarrow> real_of_int (signed_units s m e b) * 2 powi b < real_of_int (signed_units t n f b) * 2 powi b"
    by simp
  also have "\<dots> \<longleftrightarrow> f64_real (Finite s m e) < f64_real (Finite t n f)"
    by (simp only: signed_units_real b_def min.cobounded1 min.cobounded2)
  finally show ?thesis .
qed

section \<open>Monotone rounding\<close>

lemma round_half_even_cong:
  assumes "0 < q" "0 < q'" "real p / real q = real p' / real q'"
  shows "round_half_even p q = round_half_even p' q'"
proof -
  have cross: "p * q' = p' * q"
  proof -
    have "real p * real q' = real p' * real q" using assms by (simp add: frac_eq_eq)
    then have "real (p * q') = real (p' * q)" by simp
    then show ?thesis unfolding of_nat_eq_iff .
  qed
  have fl: "\<lfloor>real p / real q\<rfloor> = int (p div q)" "\<lfloor>real p' / real q'\<rfloor> = int (p' div q')"
    by (simp_all add: floor_divide_of_nat_eq)
  then have d: "p div q = p' div q'" using assms(3) by simp
  have m: "(p mod q) * q' = (p' mod q') * q"
  proof -
    have "p * q' = p div q * q * q' + (p mod q) * q'" by (metis add_mult_distrib div_mult_mod_eq)
    moreover have "p' * q = p' div q' * q' * q + (p' mod q') * q" by (metis add_mult_distrib div_mult_mod_eq)
    moreover have "p div q * q * q' = p' div q' * q' * q" by (simp add: d)
    ultimately show ?thesis using cross by linarith
  qed
  have e2: "2 * (p mod q) * q' = 2 * (p' mod q') * q" using m by (simp only: mult.assoc)
  have "q < 2 * (p mod q) \<longleftrightarrow> q * q' < 2 * (p mod q) * q'" using assms(2) by simp
  also have "\<dots> \<longleftrightarrow> q' * q < 2 * (p' mod q') * q" by (simp only: e2 mult.commute [of q q'])
  also have "\<dots> \<longleftrightarrow> q' < 2 * (p' mod q')" using assms(1) by simp
  finally have up: "q < 2 * (p mod q) \<longleftrightarrow> q' < 2 * (p' mod q')" .
  have "2 * (p mod q) = q \<longleftrightarrow> 2 * (p mod q) * q' = q * q'" using assms(2) by simp
  also have "\<dots> \<longleftrightarrow> 2 * (p' mod q') * q = q' * q" by (simp only: e2 mult.commute [of q q'])
  also have "\<dots> \<longleftrightarrow> 2 * (p' mod q') = q'" using assms(1) by simp
  finally have tie: "2 * (p mod q) = q \<longleftrightarrow> 2 * (p' mod q') = q'" .
  show ?thesis by (simp add: round_half_even_def Let_def d up tie)
qed

lemma round_half_even_mono:
  assumes "0 < q" "0 < q'" "real p / real q \<le> real p' / real q'"
  shows "round_half_even p q \<le> round_half_even p' q'"
proof (rule ccontr)
  assume "\<not> ?thesis"
  then have "real (round_half_even p' q') + 1 \<le> real (round_half_even p q)" by linarith
  then have "real p / real q = real p' / real q'"
    using round_half_even_error [OF assms(1), of p] round_half_even_error [OF assms(2), of p'] assms(3)
    by linarith
  from round_half_even_cong [OF assms(1,2) this] \<open>\<not> ?thesis\<close> show False by simp
qed

text \<open>The value of a rounding, infinite ones included, as a significand and an exponent.\<close>

definition round_units :: "nat \<Rightarrow> nat \<Rightarrow> real" where
  "round_units p q =
     (let e = max (ratio_exp p q - 52) (- 1074)
      in real (round_half_even (p * 2 ^ nat (- e)) (q * 2 ^ nat e)) * 2 powi e)"

lemma ratio_exp_mono:
  assumes "0 < p" "0 < q" "0 < p'" "0 < q'" "real p / real q \<le> real p' / real q'"
  shows "ratio_exp p q \<le> ratio_exp p' q'"
proof (rule ccontr)
  assume "\<not> ?thesis"
  then have "(2::real) powi (ratio_exp p' q' + 1) \<le> 2 powi ratio_exp p q"
    by (intro power_int_increasing) auto
  with ratio_exp_bounds(1) [OF assms(1,2)] ratio_exp_bounds(2) [OF assms(3,4)] assms(5)
  show False by linarith
qed

lemma round_units_mono:
  assumes "0 < p" "0 < q" "0 < p'" "0 < q'" "real p / real q \<le> real p' / real q'"
  shows "round_units p q \<le> round_units p' q'"
proof -
  define e where "e = max (ratio_exp p q - 52) (- 1074)"
  define e' where "e' = max (ratio_exp p' q' - 52) (- 1074)"
  define m where "m = round_half_even (p * 2 ^ nat (- e)) (q * 2 ^ nat e)"
  define m' where "m' = round_half_even (p' * 2 ^ nat (- e')) (q' * 2 ^ nat e')"
  have "e \<le> e'" using ratio_exp_mono [OF assms] by (auto simp: e_def e'_def)
  have "real m * 2 powi e \<le> real m' * 2 powi e'"
  proof (cases "e = e'")
    case True
    have "real (p * 2 ^ nat (- e)) / real (q * 2 ^ nat e) \<le> real (p' * 2 ^ nat (- e)) / real (q' * 2 ^ nat e)"
      unfolding scaled_ratio [OF assms(2)] scaled_ratio [OF assms(4)]
      using assms(5) by (intro divide_right_mono) simp_all
    then have "m \<le> m'"
      unfolding m_def m'_def True [symmetric] using assms(2,4) by (intro round_half_even_mono) simp_all
    then show ?thesis unfolding True by (intro mult_right_mono) simp_all
  next
    case False
    with \<open>e \<le> e'\<close> have "e + 1 \<le> e'" "- 1074 < e'" by (auto simp: e_def)
    have "m \<le> 2 ^ 53" unfolding m_def e_def by (rule round_ratio_significand(1) [OF assms(1,2)])
    then have "real m \<le> real (2 ^ 53)" unfolding of_nat_le_iff .
    then have "real m * 2 powi e \<le> 2 powi 53 * 2 powi e" by (intro mult_right_mono) simp_all
    also have "\<dots> = 2 powi (53 + e)" by (subst power_int_add) auto
    also have "\<dots> \<le> 2 powi (52 + e')" using \<open>e + 1 \<le> e'\<close> by (intro power_int_increasing) auto
    also have "\<dots> = 2 powi 52 * 2 powi e'" by (subst power_int_add) auto
    also have "\<dots> \<le> real m' * 2 powi e'"
    proof -
      have "2 ^ 52 \<le> m'"
        unfolding m'_def e'_def
        by (rule round_ratio_significand(2) [OF assms(3,4)]) (use \<open>- 1074 < e'\<close> e'_def in simp)
      then have "real (2 ^ 52) \<le> real m'" unfolding of_nat_le_iff .
      then show ?thesis by (intro mult_right_mono) simp_all
    qed
    finally show ?thesis .
  qed
  then show ?thesis by (simp only: round_units_def e_def e'_def m_def m'_def Let_def)
qed

lemma round_ratio_real:
  assumes "0 < p" "0 < q" "f64_finite (round_ratio False p q)"
  shows "f64_real (round_ratio False p q) = round_units p q"
  using assms(3) finish_round_real [of False]
  unfolding round_ratio_significand(3) [OF assms(1,2)] round_units_def Let_def by simp

text \<open>A rounding is infinite when it reaches \<open>2 ^ 1024\<close>.\<close>

lemma finish_round_finite:
  assumes "m \<le> 2 ^ 53" "- 1074 < e \<Longrightarrow> 2 ^ 52 \<le> m"
  shows "f64_finite (finish_round s m e) \<longleftrightarrow> real m * 2 powi e < 2 powi 1024"
proof (cases "971 < e")
  case True
  then have "2 ^ 52 \<le> m" using assms(2) by simp
  then have "real (2 ^ 52) \<le> real m" unfolding of_nat_le_iff .
  then have "2 powi 52 * 2 powi e \<le> real m * 2 powi e" by (intro mult_right_mono) simp_all
  moreover have "(2::real) powi 1024 \<le> 2 powi (52 + e)" using True by (intro power_int_increasing) auto
  moreover have "(2::real) powi (52 + e) = 2 powi 52 * 2 powi e" by (subst power_int_add) auto
  ultimately have "\<not> real m * 2 powi e < 2 powi 1024" by linarith
  with True show ?thesis by (simp add: finish_round_def)
next
  case False
  show ?thesis
  proof (cases "m = 2 ^ 53")
    case True
    then have "real m * 2 powi e = 2 powi (53 + e)" by (subst power_int_add) auto
    moreover have "(2::real) powi (53 + e) < 2 powi 1024 \<longleftrightarrow> 53 + e < 1024"
    proof
      assume "(2::real) powi (53 + e) < 2 powi 1024"
      then show "53 + e < 1024"
        using power_int_increasing [of 1024 "53 + e" "2::real"] by linarith
    next
      assume "53 + e < 1024"
      then show "(2::real) powi (53 + e) < 2 powi 1024" by (rule power_int_strict_increasing) simp
    qed
    ultimately show ?thesis using True by (auto simp: finish_round_def)
  next
    case m: False
    with assms(1) have "m < 2 ^ 53" by simp
    then have "real m < real (2 ^ 53)" unfolding of_nat_less_iff .
    then have "real m * 2 powi e < 2 powi 53 * 2 powi e" by (intro mult_strict_right_mono) simp_all
    also have "\<dots> = 2 powi (53 + e)" by (subst power_int_add) auto
    also have "\<dots> \<le> 2 powi 1024" using False by (intro power_int_increasing) auto
    finally show ?thesis using m False by (simp add: finish_round_def)
  qed
qed

lemma round_ratio_finite_iff:
  assumes "0 < p" "0 < q"
  shows "f64_finite (round_ratio False p q) \<longleftrightarrow> round_units p q < 2 powi 1024"
  unfolding round_ratio_significand(3) [OF assms] round_units_def Let_def
  by (rule finish_round_finite [OF round_ratio_significand(1,2) [OF assms]])

fun f64_nonneg :: "f64 \<Rightarrow> bool" where
  "f64_nonneg NaN = False"
| "f64_nonneg (Infinity s) = (\<not> s)"
| "f64_nonneg (Finite s m e) = (\<not> s)"

lemma f64_nonneg_cases:
  "f64_nonneg x \<Longrightarrow> x = Infinity False \<or> (\<exists>m e. x = Finite False m e)"
  by (cases x) auto

lemma round_ratio_nonneg [simp]: "f64_nonneg (round_ratio False p q)"
  by (simp add: round_ratio_def finish_round_def Let_def)

lemma f64_le_Infinity: "f64_nonneg x \<Longrightarrow> f64_le x (Infinity False)"
  by (cases x) auto

lemma f64_real_nonneg: "f64_nonneg x \<Longrightarrow> 0 \<le> f64_real x"
  by (cases x) (auto simp: f64_real_def)

text \<open>Rounding is monotone.\<close>

lemma round_ratio_mono:
  assumes "0 < q" "0 < q'" "real p / real q \<le> real p' / real q'"
  shows "f64_le (round_ratio False p q) (round_ratio False p' q')"
proof (cases "f64_finite (round_ratio False p' q')")
  case False
  then have "round_ratio False p' q' = Infinity False"
    using f64_nonneg_cases [OF round_ratio_nonneg, of p' q'] by auto
  then show ?thesis by (simp add: f64_le_Infinity)
next
  case True
  then obtain n f where y: "round_ratio False p' q' = Finite False n f" using round_ratio_sign by blast
  show ?thesis
  proof (cases "p = 0")
    case True
    then have "round_ratio False p q = Finite False 0 (- 1074)" by (simp add: round_ratio_def)
    then show ?thesis unfolding y by (simp add: f64_le_Finite f64_real_def del: f64_le.simps)
  next
    case False
    then have p: "0 < p" by simp
    then have "0 < real p / real q" using assms(1) by simp
    with assms(3) have "0 < real p' / real q'" by linarith
    then have p': "0 < p'" using assms(2) by (simp add: zero_less_divide_iff)
    have u: "round_units p q \<le> round_units p' q'" using round_units_mono p p' assms by blast
    then have fin: "f64_finite (round_ratio False p q)"
      using True round_ratio_finite_iff p p' assms(1,2) by (meson order.strict_trans1)
    then obtain m e where x: "round_ratio False p q = Finite False m e" using round_ratio_sign by blast
    have "f64_real (round_ratio False p q) \<le> f64_real (round_ratio False p' q')"
      using round_ratio_real p p' assms(1,2) fin True u by simp
    then show ?thesis unfolding x y f64_le_Finite .
  qed
qed

lemma f64_mul_mono:
  assumes "f64_le (Finite False m e) (Finite False m' e')"
  shows "f64_le (f64_mul (Finite False m e) (Finite False n f)) (f64_mul (Finite False m' e') (Finite False n f))"
  unfolding f64_mul_real(1)
proof (rule round_ratio_mono)
  have "f64_real (Finite False m e) * f64_real (Finite False n f)
      \<le> f64_real (Finite False m' e') * f64_real (Finite False n f)"
    using assms f64_real_nonneg [of "Finite False n f"]
    unfolding f64_le_Finite by (intro mult_right_mono) simp_all
  then show "real (m * n * 2 ^ nat (e + f)) / real (2 ^ nat (- (e + f)))
      \<le> real (m' * n * 2 ^ nat (e' + f)) / real (2 ^ nat (- (e' + f)))"
    unfolding f64_mul_real(2) .
qed simp_all

text \<open>The cast and the rounding to an integer.\<close>

lemma f64_real_ratio: "f64_real (Finite False m e) = real (m * 2 ^ nat e) / real (2 ^ nat (- e))"
  by (simp add: f64_real_def powi_split)

lemma div_mono_real:
  assumes "0 < d" "0 < d'" "real k / real d \<le> real k' / real d'"
  shows "k div d \<le> k' div (d'::nat)"
proof -
  have "real (k div d) < real (k' div d') + 1"
    using real_div_bounds(1) [OF assms(1), of k] real_div_bounds(2) [OF assms(2), of k'] assms(3) by linarith
  then show ?thesis by linarith
qed

lemma f64_to_u64_mono:
  assumes "f64_nonneg x" "f64_nonneg y" "f64_le x y"
  shows "f64_to_u64 x \<le> f64_to_u64 y"
proof -
  consider "y = Infinity False" | m e n f where "x = Finite False m e" "y = Finite False n f"
    using f64_nonneg_cases [OF assms(1)] f64_nonneg_cases [OF assms(2)] assms(3) by fastforce
  then show ?thesis
  proof cases
    case 1
    then show ?thesis by simp
  next
    case 2
    with assms(3) have "f64_real x \<le> f64_real y" by (simp only: f64_le_Finite)
    then have le: "m * 2 ^ nat e div 2 ^ nat (- e) \<le> n * 2 ^ nat f div 2 ^ nat (- f)"
      unfolding 2 f64_real_ratio by (intro div_mono_real) simp_all
    show ?thesis
    proof (cases "n * 2 ^ nat f div 2 ^ nat (- f) < 2 ^ 64")
      case True
      with le have "m * 2 ^ nat e div 2 ^ nat (- e) < 2 ^ 64" by linarith
      with True le show ?thesis
        by (simp add: 2 Let_def word_le_nat_alt unat_of_nat_less)
    next
      case False
      then show ?thesis by (simp add: 2 Let_def)
    qed
  qed
qed

lemma f64_round_nonneg: "f64_nonneg x \<Longrightarrow> f64_nonneg (f64_round x)"
  by (cases x) auto

lemma f64_round_mono:
  assumes "f64_nonneg x" "f64_nonneg y" "f64_le x y"
  shows "f64_le (f64_round x) (f64_round y)"
proof -
  consider "y = Infinity False" | m e n f where "x = Finite False m e" "y = Finite False n f"
    using f64_nonneg_cases [OF assms(1)] f64_nonneg_cases [OF assms(2)] assms(3) by fastforce
  then show ?thesis
  proof cases
    case 1
    then show ?thesis using f64_le_Infinity f64_round_nonneg assms(1) by simp
  next
    case 2
    let ?k = "\<lambda>m e. (2 * m * 2 ^ nat e + 2 ^ nat (- e)) div (2 * 2 ^ nat (- e)) :: nat"
    have half: "real (2 * m * 2 ^ nat e + 2 ^ nat (- e)) / real (2 * 2 ^ nat (- e))
        = f64_real (Finite False m e) + 1 / 2" for m e
      unfolding f64_real_ratio by (simp add: field_simps)
    have "f64_real x \<le> f64_real y" using assms(3) by (simp only: 2 f64_le_Finite)
    then have "?k m e \<le> ?k n f"
      by (intro div_mono_real) (simp_all only: half 2, simp_all)
    then show ?thesis unfolding 2 f64_round.simps by (intro round_ratio_mono) simp_all
  qed
qed

end
