(* ===== verification/FloatDecimal.thy ===== *)
theory FloatDecimal
  imports FloatOrder
begin

text \<open>
  Decimal texts as binary64 numbers: the value of a text, the comparison of two texts and of a
  difference of texts with a third one, after every rounding the comparison involves.
\<close>

definition decimal_value :: "string \<Rightarrow> real option" where
  "decimal_value s = map_option (\<lambda>(n, x). real n * 10 powi x) (parse_decimal s)"

lemma parse_decimal_sign: "parse_decimal (CHR ''-'' # s) = None" "parse_decimal (CHR ''+'' # s) = None"
  by (simp_all add: parse_decimal_def)

lemma powi_ten_split: "(10::real) powi e = 10 ^ nat e / 10 ^ nat (- e)"
  by (cases "0 \<le> e") (simp_all add: power_int_def power_one_over inverse_eq_divide)

text \<open>The number read from a text is the nearest to its value.\<close>

lemma parse_f64_decimal:
  assumes "decimal_value s = Some v"
  obtains p q where "0 < q" "real p / real q = v" "parse_f64 s = Some (round_ratio False p q)"
proof -
  from assms obtain n x where d: "parse_decimal s = Some (n, x)" and v: "v = real n * 10 powi x"
    by (auto simp: decimal_value_def)
  then have "s \<noteq> [] \<longrightarrow> hd s \<noteq> CHR ''-'' \<and> hd s \<noteq> CHR ''+''"
    using parse_decimal_sign by (cases s) auto
  with d have "parse_f64 s = Some (round_decimal False n x)"
    by (cases s) (auto simp: parse_f64_def)
  then show thesis
    using that [of "10 ^ nat (- x)" "n * 10 ^ nat x"] v by (simp add: round_decimal_def powi_ten_split)
qed

lemma unit_small: "f64_unit < 1 / 10 ^ 15" "0 < f64_unit"
  by (simp_all add: f64_unit_def power_int_def power_one_over inverse_eq_divide)

lemma unit_half: "f64_unit < 1 / 2"
  by (simp add: f64_unit_def power_int_def power_one_over inverse_eq_divide)

lemma small_grid:
  assumes "(i::nat) \<le> 10 ^ 15" "k \<le> 15"
  shows "normal_range (real i / 10 ^ k)"
proof (cases "i = 0")
  case False
  have ten: "(10::real) ^ k \<le> 10 ^ 15" using assms(2) by (intro power_increasing) auto
  have "(2::real) powi (- 1022) \<le> 2 powi (- 60)" by (intro power_int_increasing) auto
  also have "\<dots> \<le> 1 / 10 ^ 15" by (simp add: power_int_def power_one_over inverse_eq_divide)
  also have "\<dots> \<le> 1 / 10 ^ k" using ten by (intro divide_left_mono) auto
  also have "\<dots> \<le> real i / 10 ^ k" using False by (intro divide_right_mono) auto
  finally have lo: "2 powi (- 1022) \<le> real i / 10 ^ k" .
  have "real i / 10 ^ k \<le> real i / 1" by (intro divide_left_mono) auto
  also have "real i \<le> real (10 ^ 15)" unfolding of_nat_le_iff by (rule assms(1))
  also have "real (10 ^ 15) < (2::real) powi 60" by (simp add: power_int_def)
  also have "\<dots> \<le> 2 powi 1023" by (intro power_int_increasing) auto
  finally show ?thesis using lo by (simp add: normal_range_def)
qed (simp add: normal_range_def)

text \<open>Two multiples of \<open>10^-k\<close> with at most 15 digits compare as their roundings do.\<close>

lemma grid_le_iff:
  assumes q: "0 < q" "0 < q'" and v: "real p / real q = real i / 10 ^ k" "real p' / real q' = real j / 10 ^ k"
    and b: "i \<le> 10 ^ 15" "j \<le> 10 ^ 15" "k \<le> 15"
  shows "f64_le (round_ratio False p q) (round_ratio False p' q') \<longleftrightarrow> i \<le> j"
proof
  assume "i \<le> j"
  then have "real p / real q \<le> real p' / real q'" unfolding v by (intro divide_right_mono) auto
  then show "f64_le (round_ratio False p q) (round_ratio False p' q')" by (rule round_ratio_mono [OF q])
next
  assume le: "f64_le (round_ratio False p q) (round_ratio False p' q')"
  have A: "f64_approx (round_ratio False p q) (real i / 10 ^ k) f64_unit"
    and B: "f64_approx (round_ratio False p' q') (real j / 10 ^ k) f64_unit"
    using round_ratio_approx q small_grid b v by metis+
  then have "f64_real (round_ratio False p q) \<le> f64_real (round_ratio False p' q')"
    using le by (auto simp: f64_approx_def f64_le_Finite simp del: f64_le.simps)
  with A B have "real i / 10 ^ k * (1 - f64_unit) \<le> real j / 10 ^ k * (1 + f64_unit)"
    by (auto simp: f64_approx_def)
  then have "real i * (1 - f64_unit) \<le> real j * (1 + f64_unit)"
    by (simp add: divide_le_cancel)
  then have le': "real i - real j \<le> (real i + real j) * f64_unit" by (simp add: algebra_simps)
  have "real i + real j \<le> 2 * 10 ^ 15"
  proof -
    have "real (i + j) \<le> real (2 * 10 ^ 15)" unfolding of_nat_le_iff using b by linarith
    then show ?thesis by simp
  qed
  then have "(real i + real j) * f64_unit \<le> 2 * 10 ^ 15 * f64_unit"
    using unit_small(2) by (intro mult_right_mono) auto
  also have "\<dots> < 1" by (simp add: f64_unit_def power_int_def power_one_over inverse_eq_divide)
  finally show "i \<le> j" using le' by linarith
qed

lemma decimal_le_iff:
  assumes "decimal_value s = Some (real i / 10 ^ k)" "decimal_value t = Some (real j / 10 ^ k)"
    and "i \<le> 10 ^ 15" "j \<le> 10 ^ 15" "k \<le> 15"
  obtains x y where "parse_f64 s = Some x" "parse_f64 t = Some y" "f64_le x y \<longleftrightarrow> i \<le> j" "f64_le y x \<longleftrightarrow> j \<le> i"
proof -
  obtain p q where x: "0 < q" "real p / real q = real i / 10 ^ k" "parse_f64 s = Some (round_ratio False p q)"
    using parse_f64_decimal [OF assms(1)] .
  obtain p' q' where y: "0 < q'" "real p' / real q' = real j / 10 ^ k" "parse_f64 t = Some (round_ratio False p' q')"
    using parse_f64_decimal [OF assms(2)] .
  show thesis
    by (rule that [OF x(3) y(3)])
      (rule grid_le_iff [OF x(1) y(1) x(2) y(2) assms(3,4,5)] grid_le_iff [OF y(1) x(1) y(2) x(2) assms(4,3,5)])+
qed

section \<open>Differences\<close>

lemma round_ratio_neg: "round_ratio True p q = f64_neg (round_ratio False p q)"
  by (auto simp: round_ratio_def finish_round_def Let_def)

lemma f64_real_neg: "f64_real (f64_neg x) = - f64_real x"
  by (cases x) (simp_all add: f64_real_def)

lemma f64_finite_neg: "f64_finite (f64_neg x) = f64_finite x"
  by (cases x) simp_all

lemma round_ratio_abs_error:
  assumes "0 < q" "real p / real q < 2 powi 1023"
  shows "f64_finite (round_ratio s p q)"
    and "\<bar>f64_real (round_ratio s p q) - (if s then - 1 else 1) * (real p / real q)\<bar>
      \<le> max (f64_unit * (real p / real q)) (2 powi (- 1075))"
proof -
  show fin: "f64_finite (round_ratio s p q)" by (rule round_ratio_finite [OF assms])
  have "\<bar>f64_real (round_ratio False p q) - real p / real q\<bar>
      \<le> max (f64_unit * (real p / real q)) (2 powi (- 1075))"
  proof (cases "p = 0")
    case True
    then show ?thesis by (simp add: round_ratio_def f64_real_def max_def)
  next
    case False
    then show ?thesis
      using round_ratio_error [of p q] assms(1) round_ratio_finite [OF assms] unfolding f64_unit_def by blast
  qed
  then show "\<bar>f64_real (round_ratio s p q) - (if s then - 1 else 1) * (real p / real q)\<bar>
      \<le> max (f64_unit * (real p / real q)) (2 powi (- 1075))"
    by (cases s) (auto simp: round_ratio_neg f64_real_neg)
qed

lemma f64_sub_error:
  assumes d: "d = f64_real (Finite s m e) - f64_real (Finite t n f)" and "\<bar>d\<bar> < 2 powi 1023"
  shows "f64_finite (f64_sub (Finite s m e) (Finite t n f))"
    and "\<bar>f64_real (f64_sub (Finite s m e) (Finite t n f)) - d\<bar> \<le> max (f64_unit * \<bar>d\<bar>) (2 powi (- 1075))"
proof -
  define b where "b = min e f"
  define v where "v = signed_units s m e b + signed_units (\<not> t) n f b"
  have "real_of_int v * 2 powi b = f64_real (Finite s m e) + f64_real (Finite (\<not> t) n f)"
    unfolding v_def of_int_add distrib_right by (simp add: signed_units_real b_def)
  also have "\<dots> = d" using f64_real_neg [of "Finite t n f"] by (simp add: d)
  finally have v: "real_of_int v * 2 powi b = d" .
  have sub: "f64_sub (Finite s m e) (Finite t n f) =
      (if v = 0 then Finite (s \<and> \<not> t) 0 (- 1074)
       else round_ratio (v < 0) (nat \<bar>v\<bar> * 2 ^ nat b) (2 ^ nat (- b)))"
    by (simp add: f64_sub_def Let_def v_def b_def)
  have q: "real (nat \<bar>v\<bar> * 2 ^ nat b) / real (2 ^ nat (- b)) = \<bar>d\<bar>"
  proof -
    have "real (nat \<bar>v\<bar> * 2 ^ nat b) / real (2 ^ nat (- b)) = real_of_int \<bar>v\<bar> * 2 powi b"
      by (simp add: powi_split)
    also have "\<dots> = \<bar>real_of_int v * 2 powi b\<bar>" by (simp add: abs_mult)
    finally show ?thesis by (simp only: v)
  qed
  have sg: "(if v < 0 then - 1 else 1) * \<bar>d\<bar> = d" if "v \<noteq> 0"
  proof -
    have "d < 0 \<longleftrightarrow> v < 0" using powi_pos [of b] unfolding v [symmetric] mult_less_0_iff
      by (metis (no_types) less_asym of_int_less_0_iff)
    then show ?thesis by auto
  qed
  have two: "0 < (2::nat) ^ nat (- b)" by simp
  note R = round_ratio_abs_error [OF two, of "nat \<bar>v\<bar> * 2 ^ nat b" "v < 0", unfolded q, OF assms(2)]
  show "f64_finite (f64_sub (Finite s m e) (Finite t n f))"
    unfolding sub using R(1) by (simp only: f64_finite.simps simp_thms split: if_split)
  show "\<bar>f64_real (f64_sub (Finite s m e) (Finite t n f)) - d\<bar> \<le> max (f64_unit * \<bar>d\<bar>) (2 powi (- 1075))"
  proof (cases "v = 0")
    case True
    then have "d = 0" using v by simp
    then show ?thesis using True unfolding sub by (simp add: f64_real_def max_def)
  next
    case False
    then show ?thesis using R(2) unfolding sub sg [OF False] by (simp only: if_False)
  qed
qed

lemma errors_add:
  fixes E x y z :: real
  assumes "\<bar>E - (x - y)\<bar> \<le> 2 * u" "\<bar>x - a\<bar> \<le> u" "\<bar>y - b\<bar> \<le> u" "\<bar>z - c\<bar> \<le> u"
  shows "\<bar>(E - z) - (a - b - c)\<bar> \<le> 5 * u"
  using assms unfolding abs_le_iff by (intro conjI; elim conjE; linarith)

lemma errors_range:
  fixes x y :: real
  assumes "\<bar>x - a\<bar> \<le> u" "\<bar>y - b\<bar> \<le> u" "0 \<le> a" "a \<le> 1" "0 \<le> b" "b \<le> 1" "u < 1 / 2"
  shows "\<bar>x - y\<bar> \<le> 2"
  using assms unfolding abs_le_iff by (intro conjI; elim conjE; linarith)

lemma price_error:
  assumes "decimal_value s = Some v" "0 \<le> v" "v \<le> 1" "normal_range v"
  obtains m e where "parse_f64 s = Some (Finite False m e)" "\<bar>f64_real (Finite False m e) - v\<bar> \<le> f64_unit"
proof -
  obtain p q where x: "0 < q" "real p / real q = v" "parse_f64 s = Some (round_ratio False p q)"
    using parse_f64_decimal [OF assms(1)] .
  have "f64_approx (round_ratio False p q) v f64_unit" using round_ratio_approx [OF x(1), of p] assms(4) x(2) by simp
  moreover have "v * f64_unit \<le> f64_unit" using assms(3) unit_small(2) by simp
  ultimately show thesis using that x(3) by (auto simp: f64_approx_def algebra_simps abs_le_iff)
qed

text \<open>
  The difference of two prices against a limit, all multiples of \<open>10^-k\<close> up to 1: the rounded comparison is
  right unless the difference is the limit.
\<close>

lemma decimal_difference_less:
  assumes s: "decimal_value s = Some (real i / 10 ^ k)" and t: "decimal_value t = Some (real j / 10 ^ k)"
    and r: "decimal_value r = Some (real l / 10 ^ k)"
    and b: "i \<le> 10 ^ k" "j \<le> 10 ^ k" "l \<le> 10 ^ k" "k \<le> 12"
    and off: "int i - int j \<noteq> int l"
  obtains x y z where "parse_f64 s = Some x" "parse_f64 t = Some y" "parse_f64 r = Some z"
    "f64_less (f64_sub x y) z \<longleftrightarrow> int i - int j < int l"
proof -
  have grid: "0 \<le> real n / 10 ^ k" "real n / 10 ^ k \<le> 1" "normal_range (real n / 10 ^ k)" if "n \<le> 10 ^ k" for n :: nat
  proof -
    have "(10::nat) ^ k \<le> 10 ^ 15" using b(4) by (intro power_increasing) auto
    with that have "n \<le> 10 ^ 15" by (rule le_trans)
    then show "normal_range (real n / 10 ^ k)" using b(4) by (intro small_grid) auto
    have "real n \<le> real (10 ^ k)" using that unfolding of_nat_le_iff .
    then show "real n / 10 ^ k \<le> 1" by simp
  qed simp
  obtain m e where x: "parse_f64 s = Some (Finite False m e)" "\<bar>f64_real (Finite False m e) - real i / 10 ^ k\<bar> \<le> f64_unit"
    by (rule price_error [OF s grid [OF b(1)]])
  obtain n f where y: "parse_f64 t = Some (Finite False n f)" "\<bar>f64_real (Finite False n f) - real j / 10 ^ k\<bar> \<le> f64_unit"
    by (rule price_error [OF t grid [OF b(2)]])
  obtain o' g where z: "parse_f64 r = Some (Finite False o' g)" "\<bar>f64_real (Finite False o' g) - real l / 10 ^ k\<bar> \<le> f64_unit"
    by (rule price_error [OF r grid [OF b(3)]])
  define d where "d = f64_real (Finite False m e) - f64_real (Finite False n f)"
  have d2: "\<bar>d\<bar> \<le> 2" unfolding d_def by (rule errors_range [OF x(2) y(2) grid(1,2) [OF b(1)] grid(1,2) [OF b(2)] unit_half])
  also have "(2::real) < 2 powi 1023" using power_int_strict_increasing [of 1 1023 "2::real"] by simp
  finally have range: "\<bar>d\<bar> < 2 powi 1023" .
  have tiny: "(2::real) powi (- 1075) \<le> 2 * f64_unit"
    using power_int_increasing [of "- 1075" "- 53" "2::real"] by (simp add: f64_unit_def)
  have "f64_unit * \<bar>d\<bar> \<le> f64_unit * 2" using d2 unit_small(2) by (intro mult_left_mono) auto
  with tiny have E: "\<bar>f64_real (f64_sub (Finite False m e) (Finite False n f)) - d\<bar> \<le> 2 * f64_unit"
    using f64_sub_error(2) [OF d_def range] by linarith
  obtain ss h c where fin: "f64_sub (Finite False m e) (Finite False n f) = Finite ss h c"
    using f64_sub_error(1) [OF d_def range] by (cases "f64_sub (Finite False m e) (Finite False n f)") auto
  define gap where "gap = (real i - real j - real l) / 10 ^ k"
  have close: "\<bar>(f64_real (Finite ss h c) - f64_real (Finite False o' g)) - gap\<bar> \<le> 5 * f64_unit"
    unfolding gap_def diff_divide_distrib by (rule errors_add [OF E [unfolded fin d_def] x(2) y(2) z(2)])
  have small: "5 * f64_unit < 1 / 10 ^ k"
  proof -
    have "5 * f64_unit < 1 / 10 ^ 12" by (simp add: f64_unit_def power_int_def power_one_over inverse_eq_divide)
    also have "\<dots> \<le> 1 / 10 ^ k" using b(4) by (intro divide_left_mono power_increasing) auto
    finally show ?thesis .
  qed
  have "f64_less (f64_sub (Finite False m e) (Finite False n f)) (Finite False o' g) \<longleftrightarrow> int i - int j < int l"
  proof (cases "int i - int j < int l")
    case True
    then have "real i - real j - real l \<le> - 1" by linarith
    then have "gap \<le> - 1 / 10 ^ k" unfolding gap_def by (intro divide_right_mono) auto
    then have "gap \<le> - (1 / 10 ^ k)" by simp
    then have "f64_real (Finite ss h c) < f64_real (Finite False o' g)" using close small by linarith
    then show ?thesis unfolding fin f64_less_Finite using True by (simp only: simp_thms)
  next
    case False
    with off have "1 \<le> real i - real j - real l" by linarith
    then have "1 / 10 ^ k \<le> gap" unfolding gap_def by (intro divide_right_mono) auto
    then have "\<not> f64_real (Finite ss h c) < f64_real (Finite False o' g)" using close small by linarith
    then show ?thesis unfolding fin f64_less_Finite using False by (simp only: simp_thms)
  qed
  with x(1) y(1) z(1) that show thesis by blast
qed

end
