(* ===== verification/Safety.thy ===== *)
theory Safety
  imports Float64 ClobOrder
begin

text \<open>
  The safety rails of the executor (\<open>pm-executor/src/safety.rs\<close>): the circuit breaker on order count
  and dollar exposure, the rate limiter and the guard that keeps one order in flight. The breaker
  is modelled twice, as the operation of one caller and as the atomic steps of concurrent callers.
  Additions of \<open>u64\<close> wrap, as in a release build.
\<close>

section \<open>The circuit breaker\<close>

record circuit_breaker =
  cb_orders_fired :: u64
  cb_usd_committed_cents :: u64
  cb_max_orders :: u64
  cb_max_usd_cents :: u64
  cb_tripped :: bool

definition f64_100 :: f64 where
  "f64_100 = round_ratio False 100 1"

definition with_initial_counts :: "u64 \<Rightarrow> f64 \<Rightarrow> u64 \<Rightarrow> u64 \<Rightarrow> circuit_breaker" where
  "with_initial_counts max_orders max_usd initial_orders initial_usd_cents =
     \<lparr>cb_orders_fired = initial_orders,
      cb_usd_committed_cents = initial_usd_cents,
      cb_max_orders = max_orders,
      cb_max_usd_cents = f64_to_u64 (f64_mul max_usd f64_100),
      cb_tripped = False\<rparr>"

text \<open>The cents of an order: an unreadable price or size counts as zero.\<close>

definition order_cents :: "string \<Rightarrow> string \<Rightarrow> u64" where
  "order_cents price sz =
     f64_to_u64 (f64_mul (f64_mul (unwrap_or f64_zero (parse_f64 price))
                                  (unwrap_or f64_zero (parse_f64 sz))) f64_100)"

definition dollars_text :: "u64 \<Rightarrow> string" where
  "dollars_text cents = format_two_decimals (f64_div (f64_of_u64 cents) f64_100)"

definition already_tripped :: string where
  "already_tripped = ''already tripped''"

definition max_orders_reason :: "circuit_breaker \<Rightarrow> u64 \<Rightarrow> string" where
  "max_orders_reason cb prev_orders =
     ''max orders exceeded: '' @ show_word (prev_orders + 1) @ ''/'' @ show_word (cb_max_orders cb)"

definition max_usd_reason :: "circuit_breaker \<Rightarrow> u64 \<Rightarrow> u64 \<Rightarrow> string" where
  "max_usd_reason cb prev_usd usd_cents =
     ''max USD exceeded: $'' @ dollars_text (prev_usd + usd_cents) @ ''/$''
       @ dollars_text (cb_max_usd_cents cb)"

definition check_and_record ::
    "circuit_breaker \<Rightarrow> string \<Rightarrow> string \<Rightarrow> (string, unit) result \<times> circuit_breaker" where
  "check_and_record cb price sz =
     (if cb_tripped cb then (Inl already_tripped, cb)
      else
        let usd_cents = order_cents price sz;
            prev_orders = cb_orders_fired cb;
            cb = cb\<lparr>cb_orders_fired := prev_orders + 1\<rparr>
        in if cb_max_orders cb < prev_orders + 1
           then (Inl (max_orders_reason cb prev_orders), cb\<lparr>cb_tripped := True\<rparr>)
           else
             let prev_usd = cb_usd_committed_cents cb;
                 cb = cb\<lparr>cb_usd_committed_cents := prev_usd + usd_cents\<rparr>
             in if cb_max_usd_cents cb < prev_usd + usd_cents
                then (Inl (max_usd_reason cb prev_usd usd_cents), cb\<lparr>cb_tripped := True\<rparr>)
                else (Inr (), cb))"

definition trip :: "circuit_breaker \<Rightarrow> circuit_breaker" where
  "trip cb = cb\<lparr>cb_tripped := True\<rparr>"

definition breaker_stats :: "circuit_breaker \<Rightarrow> u64 \<times> f64" where
  "breaker_stats cb =
     (cb_orders_fired cb, f64_div (f64_of_u64 (cb_usd_committed_cents cb)) f64_100)"

definition breaker_max_usd :: "circuit_breaker \<Rightarrow> f64" where
  "breaker_max_usd cb = f64_div (f64_of_u64 (cb_max_usd_cents cb)) f64_100"

section \<open>Concurrent callers of the breaker\<close>

text \<open>
  The atomics are shared by all clones. One call takes up to four atomic steps: load the flag, add
  to the order count, add to the cents, set the flag. \<open>AtOrders\<close> and the later stages carry what
  the call has computed.
\<close>

datatype cb_stage =
    AtLoad string string
  | AtOrders u64
  | AtUsd u64
  | AtTrip string
  | Returned "(string, unit) result" u64

fun call_step :: "circuit_breaker \<Rightarrow> cb_stage \<Rightarrow> (circuit_breaker \<times> cb_stage) option" where
  "call_step cb (AtLoad price sz) =
     Some (if cb_tripped cb then (cb, Returned (Inl already_tripped) 0)
           else (cb, AtOrders (order_cents price sz)))"
| "call_step cb (AtOrders cents) =
     (let prev = cb_orders_fired cb; cb' = cb\<lparr>cb_orders_fired := prev + 1\<rparr>
      in Some (if cb_max_orders cb < prev + 1 then (cb', AtTrip (max_orders_reason cb prev))
               else (cb', AtUsd cents)))"
| "call_step cb (AtUsd cents) =
     (let prev = cb_usd_committed_cents cb;
          cb' = cb\<lparr>cb_usd_committed_cents := prev + cents\<rparr>
      in Some (if cb_max_usd_cents cb < prev + cents
               then (cb', AtTrip (max_usd_reason cb prev cents))
               else (cb', Returned (Inr ()) cents)))"
| "call_step cb (AtTrip reason) = Some (cb\<lparr>cb_tripped := True\<rparr>, Returned (Inl reason) 0)"
| "call_step cb (Returned r c) = None"

type_synonym cb_system = "circuit_breaker \<times> cb_stage list"

inductive breaker_step :: "cb_system \<Rightarrow> cb_system \<Rightarrow> bool" where
  advance: "i < length calls \<Longrightarrow> call_step cb (calls ! i) = Some (cb', stage)
    \<Longrightarrow> breaker_step (cb, calls) (cb', calls[i := stage])"
| manual: "breaker_step (cb, calls) (trip cb, calls)"

inductive_cases breaker_stepE: "breaker_step s t"

text \<open>All calls start on the breaker \<open>cb0\<close>, one for each price and size of \<open>orders\<close>.\<close>

inductive breaker_reachable :: "circuit_breaker \<Rightarrow> (string \<times> string) list \<Rightarrow> cb_system \<Rightarrow> bool"
  for cb0 orders where
  start: "breaker_reachable cb0 orders (cb0, map (\<lambda>(p, s). AtLoad p s) orders)"
| step: "breaker_reachable cb0 orders s \<Longrightarrow> breaker_step s t \<Longrightarrow> breaker_reachable cb0 orders t"

text \<open>The calls admitted so far and the cents they stand for.\<close>

fun admitted :: "cb_stage \<Rightarrow> nat" where
  "admitted (Returned (Inr u) c) = 1"
| "admitted stage = 0"

fun admitted_cents :: "cb_stage \<Rightarrow> nat" where
  "admitted_cents (Returned (Inr u) c) = unat c"
| "admitted_cents stage = 0"

section \<open>The rate limiter\<close>

record rate_limiter =
  rl_max_per_second :: u64
  rl_window_start_ns :: u64
  rl_count_in_window :: u64

definition rate_limiter_new :: "u64 \<Rightarrow> rate_limiter" where
  "rate_limiter_new m =
     \<lparr>rl_max_per_second = m, rl_window_start_ns = 0, rl_count_in_window = 0\<rparr>"

definition nanos_per_second :: u64 where
  "nanos_per_second = 1000000000"

definition rate_try_acquire :: "u64 \<Rightarrow> rate_limiter \<Rightarrow> bool \<times> rate_limiter" where
  "rate_try_acquire now_ns rl =
     (let elapsed_ns = saturating_sub now_ns (rl_window_start_ns rl)
      in if nanos_per_second \<le> elapsed_ns
         then (True, rl\<lparr>rl_window_start_ns := now_ns, rl_count_in_window := 1\<rparr>)
         else
           let prev = rl_count_in_window rl;
               rl = rl\<lparr>rl_count_in_window := prev + 1\<rparr>
           in if rl_max_per_second rl < prev + 1 then (False, rl) else (True, rl))"

fun acquired_count :: "rate_limiter \<Rightarrow> u64 list \<Rightarrow> nat" where
  "acquired_count rl [] = 0"
| "acquired_count rl (t # ts) =
     (case rate_try_acquire t rl of (ok, rl') \<Rightarrow> (if ok then 1 else 0) + acquired_count rl' ts)"

fun rate_run :: "rate_limiter \<Rightarrow> u64 list \<Rightarrow> rate_limiter" where
  "rate_run rl [] = rl"
| "rate_run rl (t # ts) = rate_run (snd (rate_try_acquire t rl)) ts"

section \<open>The order guard\<close>

record order_guard =
  og_in_flight :: bool

definition order_guard_new :: order_guard where
  "order_guard_new = \<lparr>og_in_flight = False\<rparr>"

definition guard_try_acquire :: "order_guard \<Rightarrow> bool \<times> order_guard" where
  "guard_try_acquire g =
     (if \<not> og_in_flight g then (True, g\<lparr>og_in_flight := True\<rparr>) else (False, g))"

definition guard_release :: "order_guard \<Rightarrow> order_guard" where
  "guard_release g = g\<lparr>og_in_flight := False\<rparr>"

section \<open>The cents of an order\<close>

lemma parse_decimal_digits:
  "all_digits s \<Longrightarrow> s \<noteq> [] \<Longrightarrow> Float64.parse_decimal s = Some (digits_val 0 s, 0)"
  by (simp add: Float64.parse_decimal_def parse_exponent_def list_all_iff takeWhile_eq_all_conv [THEN iffD2]
      dropWhile_eq_Nil_conv [THEN iffD2])

lemma parse_decimal_dotted:
  assumes "all_digits w" "all_digits f" "w @ f \<noteq> []"
  shows "Float64.parse_decimal (w @ CHR ''.'' # f) = Some (digits_val 0 (w @ f), - int (length f))"
proof -
  have w: "takeWhile is_digit (w @ CHR ''.'' # f) = w" "dropWhile is_digit (w @ CHR ''.'' # f) = CHR ''.'' # f"
    using assms(1) by (simp_all add: list_all_iff takeWhile_append2 dropWhile_append2)
  have f: "takeWhile is_digit f = f" "dropWhile is_digit f = []"
    using assms(2) by (simp_all add: list_all_iff takeWhile_eq_all_conv dropWhile_eq_Nil_conv)
  show ?thesis
    using assms(3) by (auto simp: Float64.parse_decimal_def parse_exponent_def w f)
qed

lemma parse_f64_unsigned:
  assumes "Float64.parse_decimal (c # s) = Some (n, x)" "c = CHR ''.'' \<or> is_digit c"
  shows "parse_f64 (c # s) = Some (round_decimal False n x)"
proof -
  have "c \<noteq> CHR ''-'' \<and> c \<noteq> CHR ''+''" using assms(2) by auto
  then show ?thesis using assms(1) by (simp add: parse_f64_def)
qed

lemma parse_f64_dotted:
  assumes "all_digits w" "all_digits f" "w @ f \<noteq> []"
  shows "parse_f64 (w @ CHR ''.'' # f) = Some (round_decimal False (digits_val 0 (w @ f)) (- int (length f)))"
proof (cases w)
  case Nil
  with parse_decimal_dotted [OF assms] show ?thesis by (simp add: parse_f64_unsigned)
next
  case (Cons c cs)
  with assms(1) parse_decimal_dotted [OF assms] show ?thesis by (simp add: parse_f64_unsigned)
qed

lemma parse_f64_digits:
  "all_digits s \<Longrightarrow> s \<noteq> [] \<Longrightarrow> parse_f64 s = Some (round_decimal False (digits_val 0 s) 0)"
  using parse_decimal_digits [of s] by (cases s) (auto intro!: parse_f64_unsigned)

lemma micros_moderate: "p < 2 ^ 128 \<Longrightarrow> moderate (real p / 10 ^ 6)"
proof (cases "p = 0")
  case False
  assume "p < 2 ^ 128"
  then have "real p < real (2 ^ 128)" unfolding of_nat_less_iff .
  then have p: "real p < 2 ^ 128" by simp
  have "(2::real) powi (- 300) \<le> 1 / 10 ^ 6" by simp
  also have "\<dots> \<le> real p / 10 ^ 6" using False by (intro divide_right_mono) simp_all
  finally have lo: "2 powi (- 300) \<le> real p / 10 ^ 6" .
  have "real p / 10 ^ 6 \<le> 2 ^ 128 / 10 ^ 6" using p by (intro divide_right_mono) simp_all
  also have "\<dots> \<le> 2 powi 300" by simp
  finally show ?thesis using lo by (simp only: moderate_def simp_thms)
qed (simp add: moderate_def)

lemma moderate_normal: "moderate v \<Longrightarrow> normal_range v"
proof -
  have "(2::real) powi (- 1022) \<le> 2 powi (- 300)" "(2::real) powi 300 < 2 powi 1023"
    by (auto intro!: power_int_increasing power_int_strict_increasing simp del: power_int_numeral power_int_minus)
  then show "moderate v \<Longrightarrow> normal_range v" unfolding moderate_def normal_range_def by linarith
qed

text \<open>A text that the order amounts accept is also a float, the nearest one.\<close>

lemma parse_f64_micros:
  assumes "decimal_micros s = Some p" "p < 2 ^ 128"
  shows "\<exists>x. parse_f64 s = Some x \<and> f64_approx x (real p / 10 ^ 6) f64_unit"
proof -
  have "\<exists>n d. 0 < d \<and> parse_f64 s = Some (round_ratio False n d) \<and> real n / real d = real p / 10 ^ 6"
    using assms(1)
  proof (rule decimal_micros_Some)
    assume s: "all_digits s" "s \<noteq> []"
    with assms(1) have "real (digits_val 0 s) / real 1 = real p / 10 ^ 6"
      by (auto simp: decimal_micros_digits)
    with s show ?thesis
      by (intro exI [of _ "digits_val 0 s"] exI [of _ 1]) (simp add: parse_f64_digits round_decimal_def)
  next
    fix w f
    assume s: "s = w @ CHR ''.'' # f" and wf: "all_digits w" "all_digits f" "w @ f \<noteq> []"
      and len: "length f \<le> 6"
    have p: "p = digits_val 0 w * 10 ^ 6 + digits_val 0 f * 10 ^ (6 - length f)"
      using assms(1) s wf len by (auto simp: decimal_micros_dot)
    have n: "digits_val 0 (w @ f) = digits_val 0 w * 10 ^ length f + digits_val 0 f"
      by (subst digits_val_append, subst digits_val_acc) simp
    have "(10::nat) ^ length f * 10 ^ (6 - length f) = 10 ^ 6" using len by (simp flip: power_add)
    then have "digits_val 0 (w @ f) * 10 ^ 6 = p * 10 ^ length f"
      unfolding n p by (simp add: algebra_simps)
    then have "real (digits_val 0 (w @ f) * 10 ^ 6) = real (p * 10 ^ length f)" by (rule arg_cong)
    then have "real (digits_val 0 (w @ f)) / real (10 ^ length f) = real p / 10 ^ 6"
      by (simp add: frac_eq_eq)
    with wf show ?thesis
      by (intro exI [of _ "digits_val 0 (w @ f)"] exI [of _ "10 ^ length f"])
        (simp add: s parse_f64_dotted round_decimal_def)
  qed
  then obtain n d where nd: "0 < d" "parse_f64 s = Some (round_ratio False n d)" "real n / real d = real p / 10 ^ 6"
    by blast
  have "f64_approx (round_ratio False n d) (real p / 10 ^ 6) f64_unit"
    using round_ratio_approx [OF nd(1), of n] moderate_normal [OF micros_moderate [OF assms(2)]]
    by (simp only: nd(3))
  with nd(2) show ?thesis by blast
qed

lemma f64_100_approx: "f64_approx f64_100 100 f64_unit"
  using round_ratio_approx [of 1 100] moderate_normal [of 100]
  by (simp add: f64_100_def moderate_def)

text \<open>
  C40. The breaker counts an order at its dollar value: whatever price and size the order amounts
  accept, with \<open>v\<close> their exact product in cents, the count is the truncation of a number within one part in
  \<open>2 ^ 50\<close> of \<open>v\<close>, as long as that stays below \<open>2 ^ 63\<close>.
\<close>

theorem order_cents_accurate:
  assumes price: "parse_scaled_decimal price fp = Inr p" and sz: "parse_scaled_decimal sz fs = Inr q"
    and v: "v = real (unat p) * real (unat q) / 10 ^ 10" and small: "v \<le> 2 ^ 63"
  shows "v * (1 - 1 / 2 ^ 50) - 1 < real (unat (order_cents price sz)) \<and>
    real (unat (order_cents price sz)) \<le> v * (1 + 1 / 2 ^ 50)"
proof -
  define a b where "a = unat p" and "b = unat q"
  let ?P = "real a / 10 ^ 6" and ?Q = "real b / 10 ^ 6"
  have dp: "decimal_micros price = Some a" and dq: "decimal_micros sz = Some b"
    using price sz by (simp_all add: parse_scaled_decimal_Inr a_def b_def)
  have up: "a < 2 ^ 128" "b < 2 ^ 128"
    using unat_less_pow [of p] unat_less_pow [of q] by (simp_all add: a_def b_def)
  have v: "v = real a * real b / 10 ^ 10" using v by (simp only: a_def b_def)
  obtain x where x: "parse_f64 price = Some x" "f64_approx x ?P f64_unit"
    using parse_f64_micros [OF dp up(1)] by blast
  obtain y where y: "parse_f64 sz = Some y" "f64_approx y ?Q f64_unit"
    using parse_f64_micros [OF dq up(2)] by blast
  note mp = micros_moderate [OF up(1)] and mq = micros_moderate [OF up(2)]
  have u: "0 \<le> f64_unit" "f64_unit \<le> 1" "f64_unit \<le> 1 / 2" by (simp_all add: f64_unit_def)
  have nn: "0 \<le> ?P" "0 \<le> ?Q" by (intro divide_nonneg_nonneg of_nat_0_le_iff; simp)+
  have xy: "f64_approx (f64_mul x y) (?P * ?Q) (1 / 2 ^ 51)"
    by (rule f64_mul_approx [OF x(2) y(2) nn])
      (use u normal_range_mul [OF x(2) y(2) mp mq u(3) u(3)] in \<open>simp_all add: f64_unit_def\<close>)
  have mpq: "moderate (?P * ?Q)"
  proof (cases "a = 0 \<or> b = 0")
    case True
    then show ?thesis by (auto simp: moderate_def)
  next
    case False
    have "1 \<le> a * b" using False by (simp add: Suc_le_eq)
    then have "real 1 \<le> real (a * b)" by (simp only: of_nat_le_iff)
    then have "1 / 10 ^ 12 \<le> ?P * ?Q" by (simp add: field_simps)
    moreover have "(2::real) powi (- 300) \<le> 1 / 10 ^ 12" by simp
    moreover have "?P * ?Q \<le> 2 powi 300"
      using v small by (simp add: field_simps)
    ultimately show ?thesis unfolding moderate_def by linarith
  qed
  have "f64_approx (f64_mul (f64_mul x y) f64_100) (?P * ?Q * 100) (1 / 2 ^ 50)"
    by (rule f64_mul_approx [OF xy f64_100_approx mult_nonneg_nonneg [OF nn]])
      (use u normal_range_mul [OF xy f64_100_approx mpq] in \<open>simp_all add: f64_unit_def moderate_def\<close>)
  moreover have "?P * ?Q * 100 = v" by (simp add: v)
  ultimately have A: "f64_approx (f64_mul (f64_mul x y) f64_100) v (1 / 2 ^ 50)" by simp
  have "v * (1 + 1 / 2 ^ 50) < 2 ^ 64" using small by simp
  from f64_to_u64_approx [OF A this] show ?thesis by (simp add: order_cents_def x(1) y(1))
qed

theorem order_cents_accurate_witness:
  "(450::real) * (1 - 1 / 2 ^ 50) - 1 < real (unat (order_cents ''0.45'' ''10''))
   \<and> real (unat (order_cents ''0.45'' ''10'')) \<le> 450 * (1 + 1 / 2 ^ 50)"
proof -
  have p: "parse_scaled_decimal ''0.45'' [] = Inr 450000" "parse_scaled_decimal ''10'' [] = Inr 10000000"
    by (simp_all add: parse_scaled_decimal_Inr decimal_micros_def is_digit_def digit_val_def)
  have v: "(450::real) = real (unat (450000::u128)) * real (unat (10000000::u128)) / 10 ^ 10" by simp
  show ?thesis
    by (rule order_cents_accurate [OF p v]) simp
qed

section \<open>One caller\<close>

fun run_call :: "nat \<Rightarrow> circuit_breaker \<Rightarrow> cb_stage \<Rightarrow> circuit_breaker \<times> cb_stage" where
  "run_call 0 cb stage = (cb, stage)"
| "run_call (Suc n) cb stage =
     (case call_step cb stage of None \<Rightarrow> (cb, stage) | Some (cb', stage') \<Rightarrow> run_call n cb' stage')"

lemma run_call_Returned [simp]: "run_call n cb (Returned r c) = (cb, Returned r c)"
  by (cases n) auto

text \<open>
  The atomic steps of a call that nothing interrupts are the operation: after at most four of them the
  call has returned the result of \<open>check_and_record\<close> and left its breaker.
\<close>

theorem call_steps_are_check_and_record:
  "\<exists>c. run_call 4 cb (AtLoad price sz) =
     (snd (check_and_record cb price sz), Returned (fst (check_and_record cb price sz)) c)"
proof (cases "cb_tripped cb")
  case True
  then show ?thesis by (simp add: check_and_record_def numeral_eq_Suc)
next
  case False
  show ?thesis
  proof (cases "cb_max_orders cb < cb_orders_fired cb + 1")
    case True
    with False show ?thesis
      by (simp add: check_and_record_def numeral_eq_Suc Let_def max_orders_reason_def)
  next
    case not_over: False
    with False show ?thesis
      by (cases "cb_max_usd_cents cb < cb_usd_committed_cents cb + order_cents price sz")
        (simp_all add: check_and_record_def numeral_eq_Suc Let_def max_usd_reason_def)
  qed
qed

section \<open>Any number of callers\<close>

fun uncounted :: "cb_stage \<Rightarrow> nat" where
  "uncounted (AtLoad p s) = 1"
| "uncounted (AtOrders c) = 1"
| "uncounted stage = 0"

fun ticketed :: "cb_stage \<Rightarrow> nat" where
  "ticketed (AtUsd c) = 1"
| "ticketed (Returned (Inr u) c) = 1"
| "ticketed stage = 0"

fun uncommitted :: "cb_stage \<Rightarrow> nat" where
  "uncommitted (AtLoad p s) = unat (order_cents p s)"
| "uncommitted (AtOrders c) = unat c"
| "uncommitted (AtUsd c) = unat c"
| "uncommitted stage = 0"

fun stage_of_order :: "string \<times> string \<Rightarrow> cb_stage \<Rightarrow> bool" where
  "stage_of_order ord (AtLoad p s) = (ord = (p, s))"
| "stage_of_order ord (AtOrders c) = (c = order_cents (fst ord) (snd ord))"
| "stage_of_order ord (AtUsd c) = (c = order_cents (fst ord) (snd ord))"
| "stage_of_order ord (Returned (Inr u) c) = (c = order_cents (fst ord) (snd ord))"
| "stage_of_order ord stage = True"

definition total :: "(cb_stage \<Rightarrow> nat) \<Rightarrow> cb_stage list \<Rightarrow> nat" where
  "total f calls = sum_list (map f calls)"

lemma total_update:
  "i < length calls \<Longrightarrow> total f (calls[i := x]) + f (calls ! i) = total f calls + f x"
  unfolding total_def by (induction calls arbitrary: i) (auto simp: nth_Cons split: nat.splits)

lemma total_member: "i < length calls \<Longrightarrow> f (calls ! i) \<le> total f calls"
  unfolding total_def by (rule elem_le_sum_list [of i "map f calls", simplified])

text \<open>
  The invariant: the count covers every call that took a ticket, the cents every admitted call, and
  what is still to be added fits; no admission went beyond a limit.
\<close>

definition breaker_inv :: "circuit_breaker \<Rightarrow> (string \<times> string) list \<Rightarrow> cb_system \<Rightarrow> bool" where
  "breaker_inv cb0 orders s \<longleftrightarrow>
     (case s of (cb, calls) \<Rightarrow>
        cb_max_orders cb = cb_max_orders cb0 \<and> cb_max_usd_cents cb = cb_max_usd_cents cb0
      \<and> list_all2 stage_of_order orders calls
      \<and> unat (cb_orders_fired cb) + total uncounted calls \<le> unat (cb_orders_fired cb0) + length orders
      \<and> unat (cb_orders_fired cb0) + total ticketed calls \<le> unat (cb_orders_fired cb)
      \<and> (total ticketed calls = 0
         \<or> unat (cb_orders_fired cb0) + total ticketed calls \<le> unat (cb_max_orders cb0))
      \<and> unat (cb_usd_committed_cents cb) + total uncommitted calls
          \<le> unat (cb_usd_committed_cents cb0) + (\<Sum>(p, s)\<leftarrow>orders. unat (order_cents p s))
      \<and> unat (cb_usd_committed_cents cb0) + total admitted_cents calls \<le> unat (cb_usd_committed_cents cb)
      \<and> (total admitted calls = 0
         \<or> unat (cb_usd_committed_cents cb0) + total admitted_cents calls \<le> unat (cb_max_usd_cents cb0)))"

lemma breaker_inv_start: "breaker_inv cb0 orders (cb0, map (\<lambda>(p, s). AtLoad p s) orders)"
proof -
  have "total uncounted (map (\<lambda>(p, s). AtLoad p s) orders) = length orders"
    "total ticketed (map (\<lambda>(p, s). AtLoad p s) orders) = 0"
    "total admitted (map (\<lambda>(p, s). AtLoad p s) orders) = 0"
    "total admitted_cents (map (\<lambda>(p, s). AtLoad p s) orders) = 0"
    "total uncommitted (map (\<lambda>(p, s). AtLoad p s) orders) = (\<Sum>(p, s)\<leftarrow>orders. unat (order_cents p s))"
    "list_all2 stage_of_order orders (map (\<lambda>(p, s). AtLoad p s) orders)"
    by (induction orders) (auto simp: total_def)
  then show ?thesis by (simp add: breaker_inv_def)
qed

lemma stage_of_order_update:
  "list_all2 stage_of_order orders calls \<Longrightarrow> i < length calls \<Longrightarrow> stage_of_order (orders ! i) x
   \<Longrightarrow> list_all2 stage_of_order orders (calls[i := x])"
  by (auto simp: list_all2_conv_all_nth nth_list_update)

lemma unat_add_no_wrap: "unat a + unat b < 2 ^ 64 \<Longrightarrow> unat (a + b :: u64) = unat a + unat b"
  by (simp add: unat_word_ariths)

lemmas total_updates =
  total_update [where f = uncounted] total_update [where f = ticketed]
  total_update [where f = uncommitted] total_update [where f = admitted]
  total_update [where f = admitted_cents]

lemma breaker_inv_load:
  assumes inv: "breaker_inv cb0 orders (cb, calls)" and i: "i < length calls"
    and stage: "calls ! i = AtLoad p s" and step: "call_step cb (calls ! i) = Some (cb', stage)"
  shows "breaker_inv cb0 orders (cb', calls[i := stage])"
proof -
  have same: "cb' = cb" and
    st: "stage = Returned (Inl already_tripped) 0 \<or> stage = AtOrders (order_cents p s)"
    using step stage by (auto split: if_splits)
  have "stage_of_order (orders ! i) (calls ! i)"
    using inv i by (auto simp: breaker_inv_def list_all2_conv_all_nth)
  with stage st have ord: "stage_of_order (orders ! i) stage" by auto
  note T = total_updates [OF i, of stage]
  from st show ?thesis
  proof
    assume "stage = Returned (Inl already_tripped) 0"
    with inv stage_of_order_update [OF _ i ord] T show ?thesis
      by (auto simp: breaker_inv_def stage same)
  next
    assume "stage = AtOrders (order_cents p s)"
    with inv stage_of_order_update [OF _ i ord] T show ?thesis
      by (auto simp: breaker_inv_def stage same)
  qed
qed

lemma breaker_inv_count:
  assumes inv: "breaker_inv cb0 orders (cb, calls)" and i: "i < length calls"
    and fits: "unat (cb_orders_fired cb0) + length orders < 2 ^ 64"
    and stage: "calls ! i = AtOrders c" and step: "call_step cb (calls ! i) = Some (cb', stage)"
  shows "breaker_inv cb0 orders (cb', calls[i := stage])"
proof -
  have ord: "stage_of_order (orders ! i) stage" "stage_of_order (orders ! i) (AtOrders c)"
    using inv i stage step
    by (auto simp: breaker_inv_def list_all2_conv_all_nth Let_def split: if_splits)
  note T = total_updates [OF i, of stage, unfolded stage]
  have "1 \<le> total uncounted calls" using total_member [OF i, of uncounted] stage by simp
  with inv fits have "unat (cb_orders_fired cb) + unat (1 :: u64) < 2 ^ 64" by (auto simp: breaker_inv_def)
  from unat_add_no_wrap [OF this] have inc: "unat (cb_orders_fired cb + 1) = unat (cb_orders_fired cb) + 1"
    by simp
  have cb': "cb' = cb\<lparr>cb_orders_fired := cb_orders_fired cb + 1\<rparr>"
    using step stage by (auto simp: Let_def split: if_splits)
  show ?thesis
  proof (cases "cb_max_orders cb < cb_orders_fired cb + 1")
    case True
    with step stage have "stage = AtTrip (max_orders_reason cb (cb_orders_fired cb))"
      by (simp add: Let_def)
    with inv stage_of_order_update [OF _ i ord(1)] T show ?thesis
      by (auto simp: breaker_inv_def cb' inc)
  next
    case False
    then have "unat (cb_orders_fired cb) + 1 \<le> unat (cb_max_orders cb)"
      by (simp add: word_less_nat_alt inc not_less)
    moreover from False step stage have "stage = AtUsd c" by (simp add: Let_def)
    ultimately show ?thesis using inv stage_of_order_update [OF _ i ord(1)] T
      by (auto simp: breaker_inv_def cb' inc)
  qed
qed

lemma breaker_inv_commit:
  assumes inv: "breaker_inv cb0 orders (cb, calls)" and i: "i < length calls"
    and fits: "unat (cb_usd_committed_cents cb0) + (\<Sum>(p, s)\<leftarrow>orders. unat (order_cents p s)) < 2 ^ 64"
    and stage: "calls ! i = AtUsd c" and step: "call_step cb (calls ! i) = Some (cb', stage)"
  shows "breaker_inv cb0 orders (cb', calls[i := stage])"
proof -
  have ord: "stage_of_order (orders ! i) stage"
    using inv i stage step
    by (auto simp: breaker_inv_def list_all2_conv_all_nth Let_def split: if_splits)
  note T = total_updates [OF i, of stage, unfolded stage]
  have "unat c \<le> total uncommitted calls" using total_member [OF i, of uncommitted] stage by simp
  with inv fits have "unat (cb_usd_committed_cents cb) + unat c < 2 ^ 64" by (auto simp: breaker_inv_def)
  note add = unat_add_no_wrap [OF this]
  have cb': "cb' = cb\<lparr>cb_usd_committed_cents := cb_usd_committed_cents cb + c\<rparr>"
    using step stage by (auto simp: Let_def split: if_splits)
  show ?thesis
  proof (cases "cb_max_usd_cents cb < cb_usd_committed_cents cb + c")
    case True
    with step stage have "stage = AtTrip (max_usd_reason cb (cb_usd_committed_cents cb) c)"
      by (simp add: Let_def)
    with inv stage_of_order_update [OF _ i ord] T show ?thesis
      by (auto simp: breaker_inv_def cb' add)
  next
    case False
    then have "unat (cb_usd_committed_cents cb) + unat c \<le> unat (cb_max_usd_cents cb)"
      by (simp add: word_less_nat_alt add not_less)
    moreover from False step stage have "stage = Returned (Inr ()) c" by (simp add: Let_def)
    ultimately show ?thesis using inv stage_of_order_update [OF _ i ord] T
      by (auto simp: breaker_inv_def cb' add)
  qed
qed

lemma breaker_inv_trip:
  assumes inv: "breaker_inv cb0 orders (cb, calls)" and i: "i < length calls"
    and stage: "calls ! i = AtTrip r" and step: "call_step cb (calls ! i) = Some (cb', stage)"
  shows "breaker_inv cb0 orders (cb', calls[i := stage])"
  using assms total_updates [OF i, of stage, unfolded stage] stage_of_order_update [of orders calls i stage]
  by (auto simp: breaker_inv_def)

lemma breaker_inv_step:
  assumes "breaker_step s t" "breaker_inv cb0 orders s"
    and "unat (cb_orders_fired cb0) + length orders < 2 ^ 64"
    and "unat (cb_usd_committed_cents cb0) + (\<Sum>(p, s)\<leftarrow>orders. unat (order_cents p s)) < 2 ^ 64"
  shows "breaker_inv cb0 orders t"
  using assms(1)
proof cases
  case (advance i calls cb cb' stage)
  with assms show ?thesis
    by (cases "calls ! i")
      (auto intro: breaker_inv_load breaker_inv_count breaker_inv_commit breaker_inv_trip simp del: call_step.simps,
        auto)
next
  case (manual cb calls)
  with assms(2) show ?thesis by (simp add: breaker_inv_def trip_def)
qed

text \<open>
  C2. No interleaving of callers gets more orders past the breaker than it may: as long as the counters
  do not wrap, the admitted orders and those counted before stay within the order limit and their
  cents within the dollar limit, and each admitted order was counted at its own cents.
\<close>

theorem breaker_limits_concurrent_callers:
  assumes "breaker_reachable cb0 orders (cb, calls)"
    and "unat (cb_orders_fired cb0) + length orders < 2 ^ 64"
    and "unat (cb_usd_committed_cents cb0) + (\<Sum>(p, s)\<leftarrow>orders. unat (order_cents p s)) < 2 ^ 64"
    and "i < length orders" and "calls ! i = Returned (Inr ()) c"
  shows "c = order_cents (fst (orders ! i)) (snd (orders ! i))
    \<and> unat (cb_orders_fired cb0) + sum_list (map admitted calls) \<le> unat (cb_max_orders cb0)
    \<and> unat (cb_usd_committed_cents cb0) + sum_list (map admitted_cents calls) \<le> unat (cb_max_usd_cents cb0)"
proof -
  have "breaker_inv cb0 orders s" if "breaker_reachable cb0 orders s" for s
    using that
  proof induction
    case start
    show ?case by (rule breaker_inv_start)
  next
    case (step s t)
    then show ?case using breaker_inv_step assms(2,3) by blast
  qed
  from this [OF assms(1)] have inv: "breaker_inv cb0 orders (cb, calls)" .
  then have len: "length calls = length orders" by (auto simp: breaker_inv_def dest: list_all2_lengthD)
  have le: "admitted x \<le> ticketed x" for x by (cases x rule: admitted.cases) auto
  have "total admitted calls \<le> total ticketed calls"
    unfolding total_def by (intro sum_list_mono le)
  moreover have "1 \<le> total admitted calls"
    using total_member [of i calls admitted] assms(4,5) len by simp
  moreover have "stage_of_order (orders ! i) (calls ! i)"
    using inv assms(4) by (auto simp: breaker_inv_def list_all2_conv_all_nth)
  ultimately show ?thesis
    using inv assms(5) unfolding total_def [symmetric] by (auto simp: breaker_inv_def)
qed

lemma f64_100_eq: "f64_100 = Finite False 7036874417766400 (- 46)"
  by (simp add: f64_100_def round_eval)

lemma parse_045: "parse_f64 ''0.45'' = Some (Finite False 8106479329266893 (- 54))"
proof -
  have "parse_f64 ''0.45'' = Some (round_ratio False 45 100)" by (simp add: parse_eval)
  then show ?thesis by (simp add: round_eval)
qed

lemma parse_10: "parse_f64 ''10'' = Some (Finite False 5629499534213120 (- 49))"
proof -
  have "parse_f64 ''10'' = Some (round_ratio False 10 1)" by (simp add: parse_eval)
  then show ?thesis by (simp add: round_eval)
qed

lemma order_cents_450: "order_cents ''0.45'' ''10'' = 450"
proof -
  have "f64_mul (Finite False 8106479329266893 (- 54)) (Finite False 5629499534213120 (- 49))
      = Finite False 5066549580791808 (- 50)"
    by (simp add: round_eval)
  moreover have "f64_mul (Finite False 5066549580791808 (- 50)) f64_100 = Finite False 7916483719987200 (- 44)"
    by (simp add: f64_100_eq round_eval)
  ultimately show ?thesis by (simp add: order_cents_def parse_045 parse_10)
qed

definition breaker_for_one :: circuit_breaker where
  "breaker_for_one = with_initial_counts 1 (round_ratio False 5 1) 0 0"

lemma breaker_for_one_eq:
  "breaker_for_one = \<lparr>cb_orders_fired = 0, cb_usd_committed_cents = 0, cb_max_orders = 1,
     cb_max_usd_cents = 500, cb_tripped = False\<rparr>"
proof -
  have "round_ratio False 5 1 = Finite False 5629499534213120 (- 50)" by (simp add: round_eval)
  moreover have "f64_mul (Finite False 5629499534213120 (- 50)) f64_100 = Finite False 8796093022208000 (- 44)"
    by (simp add: f64_100_eq round_eval)
  ultimately show ?thesis by (simp add: breaker_for_one_def with_initial_counts_def)
qed

lemma breaker_for_one_reachable:
  "breaker_reachable breaker_for_one [(''0.45'', ''10''), (''0.45'', ''10'')]
     (breaker_for_one\<lparr>cb_orders_fired := 1, cb_usd_committed_cents := 450\<rparr>,
      [Returned (Inr ()) 450, AtLoad ''0.45'' ''10''])"
proof -
  let ?two = "[(''0.45'', ''10''), (''0.45'', ''10'')]"
  let ?rest = "AtLoad ''0.45'' ''10''"
  have 0: "breaker_reachable breaker_for_one ?two (breaker_for_one, [?rest, ?rest])"
    using breaker_reachable.start [of breaker_for_one ?two] by simp
  have step1: "breaker_step (breaker_for_one, [?rest, ?rest]) (breaker_for_one, [AtOrders 450, ?rest])"
    using breaker_step.advance [of 0 "[?rest, ?rest]" breaker_for_one breaker_for_one "AtOrders 450"]
    by (simp add: breaker_for_one_eq order_cents_450)
  have step2: "breaker_step (breaker_for_one, [AtOrders 450, ?rest])
      (breaker_for_one\<lparr>cb_orders_fired := 1\<rparr>, [AtUsd 450, ?rest])"
    using breaker_step.advance [of 0 "[AtOrders 450, ?rest]" breaker_for_one _ "AtUsd 450"]
    by (simp add: breaker_for_one_eq Let_def)
  have step3: "breaker_step (breaker_for_one\<lparr>cb_orders_fired := 1\<rparr>, [AtUsd 450, ?rest])
      (breaker_for_one\<lparr>cb_orders_fired := 1, cb_usd_committed_cents := 450\<rparr>, [Returned (Inr ()) 450, ?rest])"
    using breaker_step.advance [of 0 "[AtUsd 450, ?rest]" "breaker_for_one\<lparr>cb_orders_fired := 1\<rparr>" _
      "Returned (Inr ()) 450"]
    by (simp add: breaker_for_one_eq Let_def)
  show ?thesis
    by (rule breaker_reachable.step [OF breaker_reachable.step [OF breaker_reachable.step [OF 0 step1] step2] step3])
qed

theorem breaker_limits_concurrent_callers_witness:
  "(450 :: u64) = order_cents ''0.45'' ''10''
    \<and> 0 + sum_list (map admitted [Returned (Inr ()) 450, AtLoad ''0.45'' ''10'']) \<le> 1
    \<and> 0 + sum_list (map admitted_cents [Returned (Inr ()) 450, AtLoad ''0.45'' ''10'']) \<le> 500"
  using breaker_limits_concurrent_callers [OF breaker_for_one_reachable, of 0 450]
  by (simp add: breaker_for_one_eq order_cents_450)

text \<open>
  Without the bound on the counters the dollar limit fails: the cents of an absurdly large order saturate
  at the largest \<open>u64\<close>, and adding them to a tally that is not zero wraps to one below it, so the order is admitted
  and the tally drops. On an untouched breaker the same order trips it.
\<close>

theorem huge_order_wraps_the_tally:
  assumes "\<not> cb_tripped cb" and "cb_orders_fired cb + 1 \<le> cb_max_orders cb"
    and "cb_usd_committed_cents cb \<noteq> 0" and "cb_usd_committed_cents cb \<le> cb_max_usd_cents cb"
    and "order_cents price sz = - 1"
  shows "check_and_record cb price sz =
    (Inr (), cb\<lparr>cb_orders_fired := cb_orders_fired cb + 1,
                cb_usd_committed_cents := cb_usd_committed_cents cb - 1\<rparr>)"
proof -
  have "cb_usd_committed_cents cb - 1 < cb_usd_committed_cents cb"
    using unat_gt_0 [of "cb_usd_committed_cents cb"] assms(3)
    unfolding word_less_nat_alt unat_minus_one [OF assms(3)] by linarith
  then have "\<not> cb_max_usd_cents cb < cb_usd_committed_cents cb - 1" using assms(4) by auto
  with assms show ?thesis by (simp add: check_and_record_def Let_def not_less)
qed

lemma order_cents_1e30: "order_cents ''1'' ''1e30'' = - 1"
proof -
  have "parse_f64 ''1'' = Some (round_ratio False 1 1)" by (simp add: parse_eval)
  then have p: "parse_f64 ''1'' = Some (Finite False 4503599627370496 (- 52))" by (simp add: round_eval)
  have "parse_f64 ''1e30'' = Some (round_ratio False (10 ^ 30) 1)" by (simp add: parse_eval)
  then have q: "parse_f64 ''1e30'' = Some (Finite False 7105427357601002 47)" by (simp add: round_eval)
  have "f64_mul (Finite False 4503599627370496 (- 52)) (Finite False 7105427357601002 47)
      = Finite False 7105427357601002 47"
    by (simp add: round_eval)
  moreover have "f64_mul (Finite False 7105427357601002 47) f64_100 = Finite False 5551115123125783 54"
    by (simp add: f64_100_eq round_eval)
  ultimately show ?thesis by (simp add: order_cents_def p q)
qed

theorem huge_order_wraps_the_tally_witness:
  "check_and_record (breaker_for_one\<lparr>cb_usd_committed_cents := 450\<rparr>) ''1'' ''1e30'' =
     (Inr (), breaker_for_one\<lparr>cb_orders_fired := 1, cb_usd_committed_cents := 449\<rparr>)"
  using huge_order_wraps_the_tally
    [of "breaker_for_one\<lparr>cb_usd_committed_cents := 450\<rparr>", OF _ _ _ _ order_cents_1e30]
  by (simp add: breaker_for_one_eq)

section \<open>Bounds of the rate limiter\<close>

definition window_left :: "rate_limiter \<Rightarrow> nat" where
  "window_left rl = unat (rl_max_per_second rl) - unat (rl_count_in_window rl)"

lemma rate_try_acquire_stay:
  assumes "unat now - unat (rl_window_start_ns rl) < 10 ^ 9"
    and "unat (rl_count_in_window rl) + 1 < 2 ^ 64"
  shows "rate_try_acquire now rl =
    (window_left rl \<noteq> 0, rl\<lparr>rl_count_in_window := rl_count_in_window rl + 1\<rparr>)"
    and "unat (rl_count_in_window rl + 1) = unat (rl_count_in_window rl) + 1"
proof -
  show inc: "unat (rl_count_in_window rl + 1) = unat (rl_count_in_window rl) + 1"
    using assms(2) unat_add_no_wrap [of "rl_count_in_window rl" 1] by simp
  have "\<not> nanos_per_second \<le> saturating_sub now (rl_window_start_ns rl)"
    using assms(1) by (simp add: word_le_nat_alt unat_saturating_sub nanos_per_second_def)
  then show "rate_try_acquire now rl =
    (window_left rl \<noteq> 0, rl\<lparr>rl_count_in_window := rl_count_in_window rl + 1\<rparr>)"
    by (auto simp: rate_try_acquire_def window_left_def Let_def word_less_nat_alt inc)
qed

lemma rate_try_acquire_reset:
  "10 ^ 9 \<le> unat now - unat (rl_window_start_ns rl) \<Longrightarrow>
   rate_try_acquire now rl = (True, rl\<lparr>rl_window_start_ns := now, rl_count_in_window := 1\<rparr>)"
  by (simp add: rate_try_acquire_def Let_def word_le_nat_alt unat_saturating_sub nanos_per_second_def)

text \<open>Within a second of the start of its window the limiter cannot reset.\<close>

lemma acquired_in_window:
  "\<forall>t\<in>set ts. unat t < unat (rl_window_start_ns rl) + 10 ^ 9 \<Longrightarrow>
   unat (rl_count_in_window rl) + length ts < 2 ^ 64 \<Longrightarrow>
   acquired_count rl ts \<le> window_left rl"
proof (induction ts arbitrary: rl)
  case (Cons t ts)
  let ?rl = "rl\<lparr>rl_count_in_window := rl_count_in_window rl + 1\<rparr>"
  have S: "rate_try_acquire t rl = (window_left rl \<noteq> 0, ?rl)"
    and inc: "unat (rl_count_in_window rl + 1) = unat (rl_count_in_window rl) + 1"
    using rate_try_acquire_stay [of t rl] Cons.prems by auto
  have "acquired_count ?rl ts \<le> window_left ?rl"
    using Cons.IH [of ?rl] Cons.prems by (auto simp: inc)
  moreover have "window_left ?rl = window_left rl - 1" by (simp add: window_left_def inc)
  ultimately show ?case by (auto simp: S)
qed simp

text \<open>Over one second it resets at most once.\<close>

lemma acquired_within_a_second:
  "\<forall>t\<in>set ts. from \<le> unat t \<and> unat t < from + 10 ^ 9 \<Longrightarrow>
   unat (rl_count_in_window rl) + length ts < 2 ^ 64 \<Longrightarrow>
   acquired_count rl ts \<le> window_left rl + max 1 (unat (rl_max_per_second rl))"
proof (induction ts arbitrary: rl)
  case (Cons t ts)
  show ?case
  proof (cases "10 ^ 9 \<le> unat t - unat (rl_window_start_ns rl)")
    case True
    let ?rl = "rl\<lparr>rl_window_start_ns := t, rl_count_in_window := 1\<rparr>"
    have "acquired_count ?rl ts \<le> window_left ?rl"
      using Cons.prems by (intro acquired_in_window) auto
    then show ?thesis
      by (auto simp: rate_try_acquire_reset [OF True] window_left_def)
  next
    case False
    let ?rl = "rl\<lparr>rl_count_in_window := rl_count_in_window rl + 1\<rparr>"
    have S: "rate_try_acquire t rl = (window_left rl \<noteq> 0, ?rl)"
      and inc: "unat (rl_count_in_window rl + 1) = unat (rl_count_in_window rl) + 1"
      using rate_try_acquire_stay [of t rl] False Cons.prems(2) by auto
    have "acquired_count ?rl ts \<le> window_left ?rl + max 1 (unat (rl_max_per_second rl))"
      using Cons.IH [of ?rl] Cons.prems by (auto simp: inc)
    moreover have "window_left ?rl = window_left rl - 1" by (simp add: window_left_def inc)
    ultimately show ?thesis by (auto simp: S)
  qed
qed simp

text \<open>
  The rate limiter is a fixed window, not the sliding one of its comment: whatever its state and whenever it
  is asked, it lets through at most twice its limit within one second, and at most twice one when
  the limit is zero.
\<close>

theorem rate_limit_within_a_second:
  assumes "\<forall>t\<in>set ts. from \<le> unat t \<and> unat t < from + 10 ^ 9"
    and "unat (rl_count_in_window rl) + length ts < 2 ^ 64"
  shows "acquired_count rl ts \<le> unat (rl_max_per_second rl) + max 1 (unat (rl_max_per_second rl))"
  using acquired_within_a_second [OF assms] by (simp add: window_left_def)

theorem rate_limit_within_a_second_witness:
  "acquired_count (rate_limiter_new 2) [1000000000, 1000000001, 1000000002, 1000000003] \<le> 2 + max 1 2"
  using rate_limit_within_a_second
    [of "[1000000000, 1000000001, 1000000002, 1000000003]" "10 ^ 9" "rate_limiter_new 2"]
  by (simp add: rate_limiter_new_def)

section \<open>The guard keeps one order in flight\<close>

text \<open>
  A run of the guard: each caller either tries to acquire it or, having acquired it, releases it.
  The first component lists the callers that hold it.
\<close>

inductive guard_run :: "nat list \<Rightarrow> order_guard \<Rightarrow> bool" where
  fresh: "guard_run [] order_guard_new"
| acquired: "guard_run holders g \<Longrightarrow> guard_try_acquire g = (True, g') \<Longrightarrow> guard_run (i # holders) g'"
| refused: "guard_run holders g \<Longrightarrow> guard_try_acquire g = (False, g') \<Longrightarrow> guard_run holders g'"
| released: "guard_run (i # holders) g \<Longrightarrow> guard_run holders (guard_release g)"

lemma guard_run_exclusive:
  "guard_run holders g \<Longrightarrow> length holders \<le> 1 \<and> (og_in_flight g \<longleftrightarrow> holders \<noteq> [])"
proof (induction rule: guard_run.induct)
  case (released i holders g)
  then show ?case by (cases holders) (auto simp: guard_release_def)
qed (auto simp: guard_try_acquire_def order_guard_new_def split: if_splits)

end
