(* ===== verification/Metrics.thy ===== *)
theory Metrics
  imports FloatOrder Prelude
begin

text \<open>
  The timestamps of a request and their statistics (\<open>rtt-core/src/metrics.rs\<close>): durations between
  checkpoints, and the percentiles of the requests that did not reconnect.
\<close>

section \<open>One request\<close>

record timestamp_record =
  tr_trigger_rx :: u64
  tr_dispatch_q :: u64
  tr_exec_start :: u64
  tr_buf_ready :: u64
  tr_write_begin :: u64
  tr_write_end :: u64
  tr_first_resp_byte :: u64
  tr_headers_done :: u64
  tr_sign_start :: u64
  tr_sign_end :: u64
  tr_is_reconnect :: bool
  tr_cf_ray_pop :: string
  tr_connection_index :: nat

definition timestamp_record_default :: timestamp_record where
  "timestamp_record_default =
     \<lparr>tr_trigger_rx = 0, tr_dispatch_q = 0, tr_exec_start = 0, tr_buf_ready = 0, tr_write_begin = 0,
      tr_write_end = 0, tr_first_resp_byte = 0, tr_headers_done = 0, tr_sign_start = 0, tr_sign_end = 0,
      tr_is_reconnect = False, tr_cf_ray_pop = [], tr_connection_index = 0\<rparr>"

definition queue_delay :: "timestamp_record \<Rightarrow> u64" where
  "queue_delay r = saturating_sub (tr_exec_start r) (tr_trigger_rx r)"

definition prep_time :: "timestamp_record \<Rightarrow> u64" where
  "prep_time r = saturating_sub (tr_buf_ready r) (tr_exec_start r)"

definition trigger_to_wire :: "timestamp_record \<Rightarrow> u64" where
  "trigger_to_wire r = saturating_sub (tr_write_begin r) (tr_trigger_rx r)"

definition write_duration :: "timestamp_record \<Rightarrow> u64" where
  "write_duration r = saturating_sub (tr_write_end r) (tr_write_begin r)"

definition write_to_first_byte :: "timestamp_record \<Rightarrow> u64" where
  "write_to_first_byte r = saturating_sub (tr_first_resp_byte r) (tr_write_end r)"

definition warm_ttfb :: "timestamp_record \<Rightarrow> u64" where
  "warm_ttfb r = saturating_sub (tr_first_resp_byte r) (tr_write_begin r)"

definition trigger_to_first_byte :: "timestamp_record \<Rightarrow> u64" where
  "trigger_to_first_byte r = saturating_sub (tr_first_resp_byte r) (tr_trigger_rx r)"

definition sign_duration :: "timestamp_record \<Rightarrow> u64" where
  "sign_duration r = saturating_sub (tr_sign_end r) (tr_sign_start r)"

section \<open>Percentiles\<close>

record percentile_set =
  ps_p50 :: u64
  ps_p95 :: u64
  ps_p99 :: u64
  ps_p999 :: u64
  ps_max :: u64

definition percentile_set_default :: percentile_set where
  "percentile_set_default = \<lparr>ps_p50 = 0, ps_p95 = 0, ps_p99 = 0, ps_p999 = 0, ps_max = 0\<rparr>"

definition f64_1 :: f64 where
  "f64_1 = round_ratio False 1 1"

definition percentile_index :: "nat \<Rightarrow> f64 \<Rightarrow> nat" where
  "percentile_index n p =
     (let idx = f64_to_u64 (f64_round
                  (f64_mul (f64_div p (round_ratio False 100 1)) (f64_sub (f64_of_u64 (of_nat n)) f64_1)))
      in min (unat idx) (n - 1))"

definition percentiles :: "u64 list \<Rightarrow> percentile_set" where
  "percentiles vals =
     (if vals = [] then percentile_set_default
      else let s = sort vals; n = length s
           in \<lparr>ps_p50 = s ! percentile_index n (round_ratio False 50 1),
               ps_p95 = s ! percentile_index n (round_ratio False 95 1),
               ps_p99 = s ! percentile_index n (round_ratio False 99 1),
               ps_p999 = s ! percentile_index n (round_ratio False 999 10),
               ps_max = s ! (n - 1)\<rparr>)"

record stats_report =
  sr_sample_count :: nat
  sr_reconnect_count :: nat
  sr_queue_delay :: percentile_set
  sr_prep_time :: percentile_set
  sr_trigger_to_wire :: percentile_set
  sr_write_duration :: percentile_set
  sr_write_to_first_byte :: percentile_set
  sr_warm_ttfb :: percentile_set
  sr_trigger_to_first_byte :: percentile_set

definition stats_report_default :: stats_report where
  "stats_report_default =
     \<lparr>sr_sample_count = 0, sr_reconnect_count = 0,
      sr_queue_delay = percentile_set_default, sr_prep_time = percentile_set_default,
      sr_trigger_to_wire = percentile_set_default, sr_write_duration = percentile_set_default,
      sr_write_to_first_byte = percentile_set_default, sr_warm_ttfb = percentile_set_default,
      sr_trigger_to_first_byte = percentile_set_default\<rparr>"

type_synonym stats_aggregator = "timestamp_record list"

definition stats_add :: "timestamp_record \<Rightarrow> stats_aggregator \<Rightarrow> stats_aggregator" where
  "stats_add r records = records @ [r]"

definition stats_compute :: "stats_aggregator \<Rightarrow> stats_report" where
  "stats_compute records =
     (let reconnect_count = length (filter tr_is_reconnect records);
          warm = filter (\<lambda>r. \<not> tr_is_reconnect r) records;
          sample_count = length warm
      in if sample_count = 0
         then stats_report_default\<lparr>sr_reconnect_count := reconnect_count\<rparr>
         else
           \<lparr>sr_sample_count = sample_count, sr_reconnect_count = reconnect_count,
            sr_queue_delay = percentiles (map queue_delay warm),
            sr_prep_time = percentiles (map prep_time warm),
            sr_trigger_to_wire = percentiles (map trigger_to_wire warm),
            sr_write_duration = percentiles (map write_duration warm),
            sr_write_to_first_byte = percentiles (map write_to_first_byte warm),
            sr_warm_ttfb = percentiles (map warm_ttfb warm),
            sr_trigger_to_first_byte = percentiles (map trigger_to_first_byte warm)\<rparr>)"

section \<open>The index of a percentile\<close>

lemma f64_1_eq: "f64_1 = Finite False 4503599627370496 (- 52)"
  by (simp add: f64_1_def round_ratio_def ratio_exp_def round_half_even_def finish_round_def Let_def)

lemma f64_of_u64_minus_1:
  assumes "1 \<le> unat w"
  shows "\<exists>m e. f64_sub (f64_of_u64 w) f64_1 = Finite False m e"
proof -
  have small: "real (unat w) / real (1::nat) < 2 powi 1023"
  proof -
    have "real (unat w) < real (2 ^ 64)" unfolding of_nat_less_iff using unat_less_pow [of w] by simp
    also have "\<dots> < 2 powi 1023" by simp
    finally show ?thesis by simp
  qed
  have fin: "f64_finite (f64_of_u64 w)" unfolding f64_of_u64_def by (rule round_ratio_finite [OF _ small]) simp
  then obtain m e where x: "f64_of_u64 w = Finite False m e"
    using round_ratio_sign unfolding f64_of_u64_def by blast
  have "f64_le f64_1 (f64_of_u64 w)"
    unfolding f64_1_def f64_of_u64_def
  proof (rule round_ratio_mono)
    have "real 1 \<le> real (unat w)" unfolding of_nat_le_iff using assms .
    then show "real 1 / real 1 \<le> real (unat w) / real 1" by simp
  qed simp_all
  then have ge: "signed_units False 4503599627370496 (- 52) (min (- 52) e) \<le> signed_units False m e (min (- 52) e)"
    unfolding f64_1_eq x by simp
  define b where "b = min e (- 52)"
  define v where "v = signed_units False m e b + signed_units True 4503599627370496 (- 52) b"
  have neg: "signed_units True 4503599627370496 (- 52) b = - signed_units False 4503599627370496 (- 52) b"
    by (simp add: signed_units_def)
  have "signed_units False 4503599627370496 (- 52) b \<le> signed_units False m e b"
    using ge unfolding b_def by (simp only: min.commute)
  then have v0: "0 \<le> v" unfolding v_def neg by linarith
  have sub: "f64_sub (f64_of_u64 w) f64_1 =
      (if v = 0 then Finite False 0 (- 1074) else round_ratio (v < 0) (nat \<bar>v\<bar> * 2 ^ nat b) (2 ^ nat (- b)))"
    by (simp add: f64_sub_def f64_1_eq x Let_def v_def b_def)
  show ?thesis
  proof (cases "v = 0")
    case True
    then show ?thesis by (simp add: sub)
  next
    case False
    have "real (nat \<bar>v\<bar> * 2 ^ nat b) / real (2 ^ nat (- b)) = real_of_int v * 2 powi b"
      using v0 by (simp add: powi_split)
    also have "\<dots> = f64_real (Finite False m e) + f64_real (Finite True 4503599627370496 (- 52))"
      unfolding v_def of_int_add distrib_right
      by (subst (1 2) signed_units_real) (simp_all add: b_def)
    also have "\<dots> \<le> f64_real (Finite False m e)" by (simp add: f64_real_def)
    also have "\<dots> \<le> 2 powi 1022"
    proof -
      have "f64_le (f64_of_u64 w) (round_ratio False (2 ^ 64) 1)"
        unfolding f64_of_u64_def
      proof (rule round_ratio_mono)
        have "real (unat w) \<le> real (2 ^ 64)" unfolding of_nat_le_iff using unat_less_pow [of w] by (intro less_imp_le) simp
        then show "real (unat w) / real 1 \<le> real (2 ^ 64) / real 1" by simp
      qed simp_all
      moreover have "round_ratio False (2 ^ 64) 1 = Finite False 4503599627370496 12"
        by (simp add: round_ratio_def ratio_exp_def round_half_even_def finish_round_def Let_def)
      ultimately have "f64_real (Finite False m e) \<le> f64_real (Finite False 4503599627370496 12)"
        unfolding x by (simp only: f64_le_Finite)
      also have "\<dots> \<le> 2 powi 1022" by (simp add: f64_real_def)
      finally show ?thesis .
    qed
    also have "\<dots> < (2::real) powi 1023" by (rule power_int_strict_increasing) simp_all
    finally have "f64_finite (round_ratio (v < 0) (nat \<bar>v\<bar> * 2 ^ nat b) (2 ^ nat (- b)))"
      by (intro round_ratio_finite) simp_all
    then show ?thesis using round_ratio_sign False v0 by (fastforce simp: sub)
  qed
qed

lemma percentile_index_mono:
  assumes p: "f64_div p (round_ratio False 100 1) = Finite False m e"
    and q: "f64_div q (round_ratio False 100 1) = Finite False n f"
    and le: "f64_le (Finite False m e) (Finite False n f)"
    and k: "0 < k" "k < 2 ^ 64"
  shows "percentile_index k p \<le> percentile_index k q"
proof -
  have "unat (of_nat k :: u64) = k" using k(2) by (intro unat_of_nat_less) simp
  then obtain r g where one: "f64_sub (f64_of_u64 (of_nat k)) f64_1 = Finite False r g"
    using f64_of_u64_minus_1 [of "of_nat k"] k(1) by auto
  have nn: "f64_nonneg (f64_mul (Finite False m e) (Finite False r g))"
      "f64_nonneg (f64_mul (Finite False n f) (Finite False r g))"
    by (simp_all only: f64_mul_real(1) round_ratio_nonneg)
  have "f64_to_u64 (f64_round (f64_mul (Finite False m e) (Finite False r g)))
      \<le> f64_to_u64 (f64_round (f64_mul (Finite False n f) (Finite False r g)))"
    by (intro f64_to_u64_mono f64_round_nonneg f64_round_mono f64_mul_mono nn le)
  then show ?thesis
    unfolding percentile_index_def Let_def p q one word_le_nat_alt by (rule min.mono) simp
qed

lemma percent_constants:
  "f64_div (round_ratio False 50 1) (round_ratio False 100 1) = Finite False 4503599627370496 (- 53)"
  "f64_div (round_ratio False 95 1) (round_ratio False 100 1) = Finite False 8556839292003942 (- 53)"
  "f64_div (round_ratio False 99 1) (round_ratio False 100 1) = Finite False 8917127262193582 (- 53)"
  "f64_div (round_ratio False 999 10) (round_ratio False 100 1) = Finite False 8998192055486252 (- 53)"
  by (simp_all add: round_ratio_def ratio_exp_def round_half_even_def finish_round_def Let_def)

lemma percentile_index_less: "0 < n \<Longrightarrow> percentile_index n p < n"
  by (auto simp: percentile_index_def Let_def)

text \<open>
  The percentiles of a non-empty sample are elements of it, in ascending order, and the last is its maximum:
  the float arithmetic of the index never leaves the sample and never inverts two percentiles.
\<close>

theorem percentiles_ordered:
  assumes "vals \<noteq> []" and "length vals < 2 ^ 64"
  shows "ps_p50 (percentiles vals) \<le> ps_p95 (percentiles vals)
    \<and> ps_p95 (percentiles vals) \<le> ps_p99 (percentiles vals)
    \<and> ps_p99 (percentiles vals) \<le> ps_p999 (percentiles vals)
    \<and> ps_p999 (percentiles vals) \<le> ps_max (percentiles vals)
    \<and> ps_p50 (percentiles vals) \<in> set vals \<and> ps_p95 (percentiles vals) \<in> set vals
    \<and> ps_p99 (percentiles vals) \<in> set vals \<and> ps_p999 (percentiles vals) \<in> set vals
    \<and> ps_max (percentiles vals) = Max (set vals)"
proof -
  define n where "n = length vals"
  have n: "0 < n" "n < 2 ^ 64" using assms by (simp_all add: n_def)
  have nth: "sort vals ! i \<le> sort vals ! j" if "i \<le> j" "j < n" for i j
    using that sorted_nth_mono [OF sorted_sort, of i j vals] by (simp add: n_def)
  have member: "sort vals ! i \<in> set vals" if "i < n" for i
    using List.nth_mem [of i "sort vals"] that by (simp add: n_def)
  have maximal: "sort vals ! (n - 1) = Max (set vals)"
  proof (rule Max_eqI [symmetric])
    show "sort vals ! (n - 1) \<in> set vals" using member n by simp
    fix y assume "y \<in> set vals"
    then obtain i where "i < n" "y = sort vals ! i" by (metis in_set_conv_nth length_sort n_def set_sort)
    with nth n show "y \<le> sort vals ! (n - 1)" by simp
  qed simp
  note below = percentile_index_less [OF n(1)]
  note mono = percentile_index_mono [OF _ _ _ n]
  have steps: "percentile_index n (round_ratio False 50 1) \<le> percentile_index n (round_ratio False 95 1)"
      "percentile_index n (round_ratio False 95 1) \<le> percentile_index n (round_ratio False 99 1)"
      "percentile_index n (round_ratio False 99 1) \<le> percentile_index n (round_ratio False 999 10)"
    by (rule mono [OF percent_constants(1,2)] mono [OF percent_constants(2,3)] mono [OF percent_constants(3,4)],
        simp add: signed_units_def)+
  have P: "percentiles vals =
    \<lparr>ps_p50 = sort vals ! percentile_index n (round_ratio False 50 1),
     ps_p95 = sort vals ! percentile_index n (round_ratio False 95 1),
     ps_p99 = sort vals ! percentile_index n (round_ratio False 99 1),
     ps_p999 = sort vals ! percentile_index n (round_ratio False 999 10),
     ps_max = sort vals ! (n - 1)\<rparr>"
    using assms(1) by (simp add: percentiles_def Let_def n_def)
  have final: "percentile_index n (round_ratio False 999 10) \<le> n - 1"
    using below [of "round_ratio False 999 10"] by linarith
  show ?thesis unfolding P
    using nth [OF steps(1) below] nth [OF steps(2) below] nth [OF steps(3) below] nth [OF final] member below maximal n
    by simp
qed

theorem percentiles_ordered_witness:
  "ps_p50 (percentiles [5, 1, 3]) \<le> ps_p95 (percentiles [5, 1, 3])
   \<and> ps_max (percentiles [5, 1, 3]) = Max (set [5, 1, 3])"
  using percentiles_ordered [of "[5, 1, 3]"] by simp

end
