(* ===== verification/Connection.thy ===== *)
theory Connection
  imports RustText
begin

text \<open>
  The pool of HTTP/2 connections (\<open>rtt-core/src/connection.rs\<close>): dialling over the resolved addresses, the
  round robin, and the flags that decide when a connection is dialled again. DNS, TCP, TLS and
  HTTP/2 are libraries: a \<open>network\<close> holds their calls, each of which reads and changes the state of
  the world. One task at a time uses the pool, so its locks are never contended.
\<close>

section \<open>Requests, responses and the network\<close>

record http_request =
  rq_method :: string
  rq_uri :: string
  rq_headers :: "(string \<times> string) list"
  rq_body :: string

record http_response =
  rs_headers :: "(string \<times> string) list"
  rs_body :: string

text \<open>
  The library calls: the addresses of a host, the stages of a connection, the submission of a request,
  which yields the future of its response, and the two stages of that future. \<open>'w\<close> is the world, \<open>'a\<close> an address,
  \<open>'t\<close> a stream, \<open>'s\<close> the sender of a connection and \<open>'f\<close> a future.
\<close>

record ('w, 'a, 't, 's, 'f) network =
  nw_resolve :: "string \<Rightarrow> 16 word \<Rightarrow> 'w \<Rightarrow> (string, 'a list) result \<times> 'w"
  nw_is_ipv4 :: "'a \<Rightarrow> bool"
  nw_show_addr :: "'a \<Rightarrow> string"
  nw_tcp_connect :: "'a \<Rightarrow> 'w \<Rightarrow> (string, 't) result \<times> 'w"
  nw_set_nodelay :: "'t \<Rightarrow> 'w \<Rightarrow> (string, unit) result \<times> 'w"
  nw_server_name :: "string \<Rightarrow> (string, string) result"
  nw_tls_connect :: "string \<Rightarrow> 't \<Rightarrow> 'w \<Rightarrow> (string, 't) result \<times> 'w"
  nw_handshake :: "'t \<Rightarrow> 'w \<Rightarrow> (string, 's) result \<times> 'w"
  nw_submit :: "'s \<Rightarrow> http_request \<Rightarrow> 'w \<Rightarrow> 'f \<times> 'w"
  nw_head :: "'f \<Rightarrow> 'w \<Rightarrow> (string, (string \<times> string) list) result \<times> 'w"
  nw_body :: "'f \<Rightarrow> 'w \<Rightarrow> (string, string) result \<times> 'w"

datatype address_family = AfAuto | AfV4 | AfV6

record connection_health =
  ch_index :: nat
  ch_healthy :: bool
  ch_last_error :: "string option"

datatype 'a connection_error =
    PoolEmpty
  | Resolve string
  | Connect "'a option" string
  | Collect nat string
  | Reconnect nat string

fun connection_index :: "'a connection_error \<Rightarrow> nat option" where
  "connection_index (Collect i e) = Some i"
| "connection_index (Reconnect i e) = Some i"
| "connection_index PoolEmpty = None"
| "connection_index (Resolve e) = None"
| "connection_index (Connect a e) = None"

fun connection_error_text :: "('a \<Rightarrow> string) \<Rightarrow> 'a connection_error \<Rightarrow> string" where
  "connection_error_text show_addr PoolEmpty = ''connection pool is empty''"
| "connection_error_text show_addr (Resolve err) = ''failed to resolve host: '' @ err"
| "connection_error_text show_addr (Connect (Some a) err) =
     ''failed to establish H2 connection to '' @ show_addr a @ '': '' @ err"
| "connection_error_text show_addr (Connect None err) = ''failed to establish H2 connection: '' @ err"
| "connection_error_text show_addr (Collect i err) =
     ''failed while collecting response on connection '' @ show_nat i @ '': '' @ err"
| "connection_error_text show_addr (Reconnect i err) =
     ''failed to reconnect connection '' @ show_nat i @ '': '' @ err"

text \<open>The text after the last dash, if there is one.\<close>

definition extract_pop :: "string \<Rightarrow> string" where
  "extract_pop cf_ray =
     (if CHR ''-'' \<in> set cf_ray then rev (takeWhile (\<lambda>c. c \<noteq> CHR ''-'') (rev cf_ray)) else [])"

text \<open>
  The first \<open>cf-ray\<close> header; \<open>to_str\<close> refuses a value with a character outside the visible ASCII ones and the tab.
\<close>

definition visible_ascii :: "char \<Rightarrow> bool" where
  "visible_ascii c \<longleftrightarrow> (let n = (of_char c :: nat) in 32 \<le> n \<and> n < 127 \<or> n = 9)"

definition get_cf_ray :: "http_response \<Rightarrow> string option" where
  "get_cf_ray resp =
     Option.bind (map_of (rs_headers resp) ''cf-ray'')
       (\<lambda>v. if list_all visible_ascii v then Some v else None)"

text \<open>A request on a sender, with the collected body of its response.\<close>

definition send_request ::
    "('w, 'a, 't, 's, 'f) network \<Rightarrow> 's \<Rightarrow> http_request \<Rightarrow> 'w \<Rightarrow> (string, http_response) result \<times> 'w" where
  "send_request nw sender req w =
     (case nw_submit nw sender req w of (future, w) \<Rightarrow>
     (case nw_head nw future w of
        (Inl e, w) \<Rightarrow> (Inl e, w)
      | (Inr headers, w) \<Rightarrow>
     (case nw_body nw future w of
        (Inl e, w) \<Rightarrow> (Inl e, w)
      | (Inr body, w) \<Rightarrow> (Inr \<lparr>rs_headers = headers, rs_body = body\<rparr>, w))))"

section \<open>Dialling\<close>

definition resolve ::
    "('w, 'a, 't, 's, 'f) network \<Rightarrow> string \<Rightarrow> 16 word \<Rightarrow> address_family \<Rightarrow> 'w
      \<Rightarrow> (string, 'a list) result \<times> 'w" where
  "resolve nw host port af w =
     (case nw_resolve nw host port w of
        (Inl e, w) \<Rightarrow> (Inl e, w)
      | (Inr addrs, w) \<Rightarrow>
          (let filtered = (case af of
                             AfAuto \<Rightarrow> addrs
                           | AfV4 \<Rightarrow> filter (nw_is_ipv4 nw) addrs
                           | AfV6 \<Rightarrow> filter (\<lambda>a. \<not> nw_is_ipv4 nw a) addrs)
           in (if filtered = [] then Inl ''no addresses found for requested family'' else Inr filtered, w)))"

definition connect_sender_for_addr ::
    "('w, 'a, 't, 's, 'f) network \<Rightarrow> string \<Rightarrow> 'a \<Rightarrow> 'w \<Rightarrow> ('a connection_error, 's) result \<times> 'w" where
  "connect_sender_for_addr nw host addr w =
     (case nw_tcp_connect nw addr w of
        (Inl e, w) \<Rightarrow> (Inl (Connect (Some addr) e), w)
      | (Inr tcp, w) \<Rightarrow>
     (case nw_set_nodelay nw tcp w of
        (Inl e, w) \<Rightarrow> (Inl (Connect (Some addr) e), w)
      | (Inr _, w) \<Rightarrow>
     (case nw_server_name nw host of
        Inl e \<Rightarrow> (Inl (Connect (Some addr) e), w)
      | Inr server_name \<Rightarrow>
     (case nw_tls_connect nw server_name tcp w of
        (Inl e, w) \<Rightarrow> (Inl (Connect (Some addr) e), w)
      | (Inr tls, w) \<Rightarrow>
     (case nw_handshake nw tls w of
        (Inl e, w) \<Rightarrow> (Inl (Connect (Some addr) e), w)
      | (Inr sender, w) \<Rightarrow> (Inr sender, w))))))"

fun connect_first ::
    "('w, 'a, 't, 's, 'f) network \<Rightarrow> string \<Rightarrow> 'a list \<Rightarrow> 'a connection_error option \<Rightarrow> 'w
      \<Rightarrow> ('a connection_error, 's) result \<times> 'w" where
  "connect_first nw host [] last_error w =
     (Inl (unwrap_or (Connect None ''all resolved addresses failed'') last_error), w)"
| "connect_first nw host (addr # addrs) last_error w =
     (case connect_sender_for_addr nw host addr w of
        (Inr sender, w) \<Rightarrow> (Inr sender, w)
      | (Inl err, w) \<Rightarrow> connect_first nw host addrs (Some err) w)"

definition connect_h2 ::
    "('w, 'a, 't, 's, 'f) network \<Rightarrow> string \<Rightarrow> 16 word \<Rightarrow> address_family \<Rightarrow> 'w
      \<Rightarrow> ('a connection_error, 's) result \<times> 'w" where
  "connect_h2 nw host port af w =
     (case resolve nw host port af w of
        (Inl e, w) \<Rightarrow> (Inl (Resolve e), w)
      | (Inr addrs, w) \<Rightarrow> connect_first nw host addrs None w)"

text \<open>The probe for HTTP/3 (\<open>h3_stub.rs\<close>): the \<open>alt-svc\<close> header, when it names \<open>h3\<close>.\<close>

datatype h3_status = NotImplemented

definition h3_current :: h3_status where
  "h3_current = NotImplemented"

definition text_contains :: "string \<Rightarrow> string \<Rightarrow> bool" where
  "text_contains part s \<longleftrightarrow> (\<exists>i \<in> set [0..<Suc (length s)]. take (length part) (drop i s) = part)"

definition probe_alt_svc ::
    "('w, 'a, 't, 's, 'f) network \<Rightarrow> string \<Rightarrow> 'w \<Rightarrow> ('a connection_error + string, string option) result \<times> 'w" where
  "probe_alt_svc nw host w =
     (case connect_h2 nw host 443 AfAuto w of
        (Inl e, w) \<Rightarrow> (Inl (Inl e), w)
      | (Inr sender, w) \<Rightarrow>
     (case send_request nw sender
             \<lparr>rq_method = ''GET'', rq_uri = ''/'', rq_headers = [(''host'', host)], rq_body = []\<rparr> w of
        (Inl e, w) \<Rightarrow> (Inl (Inr e), w)
      | (Inr resp, w) \<Rightarrow>
          (let alt_svc = Option.bind (map_of (rs_headers resp) ''alt-svc'')
                 (\<lambda>v. if list_all visible_ascii v then Some v else None)
           in (Inr (case alt_svc of
                      Some s \<Rightarrow> if text_contains ''h3'' s then Some s else None
                    | None \<Rightarrow> None), w))))"

section \<open>The pool\<close>

record 's h2_connection =
  hc_sender :: 's
  hc_healthy :: bool

text \<open>
  \<open>Vec::with_capacity\<close> promises at least the asked capacity, so the capacity that \<open>warmup\<close> reads is the
  allocator's answer \<open>alloc\<close>.
\<close>

record 's connection_pool =
  cp_host :: string
  cp_port :: "16 word"
  cp_af :: address_family
  cp_capacity :: nat
  cp_connections :: "'s h2_connection list"
  cp_next_index :: u64

definition connection_pool_new ::
    "(nat \<Rightarrow> nat) \<Rightarrow> string \<Rightarrow> 16 word \<Rightarrow> nat \<Rightarrow> address_family \<Rightarrow> 's connection_pool" where
  "connection_pool_new alloc host port pool_size af =
     \<lparr>cp_host = host, cp_port = port, cp_af = af, cp_capacity = alloc pool_size,
      cp_connections = [], cp_next_index = 0\<rparr>"

fun warmup_loop ::
    "('w, 'a, 't, 's, 'f) network \<Rightarrow> nat \<Rightarrow> 's connection_pool \<Rightarrow> 'w
      \<Rightarrow> ('a connection_error, unit) result \<times> 's connection_pool \<times> 'w" where
  "warmup_loop nw 0 pool w = (Inr (), pool, w)"
| "warmup_loop nw (Suc n) pool w =
     (case connect_h2 nw (cp_host pool) (cp_port pool) (cp_af pool) w of
        (Inl e, w) \<Rightarrow> (Inl e, pool, w)
      | (Inr sender, w) \<Rightarrow>
          warmup_loop nw n
            (pool\<lparr>cp_connections := cp_connections pool @ [\<lparr>hc_sender = sender, hc_healthy = True\<rparr>]\<rparr>) w)"

definition warmup ::
    "('w, 'a, 't, 's, 'f) network \<Rightarrow> 's connection_pool \<Rightarrow> 'w
      \<Rightarrow> ('a connection_error, nat) result \<times> 's connection_pool \<times> 'w" where
  "warmup nw pool w =
     (let pool_size = cp_capacity pool
      in case warmup_loop nw pool_size (pool\<lparr>cp_connections := []\<rparr>) w of
           (Inl e, pool, w) \<Rightarrow> (Inl e, pool, w)
         | (Inr _, pool, w) \<Rightarrow> (Inr pool_size, pool, w))"

definition acquire :: "'s connection_pool \<Rightarrow> ('a connection_error, nat) result \<times> 's connection_pool" where
  "acquire pool =
     (if cp_connections pool = [] then (Inl PoolEmpty, pool)
      else (Inr (unat (cp_next_index pool) mod length (cp_connections pool)),
            pool\<lparr>cp_next_index := cp_next_index pool + 1\<rparr>))"

definition reconnect ::
    "('w, 'a, 't, 's, 'f) network \<Rightarrow> nat \<Rightarrow> 's connection_pool \<Rightarrow> 'w
      \<Rightarrow> ('a connection_error, unit) result \<times> 's connection_pool \<times> 'w" where
  "reconnect nw index pool w =
     (case connect_h2 nw (cp_host pool) (cp_port pool) (cp_af pool) w of
        (Inl e, w) \<Rightarrow> (Inl (Reconnect index (connection_error_text (nw_show_addr nw) e)), pool, w)
      | (Inr sender, w) \<Rightarrow>
          if index < length (cp_connections pool)
          then (Inr (),
                pool\<lparr>cp_connections := (cp_connections pool)[index := \<lparr>hc_sender = sender, hc_healthy = True\<rparr>]\<rparr>, w)
          else (Inl (Reconnect index ''connection index out of range''), pool, w))"

definition set_healthy :: "nat \<Rightarrow> bool \<Rightarrow> 's connection_pool \<Rightarrow> 's connection_pool" where
  "set_healthy index b pool =
     pool\<lparr>cp_connections := (cp_connections pool)[index := (cp_connections pool ! index)\<lparr>hc_healthy := b\<rparr>]\<rparr>"

definition ensure_healthy ::
    "('w, 'a, 't, 's, 'f) network \<Rightarrow> nat \<Rightarrow> 's connection_pool \<Rightarrow> 'w
      \<Rightarrow> ('a connection_error, unit) result \<times> 's connection_pool \<times> 'w" where
  "ensure_healthy nw index pool w =
     (if hc_healthy (cp_connections pool ! index) then (Inr (), pool, w) else reconnect nw index pool w)"

definition report_failure ::
    "('w, 'a, 't, 's, 'f) network \<Rightarrow> nat \<Rightarrow> 's connection_pool \<Rightarrow> 'w
      \<Rightarrow> ('a connection_error, unit) result \<times> 's connection_pool \<times> 'w" where
  "report_failure nw index pool w =
     (if index < length (cp_connections pool)
      then reconnect nw index (set_healthy index False pool) w
      else (Inl (Reconnect index ''connection index out of range''), pool, w))"

record 'f send_handle =
  sh_resp_future :: 'f
  sh_connection_index :: nat

definition send_start ::
    "('w, 'a, 't, 's, 'f) network \<Rightarrow> http_request \<Rightarrow> 's connection_pool \<Rightarrow> 'w
      \<Rightarrow> ('a connection_error, 'f send_handle) result \<times> 's connection_pool \<times> 'w" where
  "send_start nw req pool w =
     (case acquire pool of
        (Inl e, pool) \<Rightarrow> (Inl e, pool, w)
      | (Inr idx, pool) \<Rightarrow>
     (case ensure_healthy nw idx pool w of
        (Inl e, pool, w) \<Rightarrow> (Inl e, pool, w)
      | (Inr _, pool, w) \<Rightarrow>
          (let (future, w) = nw_submit nw (hc_sender (cp_connections pool ! idx)) req w
           in (Inr \<lparr>sh_resp_future = future, sh_connection_index = idx\<rparr>, pool, w))))"

definition collect_response ::
    "('w, 'a, 't, 's, 'f) network \<Rightarrow> 'f \<Rightarrow> 'w \<Rightarrow> (string, http_response) result \<times> 'w" where
  "collect_response nw future w =
     (case nw_head nw future w of
        (Inl e, w) \<Rightarrow> (Inl e, w)
      | (Inr headers, w) \<Rightarrow>
     (case nw_body nw future w of
        (Inl e, w) \<Rightarrow> (Inl e, w)
      | (Inr body, w) \<Rightarrow> (Inr \<lparr>rs_headers = headers, rs_body = body\<rparr>, w)))"

definition send_handle_collect ::
    "('w, 'a, 't, 's, 'f) network \<Rightarrow> 'f send_handle \<Rightarrow> 'w
      \<Rightarrow> ('a connection_error, http_response) result \<times> 'w" where
  "send_handle_collect nw handle w =
     (case collect_response nw (sh_resp_future handle) w of
        (Inl e, w) \<Rightarrow> (Inl (Collect (sh_connection_index handle) e), w)
      | (Inr resp, w) \<Rightarrow> (Inr resp, w))"

definition collect ::
    "('w, 'a, 't, 's, 'f) network \<Rightarrow> 'f send_handle \<Rightarrow> 's connection_pool \<Rightarrow> 'w
      \<Rightarrow> ('a connection_error, http_response) result \<times> 's connection_pool \<times> 'w" where
  "collect nw handle pool w =
     (let idx = sh_connection_index handle
      in case send_handle_collect nw handle w of
           (Inr resp, w) \<Rightarrow> (Inr resp, pool, w)
         | (Inl err, w) \<Rightarrow>
             (case report_failure nw idx pool w of (_, pool, w) \<Rightarrow> (Inl err, pool, w)))"

definition send ::
    "('w, 'a, 't, 's, 'f) network \<Rightarrow> http_request \<Rightarrow> 's connection_pool \<Rightarrow> 'w
      \<Rightarrow> ('a connection_error, http_response \<times> nat) result \<times> 's connection_pool \<times> 'w" where
  "send nw req pool w =
     (case send_start nw req pool w of
        (Inl e, pool, w) \<Rightarrow> (Inl e, pool, w)
      | (Inr handle, pool, w) \<Rightarrow>
          (let idx = sh_connection_index handle
           in case collect nw handle pool w of
                (Inl e, pool, w) \<Rightarrow> (Inl e, pool, w)
              | (Inr resp, pool, w) \<Rightarrow> (Inr (resp, idx), pool, w)))"

section \<open>Health checks\<close>

definition health_request :: "'s connection_pool \<Rightarrow> http_request" where
  "health_request pool =
     \<lparr>rq_method = ''GET'', rq_uri = ''/'', rq_headers = [(''host'', cp_host pool)], rq_body = []\<rparr>"

definition check_connection ::
    "('w, 'a, 't, 's, 'f) network \<Rightarrow> nat \<Rightarrow> 's connection_pool \<Rightarrow> 'w
      \<Rightarrow> connection_health \<times> 's connection_pool \<times> 'w" where
  "check_connection nw index pool w =
     (let (future, w) = nw_submit nw (hc_sender (cp_connections pool ! index)) (health_request pool) w
      in case collect_response nw future w of
           (Inr _, w) \<Rightarrow>
             (\<lparr>ch_index = index, ch_healthy = True, ch_last_error = None\<rparr>, set_healthy index True pool, w)
         | (Inl err, w) \<Rightarrow>
             (case reconnect nw index (set_healthy index False pool) w of
                (_, pool, w) \<Rightarrow>
                  (\<lparr>ch_index = index, ch_healthy = False, ch_last_error = Some err\<rparr>, pool, w)))"

fun check_connections ::
    "('w, 'a, 't, 's, 'f) network \<Rightarrow> nat list \<Rightarrow> 's connection_pool \<Rightarrow> 'w
      \<Rightarrow> connection_health list \<times> 's connection_pool \<times> 'w" where
  "check_connections nw [] pool w = ([], pool, w)"
| "check_connections nw (i # rest) pool w =
     (let (h, pool, w) = check_connection nw i pool w;
          (hs, pool, w) = check_connections nw rest pool w
      in (h # hs, pool, w))"

definition health_check_detailed ::
    "('w, 'a, 't, 's, 'f) network \<Rightarrow> 's connection_pool \<Rightarrow> 'w
      \<Rightarrow> connection_health list \<times> 's connection_pool \<times> 'w" where
  "health_check_detailed nw pool w = check_connections nw [0..<length (cp_connections pool)] pool w"

definition health_check ::
    "('w, 'a, 't, 's, 'f) network \<Rightarrow> 's connection_pool \<Rightarrow> 'w \<Rightarrow> nat \<times> 's connection_pool \<times> 'w" where
  "health_check nw pool w =
     (let (statuses, pool, w) = health_check_detailed nw pool w
      in (length (filter ch_healthy statuses), pool, w))"

definition pool_size :: "'s connection_pool \<Rightarrow> nat" where
  "pool_size pool = length (cp_connections pool)"

section \<open>A failed connection is not used again\<close>

text \<open>
  What the libraries promise of the history of a world: \<open>used w\<close> are the senders handed out so far and
  \<open>failed w\<close> those whose latest response failed. A handshake hands out a new sender, and only the response
  to a request on a sender changes whether it counts as failed.
\<close>

definition same_history ::
    "('w \<Rightarrow> 's set) \<Rightarrow> ('w \<Rightarrow> 's set) \<Rightarrow> 'w \<Rightarrow> 'w \<Rightarrow> bool" where
  "same_history used failed w w' \<longleftrightarrow> used w' = used w \<and> failed w' = failed w"

definition dialled ::
    "('w \<Rightarrow> 's set) \<Rightarrow> ('w \<Rightarrow> 's set) \<Rightarrow> 'w \<Rightarrow> ('e, 's) result \<Rightarrow> 'w \<Rightarrow> bool" where
  "dialled used failed w r w' \<longleftrightarrow>
     failed w' = failed w \<and>
     (case r of Inl e \<Rightarrow> used w' = used w | Inr s \<Rightarrow> s \<notin> used w \<and> used w' = insert s (used w))"

definition network_history ::
    "('w, 'a, 't, 's, 'f) network \<Rightarrow> ('w \<Rightarrow> 's set) \<Rightarrow> ('w \<Rightarrow> 's set) \<Rightarrow> ('f \<Rightarrow> 's) \<Rightarrow> bool" where
  "network_history nw used failed sender_of \<longleftrightarrow>
     (\<forall>host port w r w'. nw_resolve nw host port w = (r, w') \<longrightarrow> same_history used failed w w')
   \<and> (\<forall>a w r w'. nw_tcp_connect nw a w = (r, w') \<longrightarrow> same_history used failed w w')
   \<and> (\<forall>t w r w'. nw_set_nodelay nw t w = (r, w') \<longrightarrow> same_history used failed w w')
   \<and> (\<forall>n t w r w'. nw_tls_connect nw n t w = (r, w') \<longrightarrow> same_history used failed w w')
   \<and> (\<forall>t w r w'. nw_handshake nw t w = (r, w') \<longrightarrow> dialled used failed w r w')
   \<and> (\<forall>s req w f w'. nw_submit nw s req w = (f, w') \<longrightarrow> same_history used failed w w' \<and> sender_of f = s)
   \<and> (\<forall>f w h w'. nw_head nw f w = (Inr h, w') \<longrightarrow> same_history used failed w w')
   \<and> (\<forall>f w b w'. nw_body nw f w = (Inr b, w') \<longrightarrow>
        used w' = used w \<and> failed w' = failed w - {sender_of f})
   \<and> (\<forall>f w e w'. nw_head nw f w = (Inl e, w') \<or> nw_body nw f w = (Inl e, w') \<longrightarrow>
        used w' = used w \<and> failed w' \<subseteq> insert (sender_of f) (failed w))"

definition pool_ok :: "('w \<Rightarrow> 's set) \<Rightarrow> ('w \<Rightarrow> 's set) \<Rightarrow> 's connection_pool \<Rightarrow> 'w \<Rightarrow> bool" where
  "pool_ok used failed pool w \<longleftrightarrow>
     distinct (map hc_sender (cp_connections pool))
   \<and> hc_sender ` set (cp_connections pool) \<subseteq> used w
   \<and> failed w \<subseteq> used w
   \<and> (\<forall>c\<in>set (cp_connections pool). hc_healthy c \<longrightarrow> hc_sender c \<notin> failed w)"

text \<open>The promises, one call at a time.\<close>

lemma network_history_calls:
  assumes "network_history nw used failed sender_of"
  shows "nw_resolve nw host port w = (r0, w') \<Longrightarrow> same_history used failed w w'"
    and "nw_tcp_connect nw a w = (r1, w') \<Longrightarrow> same_history used failed w w'"
    and "nw_set_nodelay nw t w = (r2, w') \<Longrightarrow> same_history used failed w w'"
    and "nw_tls_connect nw n t w = (r3, w') \<Longrightarrow> same_history used failed w w'"
    and "nw_submit nw s req w = (f, w') \<Longrightarrow> same_history used failed w w' \<and> sender_of f = s"
  using assms unfolding network_history_def by (elim conjE, simp)+

lemma network_history_results:
  assumes "network_history nw used failed sender_of"
  shows "nw_handshake nw t w = (r, w') \<Longrightarrow> dialled used failed w r w'"
    and "nw_head nw f w = (Inr h, w') \<Longrightarrow> same_history used failed w w'"
    and "nw_head nw f w = (Inl e, w') \<Longrightarrow> used w' = used w \<and> failed w' \<subseteq> insert (sender_of f) (failed w)"
    and "nw_body nw f w = (Inr b, w') \<Longrightarrow> used w' = used w \<and> failed w' = failed w - {sender_of f}"
    and "nw_body nw f w = (Inl e, w') \<Longrightarrow> used w' = used w \<and> failed w' \<subseteq> insert (sender_of f) (failed w)"
  using assms unfolding network_history_def by (elim conjE, simp)+

lemma dialled_after: "same_history used failed w w1 \<Longrightarrow> dialled used failed w1 r w' \<Longrightarrow> dialled used failed w r w'"
  by (cases r) (simp_all add: same_history_def dialled_def)

lemma dialled_Inl: "dialled used failed w (Inl e) w' \<longleftrightarrow> same_history used failed w w'"
  by (auto simp: same_history_def dialled_def)

lemma connect_sender_dialled:
  assumes H: "network_history nw used failed sender_of"
    and c: "connect_sender_for_addr nw host addr w = (r, w')"
  shows "dialled used failed w r w'"
proof -
  note calls = network_history_calls [OF H] and after = dialled_after
  from c show ?thesis
    unfolding connect_sender_for_addr_def
    by (auto split: prod.splits sum.splits simp: dialled_Inl
        dest!: calls network_history_results(1) [OF H]) (auto simp: dialled_def same_history_def)
qed

lemma connect_first_dialled:
  assumes "network_history nw used failed sender_of"
  shows "connect_first nw host addrs last_error w = (r, w') \<Longrightarrow> dialled used failed w r w'"
proof (induction addrs arbitrary: last_error w)
  case (Cons a addrs)
  obtain r1 w1 where 1: "connect_sender_for_addr nw host a w = (r1, w1)" by force
  note d = connect_sender_dialled [OF assms 1]
  show ?case
  proof (cases r1)
    case (Inl e)
    with 1 Cons.prems have "connect_first nw host addrs (Some e) w1 = (r, w')" by simp
    from Cons.IH [OF this] d show ?thesis by (auto simp: Inl dialled_Inl intro: dialled_after)
  next
    case (Inr s)
    with 1 Cons.prems d show ?thesis by simp
  qed
qed (auto simp: dialled_def)

lemma connect_h2_dialled:
  assumes "network_history nw used failed sender_of" and "connect_h2 nw host port af w = (r, w')"
  shows "dialled used failed w r w'"
proof -
  obtain r1 w1 where 1: "nw_resolve nw host port w = (r1, w1)" by force
  note s = network_history_calls(1) [OF assms(1) 1]
  obtain r2 where 2: "resolve nw host port af w = (r2, w1)"
    using 1 by (cases r1) (auto simp: resolve_def Let_def)
  show ?thesis
  proof (cases r2)
    case (Inl e)
    with 2 s assms(2) show ?thesis by (auto simp: connect_h2_def dialled_Inl)
  next
    case (Inr addrs)
    with 2 assms(2) have "connect_first nw host addrs None w1 = (r, w')" by (simp add: connect_h2_def)
    from dialled_after [OF s connect_first_dialled [OF assms(1) this]] show ?thesis .
  qed
qed

lemma response_history:
  assumes H: "network_history nw used failed sender_of" and c: "collect_response nw f w = (r, w')"
  shows "used w' = used w" "failed w' \<subseteq> insert (sender_of f) (failed w)"
    "r = Inr resp \<Longrightarrow> failed w' = failed w - {sender_of f}"
  using c network_history_results(2-5) [OF H]
  by (auto simp: collect_response_def same_history_def split: prod.splits sum.splits; blast)+

section \<open>The invariant of the pool\<close>

lemma pool_ok_same:
  "pool_ok used failed pool w \<Longrightarrow> same_history used failed w w' \<Longrightarrow>
   cp_connections pool' = cp_connections pool \<Longrightarrow> pool_ok used failed pool' w'"
  by (simp add: pool_ok_def same_history_def)

lemma distinct_map_update:
  "distinct (map f xs) \<Longrightarrow> i < length xs \<Longrightarrow> f y \<notin> f ` set xs \<or> f y = f (xs ! i) \<Longrightarrow>
   distinct (map f (xs[i := y]))"
  by (auto simp: map_update distinct_list_update image_iff)

text \<open>A new sender replaces a connection; nothing is asked of the one it replaces.\<close>

definition pool_ok_but :: "nat \<Rightarrow> ('w \<Rightarrow> 's set) \<Rightarrow> ('w \<Rightarrow> 's set) \<Rightarrow> 's connection_pool \<Rightarrow> 'w \<Rightarrow> bool" where
  "pool_ok_but i used failed pool w \<longleftrightarrow>
     distinct (map hc_sender (cp_connections pool))
   \<and> hc_sender ` set (cp_connections pool) \<subseteq> used w
   \<and> failed w \<subseteq> used w
   \<and> (\<forall>j<length (cp_connections pool). j \<noteq> i \<longrightarrow> hc_healthy (cp_connections pool ! j)
         \<longrightarrow> hc_sender (cp_connections pool ! j) \<notin> failed w)"

lemma pool_ok_but: "pool_ok used failed pool w \<Longrightarrow> pool_ok_but i used failed pool w"
  by (simp add: pool_ok_def pool_ok_but_def)

lemma pool_ok_unhealthy:
  "pool_ok_but i used failed pool w \<Longrightarrow> pool_ok used failed (set_healthy i False pool) w"
proof -
  assume ok: "pool_ok_but i used failed pool w"
  have s: "map hc_sender (cp_connections (set_healthy i False pool)) = map hc_sender (cp_connections pool)"
    by (simp add: set_healthy_def map_update) (metis length_map list_update_beyond list_update_id map_update nth_map not_le)
  then have "hc_sender ` set (cp_connections (set_healthy i False pool)) = hc_sender ` set (cp_connections pool)"
    by (metis list.set_map)
  moreover have "hc_sender (cp_connections (set_healthy i False pool) ! j) \<notin> failed w"
    if "j < length (cp_connections pool)" "hc_healthy (cp_connections (set_healthy i False pool) ! j)" for j
  proof (cases "j = i")
    case True
    with that show ?thesis by (simp add: set_healthy_def)
  next
    case False
    with that ok show ?thesis by (simp add: set_healthy_def pool_ok_but_def)
  qed
  ultimately show ?thesis
    using ok s by (simp add: pool_ok_def pool_ok_but_def all_set_conv_all_nth) (simp add: set_healthy_def)
qed

lemma pool_ok_replaced:
  assumes ok: "pool_ok_but i used failed pool w" and i: "i < length (cp_connections pool)"
    and d: "dialled used failed w (Inr s) w'"
  shows "pool_ok used failed
    (pool\<lparr>cp_connections := (cp_connections pool)[i := \<lparr>hc_sender = s, hc_healthy = True\<rparr>]\<rparr>) w'"
proof -
  let ?c = "\<lparr>hc_sender = s, hc_healthy = True\<rparr>"
  from d have f: "failed w' = failed w" and u: "s \<notin> used w" "used w' = insert s (used w)"
    by (auto simp: dialled_def)
  have "s \<notin> hc_sender ` set (cp_connections pool)" using ok u by (auto simp: pool_ok_but_def)
  then have "distinct (map hc_sender ((cp_connections pool)[i := ?c]))"
    using ok i by (intro distinct_map_update) (auto simp: pool_ok_but_def)
  moreover have "hc_sender ` set ((cp_connections pool)[i := ?c]) \<subseteq> used w'"
  proof -
    have "hc_sender ` set ((cp_connections pool)[i := ?c]) \<subseteq> hc_sender ` insert ?c (set (cp_connections pool))"
      by (intro image_mono set_update_subset_insert)
    with ok u show ?thesis by (auto simp: pool_ok_but_def)
  qed
  moreover have "hc_sender ((cp_connections pool)[i := ?c] ! j) \<notin> failed w'"
    if "j < length (cp_connections pool)" "hc_healthy ((cp_connections pool)[i := ?c] ! j)" for j
  proof (cases "j = i")
    case True
    have "s \<notin> failed w" using ok u by (auto simp: pool_ok_but_def)
    with True i f show ?thesis by simp
  next
    case False
    with that ok f show ?thesis by (simp add: pool_ok_but_def)
  qed
  moreover have "failed w' \<subseteq> used w'" using ok f u by (auto simp: pool_ok_but_def)
  ultimately show ?thesis
    by (simp add: pool_ok_def all_set_conv_all_nth del: set_map)
qed

lemma pool_ok_reconnect:
  assumes H: "network_history nw used failed sender_of" and ok: "pool_ok used failed pool w"
    and r: "reconnect nw i pool w = (r, pool', w')"
  shows "pool_ok used failed pool' w' \<and> length (cp_connections pool') = length (cp_connections pool)
    \<and> (r = Inr () \<longrightarrow> hc_healthy (cp_connections pool' ! i)) \<and> failed w' = failed w"
proof -
  obtain r1 w1 where 1: "connect_h2 nw (cp_host pool) (cp_port pool) (cp_af pool) w = (r1, w1)" by force
  note d = connect_h2_dialled [OF H 1]
  show ?thesis
  proof (cases r1)
    case (Inl e)
    with r 1 d ok show ?thesis by (auto simp: reconnect_def dialled_Inl same_history_def pool_ok_def)
  next
    case (Inr s)
    have w1: "failed w1 = failed w" "used w \<subseteq> used w1" using d Inr by (auto simp: dialled_def)
    show ?thesis
    proof (cases "i < length (cp_connections pool)")
      case True
      from d have "dialled used failed w (Inr s) w1" by (simp add: Inr dialled_def)
      note rep = pool_ok_replaced [OF pool_ok_but [OF ok] True this]
      from r 1 Inr True have "r = Inr ()" "w' = w1"
        "pool' = pool\<lparr>cp_connections := (cp_connections pool)[i := \<lparr>hc_sender = s, hc_healthy = True\<rparr>]\<rparr>"
        by (auto simp: reconnect_def)
      with rep w1 True show ?thesis by simp
    next
      case False
      with r 1 Inr ok w1 show ?thesis by (auto simp: reconnect_def pool_ok_def)
    qed
  qed
qed

lemma pool_ok_report_failure:
  assumes H: "network_history nw used failed sender_of" and ok: "pool_ok_but i used failed pool w"
    and i: "i < length (cp_connections pool)" and r: "report_failure nw i pool w = (r, pool', w')"
  shows "pool_ok used failed pool' w' \<and> length (cp_connections pool') = length (cp_connections pool)"
  using pool_ok_reconnect [OF H pool_ok_unhealthy [OF ok], of i r pool' w'] r i
  by (simp add: report_failure_def set_healthy_def)

text \<open>A response that fails leaves only its own connection in doubt.\<close>

lemma pool_ok_failed_response:
  assumes ok: "pool_ok used failed pool w" and i: "i < length (cp_connections pool)"
    and w': "used w' = used w" "failed w' \<subseteq> insert (hc_sender (cp_connections pool ! i)) (failed w)"
  shows "pool_ok_but i used failed pool w'"
proof -
  have s: "hc_sender (cp_connections pool ! i) \<in> used w" using ok i by (auto simp: pool_ok_def)
  have "hc_sender (cp_connections pool ! j) \<notin> failed w'"
    if "j < length (cp_connections pool)" "j \<noteq> i" "hc_healthy (cp_connections pool ! j)" for j
  proof -
    have "hc_sender (cp_connections pool ! j) \<noteq> hc_sender (cp_connections pool ! i)"
      using ok i that(1,2) nth_eq_iff_index_eq [of "map hc_sender (cp_connections pool)" j i]
      by (simp add: pool_ok_def)
    moreover have "hc_sender (cp_connections pool ! j) \<notin> failed w"
      using ok that by (auto simp: pool_ok_def)
    ultimately show ?thesis using w'(2) by blast
  qed
  with ok s w' show ?thesis unfolding pool_ok_def pool_ok_but_def by auto
qed

lemma acquire_cases:
  "acquire pool = (r, pool') \<Longrightarrow>
   cp_connections pool' = cp_connections pool \<and>
   (case r of Inl e \<Rightarrow> e = PoolEmpty \<and> cp_connections pool = []
    | Inr i \<Rightarrow> i = unat (cp_next_index pool) mod length (cp_connections pool) \<and> i < length (cp_connections pool))"
  by (auto simp: acquire_def split: if_splits)

lemma pool_ok_send_start:
  fixes nw :: "('w, 'a, 't, 's, 'f) network"
  assumes H: "network_history nw used failed sender_of" and ok: "pool_ok used failed pool w"
    and r: "send_start nw req pool w = (r, pool', w')"
  shows "pool_ok used failed pool' w' \<and>
    (\<forall>h. r = Inr h \<longrightarrow> (let i = sh_connection_index h; c = cp_connections pool' ! i in
       i < length (cp_connections pool') \<and> hc_healthy c \<and> hc_sender c \<notin> failed w'
       \<and> sender_of (sh_resp_future h) = hc_sender c))"
proof -
  obtain r1 :: "('a connection_error, nat) result" and pool1 where 1: "acquire pool = (r1, pool1)"
    by force
  note a = acquire_cases [OF 1]
  then have ok1: "pool_ok used failed pool1 w" using ok by (simp add: pool_ok_def)
  show ?thesis
  proof (cases r1)
    case (Inl e)
    with r 1 ok1 show ?thesis by (auto simp: send_start_def)
  next
    case (Inr i)
    note r1 = Inr
    with a have i: "i < length (cp_connections pool1)" by simp
    obtain r2 pool2 w2 where 2: "ensure_healthy nw i pool1 w = (r2, pool2, w2)" by (metis prod_cases3)
    have E: "pool_ok used failed pool2 w2" "length (cp_connections pool2) = length (cp_connections pool1)"
      "r2 = Inr () \<Longrightarrow> hc_healthy (cp_connections pool2 ! i)"
      using 2 ok1 pool_ok_reconnect [OF H ok1, of i r2 pool2 w2]
      by (auto simp: ensure_healthy_def split: if_splits)
    show ?thesis
    proof (cases r2)
      case (Inl e)
      with r 1 r1 2 E show ?thesis by (auto simp: send_start_def)
    next
      case (Inr u)
      obtain f w3 where 3: "nw_submit nw (hc_sender (cp_connections pool2 ! i)) req w2 = (f, w3)" by force
      note S = network_history_calls(5) [OF H 3]
      have ok3: "pool_ok used failed pool2 w3" using E(1) S by (auto simp: pool_ok_def same_history_def)
      have res: "r = Inr \<lparr>sh_resp_future = f, sh_connection_index = i\<rparr>" "pool' = pool2" "w' = w3"
        using r 1 r1 2 Inr 3 by (auto simp: send_start_def)
      have c: "cp_connections pool2 ! i \<in> set (cp_connections pool2)" using i E(2) by simp
      then have "hc_sender (cp_connections pool2 ! i) \<notin> failed w3"
        using ok3 E(3) Inr by (auto simp: pool_ok_def)
      with ok3 E i Inr S show ?thesis by (auto simp: res Let_def)
    qed
  qed
qed

lemma pool_ok_collect:
  assumes H: "network_history nw used failed sender_of" and ok: "pool_ok used failed pool w"
    and i: "sh_connection_index h < length (cp_connections pool)"
    and s: "sender_of (sh_resp_future h) = hc_sender (cp_connections pool ! sh_connection_index h)"
    and r: "collect nw h pool w = (r, pool', w')"
  shows "pool_ok used failed pool' w'"
proof -
  obtain r1 w1 where 1: "collect_response nw (sh_resp_future h) w = (r1, w1)" by force
  note R = response_history [OF H 1, unfolded s]
  show ?thesis
  proof (cases r1)
    case (Inr resp)
    with R ok have "pool_ok used failed pool w1" by (auto simp: pool_ok_def)
    with r 1 Inr show ?thesis by (simp add: collect_def send_handle_collect_def)
  next
    case (Inl e)
    obtain r2 pool2 w2 where 2: "report_failure nw (sh_connection_index h) pool w1 = (r2, pool2, w2)"
      by (metis prod_cases3)
    with r 1 Inl have "pool' = pool2" "w' = w2" by (auto simp: collect_def send_handle_collect_def)
    with pool_ok_report_failure [OF H pool_ok_failed_response [OF ok i R(1,2)] i 2] show ?thesis by simp
  qed
qed

lemma pool_ok_send:
  fixes nw :: "('w, 'a, 't, 's, 'f) network"
  assumes H: "network_history nw used failed sender_of" and ok: "pool_ok used failed pool w"
    and r: "send nw req pool w = (r, pool', w')"
  shows "pool_ok used failed pool' w'"
proof -
  obtain r1 :: "('a connection_error, 'f send_handle) result" and pool1 w1
    where 1: "send_start nw req pool w = (r1, pool1, w1)" by (metis prod_cases3)
  note S = pool_ok_send_start [OF H ok 1]
  show ?thesis
  proof (cases r1)
    case (Inl e)
    with r 1 S show ?thesis by (simp add: send_def)
  next
    case (Inr h)
    obtain r2 pool2 w2 where 2: "collect nw h pool1 w1 = (r2, pool2, w2)" by (metis prod_cases3)
    have "pool_ok used failed pool2 w2"
      using S Inr by (intro pool_ok_collect [OF H _ _ _ 2]) (auto simp: Let_def)
    with r 1 Inr 2 show ?thesis by (auto simp: send_def split: sum.splits)
  qed
qed

lemma pool_ok_answered:
  assumes ok: "pool_ok used failed pool w" and i: "i < length (cp_connections pool)"
    and same: "used w' = used w" "failed w' = failed w - {hc_sender (cp_connections pool ! i)}"
  shows "pool_ok used failed (set_healthy i True pool) w'"
proof -
  have s: "map hc_sender (cp_connections (set_healthy i True pool)) = map hc_sender (cp_connections pool)"
    using i by (simp add: set_healthy_def map_update) (metis length_map list_update_id nth_map)
  then have t: "hc_sender ` set (cp_connections (set_healthy i True pool)) = hc_sender ` set (cp_connections pool)"
    by (metis list.set_map)
  have "hc_sender (cp_connections (set_healthy i True pool) ! j) \<notin> failed w'"
    if "j < length (cp_connections pool)" "hc_healthy (cp_connections (set_healthy i True pool) ! j)" for j
  proof (cases "j = i")
    case True
    with i same show ?thesis by (simp add: set_healthy_def)
  next
    case False
    with that ok same show ?thesis by (simp add: set_healthy_def pool_ok_def)
  qed
  with ok s t same show ?thesis
    by (simp add: pool_ok_def all_set_conv_all_nth del: set_map) (auto simp: set_healthy_def)
qed

lemma pool_ok_check_connection:
  fixes nw :: "('w, 'a, 't, 's, 'f) network"
  assumes H: "network_history nw used failed sender_of" and ok: "pool_ok used failed pool w"
    and i: "i < length (cp_connections pool)" and r: "check_connection nw i pool w = (h, pool', w')"
  shows "pool_ok used failed pool' w' \<and> length (cp_connections pool') = length (cp_connections pool)"
proof -
  obtain f w1 where 1: "nw_submit nw (hc_sender (cp_connections pool ! i)) (health_request pool) w = (f, w1)"
    by force
  note S = network_history_calls(5) [OF H 1]
  then have ok1: "pool_ok used failed pool w1" using ok by (auto simp: pool_ok_def same_history_def)
  obtain r2 w2 where 2: "collect_response nw f w1 = (r2, w2)" by force
  have sf: "sender_of f = hc_sender (cp_connections pool ! i)" using S by simp
  note R = response_history [OF H 2, unfolded sf]
  show ?thesis
  proof (cases r2)
    case (Inl e)
    obtain r3 :: "('a connection_error, unit) result" and pool3 w3
      where 3: "reconnect nw i (set_healthy i False pool) w2 = (r3, pool3, w3)"
      by (metis prod_cases3)
    with r 1 2 Inl have "pool' = pool3" "w' = w3" by (auto simp: check_connection_def)
    with pool_ok_reconnect [OF H pool_ok_unhealthy [OF pool_ok_failed_response [OF ok1 i R(1,2)]] 3]
    show ?thesis by (simp add: set_healthy_def)
  next
    case (Inr resp)
    have same: "used w2 = used w1" "failed w2 = failed w1 - {hc_sender (cp_connections pool ! i)}"
      using R Inr by auto
    from r 1 2 Inr have p: "pool' = set_healthy i True pool" "w' = w2" by (auto simp: check_connection_def)
    show ?thesis using pool_ok_answered [OF ok1 i same] by (simp add: p set_healthy_def)
  qed
qed

lemma pool_ok_check_connections:
  assumes H: "network_history nw used failed sender_of"
  shows "pool_ok used failed pool w \<Longrightarrow> \<forall>i\<in>set is'. i < length (cp_connections pool) \<Longrightarrow>
    check_connections nw is' pool w = (hs, pool', w') \<Longrightarrow> pool_ok used failed pool' w'"
proof (induction is' arbitrary: pool w hs)
  case (Cons i is')
  obtain h pool1 w1 where 1: "check_connection nw i pool w = (h, pool1, w1)" by (metis prod_cases3)
  have C: "pool_ok used failed pool1 w1" "length (cp_connections pool1) = length (cp_connections pool)"
    using pool_ok_check_connection [OF H Cons.prems(1) _ 1] Cons.prems(2) by auto
  obtain hs1 where "check_connections nw is' pool1 w1 = (hs1, pool', w')"
    using Cons.prems(3) 1 by (auto split: prod.splits)
  from Cons.IH [OF C(1) _ this] show ?case using Cons.prems(2) C(2) by simp
qed simp

lemma pool_ok_warmup_loop:
  fixes nw :: "('w, 'a, 't, 's, 'f) network"
  assumes H: "network_history nw used failed sender_of"
  shows "pool_ok used failed pool w \<Longrightarrow> warmup_loop nw n pool w = (r, pool', w') \<Longrightarrow>
    pool_ok used failed pool' w'"
proof (induction n arbitrary: pool w)
  case (Suc n)
  obtain r1 :: "('a connection_error, 's) result" and w1
    where 1: "connect_h2 nw (cp_host pool) (cp_port pool) (cp_af pool) w = (r1, w1)" by force
  note d = connect_h2_dialled [OF H 1]
  show ?case
  proof (cases r1)
    case (Inl e)
    with Suc.prems 1 d show ?thesis by (auto simp: dialled_Inl same_history_def pool_ok_def)
  next
    case (Inr s)
    let ?pool = "pool\<lparr>cp_connections := cp_connections pool @ [\<lparr>hc_sender = s, hc_healthy = True\<rparr>]\<rparr>"
    have f: "failed w1 = failed w" "s \<notin> used w" "used w1 = insert s (used w)"
      using d Inr by (auto simp: dialled_def)
    have "pool_ok used failed ?pool w1"
      using Suc.prems(1) f by (auto simp: pool_ok_def)
    moreover have "warmup_loop nw n ?pool w1 = (r, pool', w')" using Suc.prems(2) 1 Inr by simp
    ultimately show ?thesis by (rule Suc.IH)
  qed
qed simp

text \<open>The pool in use: warmed up, then sending, checking its health and reconnecting in any order.\<close>

inductive pool_run :: "('w, 'a, 't, 's, 'f) network \<Rightarrow> 'w \<Rightarrow> 's connection_pool \<Rightarrow> 'w \<Rightarrow> bool"
  for nw w0 where
  warm: "warmup nw (connection_pool_new alloc host port n af) w0 = (r, pool, w)
    \<Longrightarrow> pool_run nw w0 pool w"
| sent: "pool_run nw w0 pool w \<Longrightarrow> send nw req pool w = (r, pool', w') \<Longrightarrow> pool_run nw w0 pool' w'"
| checked: "pool_run nw w0 pool w \<Longrightarrow> health_check nw pool w = (n, pool', w') \<Longrightarrow> pool_run nw w0 pool' w'"
| reconnected: "pool_run nw w0 pool w \<Longrightarrow> reconnect nw i pool w = (r, pool', w') \<Longrightarrow> pool_run nw w0 pool' w'"

lemma pool_run_ok:
  assumes H: "network_history nw used failed sender_of" and w0: "failed w0 \<subseteq> used w0"
    and run: "pool_run nw w0 pool w"
  shows "pool_ok used failed pool w"
  using run
proof induction
  case (warm alloc host port n af r pool w)
  have "pool_ok used failed ((connection_pool_new alloc host port n af)\<lparr>cp_connections := []\<rparr>) w0"
    using w0 by (simp add: pool_ok_def)
  from pool_ok_warmup_loop [OF H this] warm show ?case
    by (auto simp: warmup_def Let_def split: prod.splits sum.splits)
next
  case (sent pool w req r pool' w')
  then show ?case by (blast intro: pool_ok_send [OF H])
next
  case (checked pool w n pool' w')
  then obtain hs where "check_connections nw [0..<length (cp_connections pool)] pool w = (hs, pool', w')"
    by (auto simp: health_check_def health_check_detailed_def split: prod.splits)
  from pool_ok_check_connections [OF H checked.IH _ this] show ?case by simp
next
  case (reconnected pool w i r pool' w')
  then show ?case using pool_ok_reconnect [OF H] by blast
qed


text \<open>
  A network whose first connection fails every response: the world counts the senders handed out and tells whether
  the first of them has failed.
\<close>

definition flaky_network :: "(nat \<times> bool, unit, unit, nat, nat) network" where
  "flaky_network =
     \<lparr>nw_resolve = \<lambda>host port w. (Inr [()], w),
      nw_is_ipv4 = \<lambda>a. True,
      nw_show_addr = \<lambda>a. [],
      nw_tcp_connect = \<lambda>a w. (Inr (), w),
      nw_set_nodelay = \<lambda>t w. (Inr (), w),
      nw_server_name = \<lambda>h. Inr h,
      nw_tls_connect = \<lambda>n t w. (Inr (), w),
      nw_handshake = \<lambda>t w. (Inr (fst w), (fst w + 1, snd w \<and> 0 < fst w)),
      nw_submit = \<lambda>s req w. (s, w),
      nw_head = \<lambda>f w. if f = 0 then (Inl ''reset'', (fst w, True)) else (Inr [], w),
      nw_body = \<lambda>f w. (Inr [], (fst w, snd w \<and> f \<noteq> 0))\<rparr>"

definition flaky_used :: "nat \<times> bool \<Rightarrow> nat set" where
  "flaky_used w = {..<fst w}"

definition flaky_failed :: "nat \<times> bool \<Rightarrow> nat set" where
  "flaky_failed w = (if snd w \<and> 0 < fst w then {0} else {})"

lemma flaky_history: "network_history flaky_network flaky_used flaky_failed (\<lambda>f. f)"
  unfolding network_history_def flaky_network_def
  by (auto simp: same_history_def dialled_def flaky_used_def flaky_failed_def lessThan_Suc
      split: if_splits)

lemma flaky_run:
  assumes "req = \<lparr>rq_method = [], rq_uri = [], rq_headers = [], rq_body = []\<rparr>"
  defines "pool \<equiv> \<lparr>cp_host = [], cp_port = 443, cp_af = AfAuto, cp_capacity = 1,
      cp_connections = [\<lparr>hc_sender = 1, hc_healthy = True\<rparr>], cp_next_index = 1\<rparr>"
  shows "pool_run flaky_network (0, False) pool (2, True)"
proof -
  let ?pool0 = "pool\<lparr>cp_connections := [\<lparr>hc_sender = 0, hc_healthy = True\<rparr>], cp_next_index := 0\<rparr>"
  note defs = connect_h2_def resolve_def connect_sender_for_addr_def flaky_network_def
  have "warmup flaky_network (connection_pool_new id [] 443 1 AfAuto) (0, False) = (Inr 1, ?pool0, (1, False))"
    by (simp add: warmup_def connection_pool_new_def defs pool_def)
  then have "pool_run flaky_network (0, False) ?pool0 (1, False)" by (rule pool_run.warm)
  moreover have "send flaky_network req ?pool0 (1, False) = (Inl (Collect 0 ''reset''), pool, (2, True))"
    by (simp add: send_def send_start_def acquire_def ensure_healthy_def collect_def send_handle_collect_def
        collect_response_def report_failure_def reconnect_def set_healthy_def defs pool_def)
  ultimately show ?thesis by (rule pool_run.sent)
qed


end
