(* ===== verification/Dispatch.thy ===== *)
theory Dispatch
  imports ClobSigner Connection Metrics
begin

text \<open>
  From an order to a request on the wire (\<open>rtt-core/src/clob_auth.rs\<close>, \<open>clob_request.rs\<close>,
  \<open>clob_executor.rs\<close>): the authentication headers, the pool of pre-signed bodies and the two
  ways to dispatch a trigger. Cryptography, base64, JSON and the clocks are libraries and arguments of the
  definitions, gathered in \<open>platform\<close>.
\<close>

section \<open>The platform\<close>

text \<open>
  \<open>'h\<close> is a signing hash. \<open>pf_unix_secs\<close> fails when the system clock is before 1970; errors of libraries are
  their texts.
\<close>

record ('w, 'h) platform =
  pf_now_ns :: "'w \<Rightarrow> u64 \<times> 'w"
  pf_unix_secs :: "'w \<Rightarrow> (string, u64) result \<times> 'w"
  pf_random :: "'w \<Rightarrow> u64 \<times> 'w"
  pf_sign_hash :: "'h \<Rightarrow> (string, string) result"
  pf_signing_hash :: "clob_order \<Rightarrow> eip712_domain \<Rightarrow> 'h"
  pf_parse_u256 :: "string \<Rightarrow> u256 option"
  pf_show_address :: "address \<Rightarrow> string"
  pf_show_u256 :: "u256 \<Rightarrow> string"
  pf_payload_json :: "signed_order_payload \<Rightarrow> (string, string) result"
  pf_base64_decode :: "string \<Rightarrow> (string, string) result"
  pf_base64_encode :: "string \<Rightarrow> string"
  pf_hmac_sha256 :: "string \<Rightarrow> string \<Rightarrow> (string, string) result"
  pf_lowercase :: "string \<Rightarrow> string"

section \<open>Authentication headers\<close>

record l2_credentials =
  l2_api_key :: string
  l2_secret :: string
  l2_passphrase :: string
  l2_address :: string

definition hmac_signature :: "('w, 'h) platform \<Rightarrow> string \<Rightarrow> string \<Rightarrow> (string, string) result" where
  "hmac_signature pf secret msg =
     bind_result (pf_base64_decode pf secret) (\<lambda>decoded_secret.
     bind_result (pf_hmac_sha256 pf decoded_secret msg) (\<lambda>res. Inr (pf_base64_encode pf res)))"

definition build_l2_headers ::
    "('w, 'h) platform \<Rightarrow> l2_credentials \<Rightarrow> string \<Rightarrow> string \<Rightarrow> string \<Rightarrow> string
      \<Rightarrow> (string, (string \<times> string) list) result" where
  "build_l2_headers pf creds timestamp meth path body =
     bind_result (hmac_signature pf (l2_secret creds) (timestamp @ meth @ path @ body)) (\<lambda>signature. Inr
       [(''POLY_ADDRESS'', pf_lowercase pf (l2_address creds)),
        (''POLY_API_KEY'', l2_api_key creds),
        (''POLY_PASSPHRASE'', l2_passphrase creds),
        (''POLY_SIGNATURE'', signature),
        (''POLY_TIMESTAMP'', timestamp)])"

definition clob_auth_api_keys_path :: string where
  "clob_auth_api_keys_path = ''/auth/api-keys''"

definition build_validation_request ::
    "('w, 'h) platform \<Rightarrow> l2_credentials \<Rightarrow> 'w \<Rightarrow> (string, (string \<times> string) list) result \<times> 'w" where
  "build_validation_request pf creds w =
     (case pf_unix_secs pf w of
        (Inl e, w) \<Rightarrow> (Inl e, w)
      | (Inr secs, w) \<Rightarrow>
          (build_l2_headers pf creds (show_word secs) ''GET'' clob_auth_api_keys_path [], w))"

section \<open>Requests\<close>

datatype request_build_error =
    Serialize string
  | Utf8
  | Time string
  | Auth string
  | Http

text \<open>The texts of the errors of \<open>str::from_utf8\<close> and of the HTTP library are arguments.\<close>

fun request_build_error_text :: "string \<Rightarrow> string \<Rightarrow> request_build_error \<Rightarrow> string" where
  "request_build_error_text utf8 http (Serialize err) = ''failed to serialize signed order payload: '' @ err"
| "request_build_error_text utf8 http Utf8 = ''request body is not valid UTF-8: '' @ utf8"
| "request_build_error_text utf8 http (Time err) = ''failed to read current unix timestamp: '' @ err"
| "request_build_error_text utf8 http (Auth err) = ''failed to build L2 auth headers: '' @ err"
| "request_build_error_text utf8 http Http = ''failed to assemble HTTP request: '' @ http"

text \<open>\<open>std::str::from_utf8\<close>: the byte ranges of well-formed UTF-8.\<close>

definition utf8_cont :: "char \<Rightarrow> bool" where
  "utf8_cont c \<longleftrightarrow> (let n = (of_char c :: nat) in 128 \<le> n \<and> n \<le> 191)"

definition utf8_second :: "nat \<Rightarrow> char \<Rightarrow> bool" where
  "utf8_second lead c \<longleftrightarrow>
     (let n = (of_char c :: nat)
      in if lead = 224 then 160 \<le> n \<and> n \<le> 191
         else if lead = 237 then 128 \<le> n \<and> n \<le> 159
         else if lead = 240 then 144 \<le> n \<and> n \<le> 191
         else if lead = 244 then 128 \<le> n \<and> n \<le> 143
         else 128 \<le> n \<and> n \<le> 191)"

fun utf8_valid :: "string \<Rightarrow> bool" where
  "utf8_valid [] = True"
| "utf8_valid [a] = ((of_char a :: nat) < 128)"
| "utf8_valid [a, b] =
     (let n = (of_char a :: nat)
      in if n < 128 then utf8_valid [b] else 194 \<le> n \<and> n \<le> 223 \<and> utf8_cont b)"
| "utf8_valid [a, b, c] =
     (let n = (of_char a :: nat)
      in if n < 128 then utf8_valid [b, c]
         else if 194 \<le> n \<and> n \<le> 223 then utf8_cont b \<and> utf8_valid [c]
         else 224 \<le> n \<and> n \<le> 239 \<and> utf8_second n b \<and> utf8_cont c)"
| "utf8_valid (a # b # c # d # s) =
     (let n = (of_char a :: nat)
      in if n < 128 then utf8_valid (b # c # d # s)
         else if 194 \<le> n \<and> n \<le> 223 then utf8_cont b \<and> utf8_valid (c # d # s)
         else if 224 \<le> n \<and> n \<le> 239 then utf8_second n b \<and> utf8_cont c \<and> utf8_valid (d # s)
         else 240 \<le> n \<and> n \<le> 244 \<and> utf8_second n b \<and> utf8_cont c \<and> utf8_cont d \<and> utf8_valid s)"

definition order_method :: string where
  "order_method = ''POST''"

definition clob_order_path :: string where
  "clob_order_path = ''/order''"

definition clob_order_url :: string where
  "clob_order_url = ''https://clob.polymarket.com/order''"

definition encode_order_payload ::
    "('w, 'h) platform \<Rightarrow> signed_order_payload \<Rightarrow> (request_build_error, string) result" where
  "encode_order_payload pf payload =
     (case pf_payload_json pf payload of Inl e \<Rightarrow> Inl (Serialize e) | Inr body \<Rightarrow> Inr body)"

text \<open>A header value may hold tabs and any byte from 32 on except 127; \<open>body\<close> reports the first bad one.\<close>

definition header_value_ok :: "string \<Rightarrow> bool" where
  "header_value_ok v \<longleftrightarrow> list_all (\<lambda>c. let n = (of_char c :: nat) in n = 9 \<or> 32 \<le> n \<and> n \<noteq> 127) v"

definition build_order_request_from_bytes_with_timestamp ::
    "('w, 'h) platform \<Rightarrow> string \<Rightarrow> l2_credentials \<Rightarrow> string
      \<Rightarrow> (request_build_error, http_request) result" where
  "build_order_request_from_bytes_with_timestamp pf body creds timestamp =
     (if \<not> utf8_valid body then Inl Utf8
      else case build_l2_headers pf creds timestamp order_method clob_order_path body of
             Inl e \<Rightarrow> Inl (Auth e)
           | Inr headers \<Rightarrow>
               if list_all (\<lambda>(name, v). header_value_ok v) headers
               then Inr \<lparr>rq_method = ''POST'', rq_uri = clob_order_url,
                         rq_headers = (''content-type'', ''application/json'') # headers,
                         rq_body = body\<rparr>
               else Inl Http)"

definition build_order_request_from_bytes ::
    "('w, 'h) platform \<Rightarrow> string \<Rightarrow> l2_credentials \<Rightarrow> 'w
      \<Rightarrow> (request_build_error, http_request) result \<times> 'w" where
  "build_order_request_from_bytes pf body creds w =
     (case pf_unix_secs pf w of
        (Inl e, w) \<Rightarrow> (Inl (Time e), w)
      | (Inr secs, w) \<Rightarrow>
          (build_order_request_from_bytes_with_timestamp pf body creds (show_word secs), w))"

definition build_order_request ::
    "('w, 'h) platform \<Rightarrow> signed_order_payload \<Rightarrow> l2_credentials \<Rightarrow> 'w
      \<Rightarrow> (request_build_error, http_request) result \<times> 'w" where
  "build_order_request pf payload creds w =
     (case encode_order_payload pf payload of
        Inl e \<Rightarrow> (Inl e, w)
      | Inr body \<Rightarrow> build_order_request_from_bytes pf body creds w)"

definition build_order_request_with_timestamp ::
    "('w, 'h) platform \<Rightarrow> signed_order_payload \<Rightarrow> l2_credentials \<Rightarrow> string
      \<Rightarrow> (request_build_error, http_request) result" where
  "build_order_request_with_timestamp pf payload creds timestamp =
     bind_result (encode_order_payload pf payload)
       (\<lambda>body. build_order_request_from_bytes_with_timestamp pf body creds timestamp)"

section \<open>The pool of pre-signed orders\<close>

record presigned_pool =
  pp_bodies :: "string list"
  pp_cursor :: nat

fun encode_all ::
    "('w, 'h) platform \<Rightarrow> signed_order_payload list \<Rightarrow> string list
      \<Rightarrow> (request_build_error, string list) result" where
  "encode_all pf [] bodies = Inr bodies"
| "encode_all pf (p # ps) bodies =
     bind_result (encode_order_payload pf p) (\<lambda>body. encode_all pf ps (bodies @ [body]))"

definition presigned_pool_new ::
    "('w, 'h) platform \<Rightarrow> signed_order_payload list \<Rightarrow> (request_build_error, presigned_pool) result" where
  "presigned_pool_new pf payloads =
     bind_result (encode_all pf payloads []) (\<lambda>bodies. Inr \<lparr>pp_bodies = bodies, pp_cursor = 0\<rparr>)"

definition presigned_len :: "presigned_pool \<Rightarrow> nat" where
  "presigned_len pp = length (pp_bodies pp)"

definition presigned_is_empty :: "presigned_pool \<Rightarrow> bool" where
  "presigned_is_empty pp \<longleftrightarrow> pp_bodies pp = []"

definition presigned_dispatch ::
    "('w, 'h) platform \<Rightarrow> l2_credentials \<Rightarrow> presigned_pool \<Rightarrow> 'w
      \<Rightarrow> (request_build_error, http_request option) result \<times> presigned_pool \<times> 'w" where
  "presigned_dispatch pf creds pp w =
     (if length (pp_bodies pp) \<le> pp_cursor pp then (Inr None, pp, w)
      else
        let body = pp_bodies pp ! pp_cursor pp;
            pp = pp\<lparr>pp_cursor := pp_cursor pp + 1\<rparr>
        in case build_order_request_from_bytes pf body creds w of
             (Inl e, w) \<Rightarrow> (Inl e, pp, w)
           | (Inr req, w) \<Rightarrow> (Inr (Some req), pp, w))"

definition presigned_dispatch_with_timestamp ::
    "('w, 'h) platform \<Rightarrow> l2_credentials \<Rightarrow> string \<Rightarrow> presigned_pool
      \<Rightarrow> (request_build_error, http_request option) result \<times> presigned_pool" where
  "presigned_dispatch_with_timestamp pf creds timestamp pp =
     (if length (pp_bodies pp) \<le> pp_cursor pp then (Inr None, pp)
      else
        let body = pp_bodies pp ! pp_cursor pp;
            pp = pp\<lparr>pp_cursor := pp_cursor pp + 1\<rparr>
        in (bind_result (build_order_request_from_bytes_with_timestamp pf body creds timestamp)
              (\<lambda>req. Inr (Some req)), pp))"

definition reset_cursor :: "presigned_pool \<Rightarrow> presigned_pool" where
  "reset_cursor pp = pp\<lparr>pp_cursor := 0\<rparr>"

definition consumed :: "presigned_pool \<Rightarrow> nat" where
  "consumed pp = pp_cursor pp"

section \<open>Outcomes\<close>

datatype 'a dispatch_error =
    PoolExhausted
  | BuildOrder build_order_error
  | Sign string
  | RequestBuild request_build_error
  | Connection "'a connection_error"

fun dispatch_error_text :: "string \<Rightarrow> string \<Rightarrow> ('a \<Rightarrow> string) \<Rightarrow> 'a dispatch_error \<Rightarrow> string" where
  "dispatch_error_text utf8 http show_addr PoolExhausted = ''pre-signed order pool is exhausted''"
| "dispatch_error_text utf8 http show_addr (BuildOrder err) = build_order_error_text err"
| "dispatch_error_text utf8 http show_addr (Sign err) = ''failed to sign order: '' @ err"
| "dispatch_error_text utf8 http show_addr (RequestBuild err) = request_build_error_text utf8 http err"
| "dispatch_error_text utf8 http show_addr (Connection err) = connection_error_text show_addr err"

datatype 'a dispatch_outcome =
    Sent timestamp_record "string option"
  | Rejected timestamp_record "'a dispatch_error"

definition finalize_record :: "timestamp_record \<Rightarrow> u64 \<Rightarrow> timestamp_record" where
  "finalize_record r now =
     (let r = (if tr_buf_ready r = 0 then r\<lparr>tr_buf_ready := now\<rparr> else r);
          r = (if tr_write_begin r = 0 then r\<lparr>tr_write_begin := now\<rparr> else r);
          r = (if tr_write_end r = 0 then r\<lparr>tr_write_end := now\<rparr> else r);
          r = (if tr_first_resp_byte r = 0 then r\<lparr>tr_first_resp_byte := now\<rparr> else r);
          r = (if tr_headers_done r = 0 then r\<lparr>tr_headers_done := now\<rparr> else r)
      in r)"

definition reject ::
    "('w, 'h) platform \<Rightarrow> timestamp_record \<Rightarrow> 'a dispatch_error \<Rightarrow> bool \<Rightarrow> 'w
      \<Rightarrow> 'a dispatch_outcome \<times> 'w" where
  "reject pf r err is_reconnect w =
     (let (now, w) = pf_now_ns pf w;
          r = (finalize_record r now)\<lparr>tr_is_reconnect := is_reconnect\<rparr>
      in (Rejected r err, w))"

definition sent_outcome ::
    "('w, 'h) platform \<Rightarrow> timestamp_record \<Rightarrow> http_response \<Rightarrow> 'w \<Rightarrow> 'a dispatch_outcome \<times> 'w" where
  "sent_outcome pf r resp w =
     (let r = (case get_cf_ray resp of None \<Rightarrow> r | Some ray \<Rightarrow> r\<lparr>tr_cf_ray_pop := extract_pop ray\<rparr>);
          (now, w) = pf_now_ns pf w;
          r = r\<lparr>tr_headers_done := now, tr_is_reconnect := False\<rparr>
      in (Sent r (Some (rs_body resp)), w))"

fun connection_failure_is_reconnect :: "'a connection_error \<Rightarrow> bool" where
  "connection_failure_is_reconnect PoolEmpty = False"
| "connection_failure_is_reconnect e = True"

definition dispatch_request ::
    "('w, 'h) platform \<Rightarrow> ('w, 'a, 't, 's, 'f) network \<Rightarrow> http_request \<Rightarrow> timestamp_record
      \<Rightarrow> 's connection_pool \<Rightarrow> 'w \<Rightarrow> 'a dispatch_outcome \<times> 's connection_pool \<times> 'w" where
  "dispatch_request pf nw req r pool w =
     (let (t, w) = pf_now_ns pf w; r = r\<lparr>tr_write_begin := t\<rparr>;
          (handle_result, pool, w) = send_start nw req pool w;
          (t, w) = pf_now_ns pf w; r = r\<lparr>tr_write_end := t\<rparr>
      in case handle_result of
           Inl err \<Rightarrow>
             (let (outcome, w) = reject pf r (Connection err) (connection_failure_is_reconnect err) w
              in (outcome, pool, w))
         | Inr handle \<Rightarrow>
             (let r = r\<lparr>tr_connection_index := sh_connection_index handle\<rparr>;
                  (resp_result, pool, w) = collect nw handle pool w;
                  (t, w) = pf_now_ns pf w; r = r\<lparr>tr_first_resp_byte := t\<rparr>
              in case resp_result of
                   Inr resp \<Rightarrow> (let (outcome, w) = sent_outcome pf r resp w in (outcome, pool, w))
                 | Inl err \<Rightarrow>
                     (let (outcome, w) = reject pf r (Connection err) (connection_failure_is_reconnect err) w
                      in (outcome, pool, w))))"

text \<open>The first timestamps of both ways to dispatch.\<close>

definition start_record ::
    "('w, 'h) platform \<Rightarrow> trigger_message \<Rightarrow> 'w \<Rightarrow> timestamp_record \<times> 'w" where
  "start_record pf msg w =
     (let r = timestamp_record_default\<lparr>tr_trigger_rx := tm_timestamp_ns msg\<rparr>;
          (t, w) = pf_now_ns pf w; r = r\<lparr>tr_dispatch_q := t\<rparr>;
          (t, w) = pf_now_ns pf w; r = r\<lparr>tr_exec_start := t\<rparr>
      in (r, w))"

definition process_one_clob ::
    "('w, 'h) platform \<Rightarrow> ('w, 'a, 't, 's, 'f) network \<Rightarrow> presigned_pool \<Rightarrow> l2_credentials
      \<Rightarrow> trigger_message \<Rightarrow> 's connection_pool \<Rightarrow> 'w
      \<Rightarrow> 'a dispatch_outcome \<times> presigned_pool \<times> 's connection_pool \<times> 'w" where
  "process_one_clob pf nw pp creds msg pool w =
     (let (r, w) = start_record pf msg w;
          (t, w) = pf_now_ns pf w; r = r\<lparr>tr_buf_ready := t\<rparr>
      in case presigned_dispatch pf creds pp w of
           (Inr (Some req), pp, w) \<Rightarrow>
             (let (outcome, pool, w) = dispatch_request pf nw req r pool w in (outcome, pp, pool, w))
         | (Inr None, pp, w) \<Rightarrow>
             (let (outcome, w) = reject pf r PoolExhausted False w in (outcome, pp, pool, w))
         | (Inl err, pp, w) \<Rightarrow>
             (let (outcome, w) = reject pf r (RequestBuild err) False w in (outcome, pp, pool, w)))"

text \<open>
  Signing on the hot path. Building the payload panics on a salt of 64 bits or more; the outcome is then
  \<open>None\<close>, which \<open>sign_and_dispatch_sends_signed_order\<close> excludes.
\<close>

definition sign_and_dispatch ::
    "('w, 'h) platform \<Rightarrow> ('w, 'a, 't, 's, 'f) network \<Rightarrow> trigger_message \<Rightarrow> l2_credentials
      \<Rightarrow> address \<Rightarrow> address \<Rightarrow> u64 \<Rightarrow> bool \<Rightarrow> signature_type \<Rightarrow> string \<Rightarrow> 's connection_pool \<Rightarrow> 'w
      \<Rightarrow> 'a dispatch_outcome option \<times> 's connection_pool \<times> 'w" where
  "sign_and_dispatch pf nw trigger creds maker signer_addr fee_rate_bps is_neg_risk sig_type owner pool w =
     (let (r, w) = start_record pf trigger w; (raw, w) = pf_random pf w
      in case build_order (pf_parse_u256 pf) raw trigger maker signer_addr fee_rate_bps sig_type of
           Inl err \<Rightarrow> (let (outcome, w) = reject pf r (BuildOrder err) False w in (Some outcome, pool, w))
         | Inr ord \<Rightarrow>
             (let (t, w) = pf_now_ns pf w; r = r\<lparr>tr_sign_start := t\<rparr>
              in case sign_order (pf_signing_hash pf) (pf_sign_hash pf) ord is_neg_risk of
                   Inl err \<Rightarrow>
                     (let (t, w) = pf_now_ns pf w; r = r\<lparr>tr_sign_end := t\<rparr>;
                          (outcome, w) = reject pf r (Sign err) False w
                      in (Some outcome, pool, w))
                 | Inr sig \<Rightarrow>
                     (let (t, w) = pf_now_ns pf w; r = r\<lparr>tr_sign_end := t\<rparr>
                      in case signed_order_payload_new (pf_show_address pf) (pf_show_u256 pf) ord sig
                                (tm_order_type trigger) owner of
                           None \<Rightarrow> (None, pool, w)
                         | Some payload \<Rightarrow>
                             (case build_order_request pf payload creds w of
                                (Inl err, w) \<Rightarrow>
                                  (let (outcome, w) = reject pf r (RequestBuild err) False w
                                   in (Some outcome, pool, w))
                              | (Inr req, w) \<Rightarrow>
                                  (let (t, w) = pf_now_ns pf w; r = r\<lparr>tr_buf_ready := t\<rparr>;
                                       (outcome, pool, w) = dispatch_request pf nw req r pool w
                                   in (Some outcome, pool, w))))))"

section \<open>What an outcome tells\<close>

text \<open>
  The reconnect flag of an outcome: set exactly when the network failed the order, and not when the pool of
  connections is empty.
\<close>

fun flag_exact :: "'a dispatch_outcome \<Rightarrow> bool" where
  "flag_exact (Sent r body) = (\<not> tr_is_reconnect r \<and> body \<noteq> None)"
| "flag_exact (Rejected r err) =
     (tr_is_reconnect r \<longleftrightarrow> (\<exists>e. err = Connection e \<and> e \<noteq> PoolEmpty))"

lemma reconnect_flag: "connection_failure_is_reconnect e \<longleftrightarrow> e \<noteq> PoolEmpty"
  by (cases e) auto

lemma reject_flag: "reject pf r err b w = (outcome, w') \<Longrightarrow>
    flag_exact outcome = (b \<longleftrightarrow> (\<exists>e. err = Connection e \<and> e \<noteq> PoolEmpty))"
  by (auto simp: reject_def split: prod.splits)

lemma dispatch_request_flag:
  "dispatch_request pf nw req r pool w = (outcome, pool', w') \<Longrightarrow> flag_exact outcome"
  by (auto simp: dispatch_request_def sent_outcome_def Let_def reject_flag reconnect_flag
      split: prod.splits sum.splits)

lemma process_one_clob_flag:
  "process_one_clob pf nw pp creds msg pool w = (outcome, pp', pool', w') \<Longrightarrow> flag_exact outcome"
  by (auto simp: process_one_clob_def Let_def reject_flag dest: dispatch_request_flag
      split: prod.splits sum.splits option.splits)

lemma request_of_payload:
  assumes "build_order_request pf payload creds w = (Inr req, w')"
  shows "\<exists>body secs. encode_order_payload pf payload = Inr body \<and>
    build_order_request_from_bytes_with_timestamp pf body creds (show_word (secs :: u64)) = Inr req"
proof -
  obtain body where body: "encode_order_payload pf payload = Inr body"
    using assms by (auto simp: build_order_request_def split: sum.splits)
  with assms obtain secs :: u64 where "build_order_request_from_bytes_with_timestamp pf body creds (show_word secs) = Inr req"
    by (auto simp: build_order_request_def build_order_request_from_bytes_def split: sum.splits prod.splits)
  with body show ?thesis by blast
qed

text \<open>The request carries its body unchanged and a signature of exactly that body.\<close>

lemma request_authenticates_body:
  assumes "build_order_request_from_bytes_with_timestamp pf body creds timestamp = Inr req"
  shows "rq_body req = body \<and> rq_uri req = clob_order_url \<and> rq_method req = ''POST'' \<and>
    (\<exists>sig. hmac_signature pf (l2_secret creds) (timestamp @ ''POST'' @ ''/order'' @ body) = Inr sig
        \<and> (''POLY_SIGNATURE'', sig) \<in> set (rq_headers req)
        \<and> (''POLY_TIMESTAMP'', timestamp) \<in> set (rq_headers req))"
  using assms
  by (auto simp: build_order_request_from_bytes_with_timestamp_def build_l2_headers_def result_facts
      order_method_def clob_order_path_def split: if_splits sum.splits)

text \<open>An order goes to the network only when it was built, signed, encoded and authenticated.\<close>

definition signed_request ::
    "('w, 'h) platform \<Rightarrow> trigger_message \<Rightarrow> l2_credentials \<Rightarrow> address \<Rightarrow> address \<Rightarrow> u64 \<Rightarrow> bool
      \<Rightarrow> signature_type \<Rightarrow> string \<Rightarrow> http_request \<Rightarrow> bool" where
  "signed_request pf trigger creds maker signer_addr fee neg st owner req \<longleftrightarrow>
     (\<exists>raw ord sig payload body secs.
        build_order (pf_parse_u256 pf) raw trigger maker signer_addr fee st = Inr ord
      \<and> sign_order (pf_signing_hash pf) (pf_sign_hash pf) ord neg = Inr sig
      \<and> signed_order_payload_new (pf_show_address pf) (pf_show_u256 pf) ord sig (tm_order_type trigger) owner
          = Some payload
      \<and> encode_order_payload pf payload = Inr body
      \<and> build_order_request_from_bytes_with_timestamp pf body creds (show_word (secs :: u64)) = Inr req)"

fun refused_locally :: "'a dispatch_outcome \<Rightarrow> bool" where
  "refused_locally (Rejected r (Connection e)) = False"
| "refused_locally (Rejected r e) = True"
| "refused_locally (Sent r b) = False"

lemma reject_local: "reject pf r err b w = (outcome, w') \<Longrightarrow>
    refused_locally outcome \<longleftrightarrow> (\<forall>e. err \<noteq> Connection e)"
  by (cases err) (auto simp: reject_def split: prod.splits)

lemma sign_and_dispatch_cases:
  fixes nw :: "('w, 'a, 't, 's, 'f) network"
  obtains outcome w' where
    "sign_and_dispatch pf nw trigger creds maker sa fee neg st owner pool w = (Some outcome, pool, w')"
    "refused_locally outcome" "flag_exact outcome"
  | outcome pool' w' req r w1 where
    "sign_and_dispatch pf nw trigger creds maker sa fee neg st owner pool w = (Some outcome, pool', w')"
    "signed_request pf trigger creds maker sa fee neg st owner req"
    "dispatch_request pf nw req r pool w1 = (outcome, pool', w')" "flag_exact outcome"
proof -
  obtain r0 w0 where 0: "start_record pf trigger w = (r0, w0)" by force
  obtain raw w1 where 1: "pf_random pf w0 = (raw, w1)" by force
  show thesis
  proof (cases "build_order (pf_parse_u256 pf) raw trigger maker sa fee st")
    case (Inl err)
    obtain outcome :: "'a dispatch_outcome" and w2 where rej: "reject pf r0 (BuildOrder err) False w1 = (outcome, w2)" by force
    with 0 1 Inl have "sign_and_dispatch pf nw trigger creds maker sa fee neg st owner pool w = (Some outcome, pool, w2)"
      by (simp add: sign_and_dispatch_def)
    then show thesis using that(1) reject_local [OF rej] reject_flag [OF rej] by simp
  next
    case (Inr ord)
    note ord = Inr
    obtain t2 w2 where 2: "pf_now_ns pf w1 = (t2, w2)" by force
    show thesis
    proof (cases "sign_order (pf_signing_hash pf) (pf_sign_hash pf) ord neg")
      case (Inl err)
      obtain t3 w3 where 3: "pf_now_ns pf w2 = (t3, w3)" by force
      obtain outcome :: "'a dispatch_outcome" and w4 where
        rej: "reject pf (r0\<lparr>tr_sign_start := t2, tr_sign_end := t3\<rparr>) (Sign err) False w3 = (outcome, w4)"
        by force
      with 0 1 ord 2 Inl 3
      have "sign_and_dispatch pf nw trigger creds maker sa fee neg st owner pool w = (Some outcome, pool, w4)"
        by (simp add: sign_and_dispatch_def)
      then show thesis using that(1) reject_local [OF rej] reject_flag [OF rej] by simp
    next
      case (Inr sig)
      note sig = Inr
      obtain t3 w3 where 3: "pf_now_ns pf w2 = (t3, w3)" by force
      obtain payload where pay: "signed_order_payload_new (pf_show_address pf) (pf_show_u256 pf) ord sig
          (tm_order_type trigger) owner = Some payload"
        using signed_payload_of_built [OF ord] by blast
      obtain br w4 where 4: "build_order_request pf payload creds w3 = (br, w4)" by force
      show thesis
      proof (cases br)
        case (Inl err)
        obtain outcome :: "'a dispatch_outcome" and w5 where
          rej: "reject pf (r0\<lparr>tr_sign_start := t2, tr_sign_end := t3\<rparr>) (RequestBuild err) False w4 = (outcome, w5)"
          by force
        with 0 1 ord 2 sig 3 pay 4 Inl
        have "sign_and_dispatch pf nw trigger creds maker sa fee neg st owner pool w = (Some outcome, pool, w5)"
          by (simp add: sign_and_dispatch_def)
        then show thesis using that(1) reject_local [OF rej] reject_flag [OF rej] by simp
      next
        case (Inr req)
        obtain t5 w5 where 5: "pf_now_ns pf w4 = (t5, w5)" by force
        obtain outcome pool' w6 where
          6: "dispatch_request pf nw req (r0\<lparr>tr_sign_start := t2, tr_sign_end := t3, tr_buf_ready := t5\<rparr>) pool w5
            = (outcome, pool', w6)"
          by (metis prod_cases3)
        with 0 1 ord 2 sig 3 pay 4 Inr 5
        have "sign_and_dispatch pf nw trigger creds maker sa fee neg st owner pool w = (Some outcome, pool', w6)"
          by (simp add: sign_and_dispatch_def)
        moreover have "signed_request pf trigger creds maker sa fee neg st owner req"
          using ord sig pay request_of_payload [OF 4 [unfolded Inr]] unfolding signed_request_def by blast
        ultimately show thesis using that(2) 6 dispatch_request_flag [OF 6] by blast
      qed
    qed
  qed
qed

text \<open>
  C32. Signing and dispatching a trigger always returns: either it is refused before the network, the pool of
  connections untouched, or the request that goes out carries the JSON of the order built from the trigger,
  signed, with authentication headers over exactly that body. The reconnect flag of the outcome is set if and
  only if the network failed the order with a connection at hand.
\<close>

theorem sign_and_dispatch_sends_signed_order:
  "\<exists>outcome pool' w'.
     sign_and_dispatch pf nw trigger creds maker sa fee neg st owner pool w = (Some outcome, pool', w')
     \<and> flag_exact outcome
     \<and> (refused_locally outcome \<and> pool' = pool
        \<or> (\<exists>req r w1. signed_request pf trigger creds maker sa fee neg st owner req
             \<and> dispatch_request pf nw req r pool w1 = (outcome, pool', w')))"
  using sign_and_dispatch_cases [of pf nw trigger creds maker sa fee neg st owner pool w] by metis

section \<open>The order of the pre-signed bodies\<close>

fun dispatch_times ::
    "nat \<Rightarrow> ('w, 'h) platform \<Rightarrow> l2_credentials \<Rightarrow> presigned_pool \<Rightarrow> 'w
      \<Rightarrow> (request_build_error, http_request option) result list \<times> presigned_pool \<times> 'w" where
  "dispatch_times 0 pf creds pp w = ([], pp, w)"
| "dispatch_times (Suc n) pf creds pp w =
     (let (res, pp, w) = presigned_dispatch pf creds pp w;
          (results, pp, w) = dispatch_times n pf creds pp w
      in (res # results, pp, w))"

definition dispatched_body :: "presigned_pool \<Rightarrow> nat \<Rightarrow> (request_build_error, http_request option) result \<Rightarrow> bool" where
  "dispatched_body pp i res \<longleftrightarrow>
     (case res of
        Inl e \<Rightarrow> i < length (pp_bodies pp)
      | Inr None \<Rightarrow> length (pp_bodies pp) \<le> i
      | Inr (Some req) \<Rightarrow> i < length (pp_bodies pp) \<and> rq_body req = pp_bodies pp ! i)"

lemma presigned_dispatch_step:
  assumes "presigned_dispatch pf creds pp w = (res, pp', w')"
  shows "dispatched_body pp (pp_cursor pp) res \<and> pp_bodies pp' = pp_bodies pp \<and>
    pp_cursor pp' = (if pp_cursor pp < length (pp_bodies pp) then pp_cursor pp + 1 else pp_cursor pp)"
  using assms
  by (auto simp: presigned_dispatch_def dispatched_body_def Let_def build_order_request_from_bytes_def
      dest: request_authenticates_body split: if_splits sum.splits prod.splits)

text \<open>
  The pool hands out its bodies in order and each at most once until the cursor is reset: the \<open>i\<close>-th dispatch
  sends the \<open>i\<close>-th body or fails to assemble its request, and nothing is sent once all are used.
\<close>

theorem presigned_bodies_in_order:
  assumes "dispatch_times n pf creds pp w = (results, pp', w')" and "pp_cursor pp \<le> length (pp_bodies pp)"
  shows "length results = n \<and> pp_bodies pp' = pp_bodies pp
    \<and> pp_cursor pp' = min (pp_cursor pp + n) (length (pp_bodies pp))
    \<and> (\<forall>i<n. dispatched_body pp (pp_cursor pp + i) (results ! i))"
  using assms
proof (induction n arbitrary: pp w results)
  case (Suc n)
  obtain res pp1 w1 where 1: "presigned_dispatch pf creds pp w = (res, pp1, w1)" by (metis prod_cases3)
  obtain rest where 2: "dispatch_times n pf creds pp1 w1 = (rest, pp', w')" and results: "results = res # rest"
    using Suc.prems(1) 1 by (auto split: prod.splits)
  note S = presigned_dispatch_step [OF 1]
  then have "pp_cursor pp1 \<le> length (pp_bodies pp1)" using Suc.prems(2) by auto
  note IH = Suc.IH [OF 2 this]
  have b: "pp_bodies pp1 = pp_bodies pp" using S by simp
  have same: "dispatched_body pp1 i r = dispatched_body pp i r" for i r
    unfolding dispatched_body_def b ..
  show ?case
  proof (cases "pp_cursor pp < length (pp_bodies pp)")
    case True
    have "dispatched_body pp (pp_cursor pp + i) (results ! i)" if "i < Suc n" for i
      using that IH S True by (cases i) (auto simp: results same)
    with IH S True show ?thesis by (auto simp: results)
  next
    case False
    with Suc.prems(2) have c: "pp_cursor pp = length (pp_bodies pp)" by simp
    have "dispatched_body pp (pp_cursor pp + i) (results ! i)" if "i < Suc n" for i
    proof (cases i)
      case 0
      then show ?thesis using S by (simp add: results)
    next
      case (Suc j)
      with that have "dispatched_body pp (pp_cursor pp + j) (rest ! j)"
        using IH S False by (auto simp: same)
      with Suc show ?thesis
        by (auto simp: results dispatched_body_def c split: sum.splits option.splits)
    qed
    with IH S False c show ?thesis by (auto simp: results)
  qed
qed simp

text \<open>A platform for the witnesses: a clock that ticks at every call and a keyed tag in place of the hash.\<close>

definition plain_platform :: "(nat \<times> bool, string) platform" where
  "plain_platform =
     \<lparr>pf_now_ns = \<lambda>w. (of_nat (fst w) + 1, w),
      pf_unix_secs = \<lambda>w. (Inr 5, w),
      pf_random = \<lambda>w. (7, w),
      pf_sign_hash = \<lambda>h. Inr h,
      pf_signing_hash = \<lambda>ord dom. ''0xsig'',
      pf_parse_u256 = \<lambda>s. if all_digits s \<and> s \<noteq> [] then Some (of_nat (digits_val 0 s)) else None,
      pf_show_address = \<lambda>a. ''0x'',
      pf_show_u256 = \<lambda>n. ''0'',
      pf_payload_json = \<lambda>p. Inr ''{}'',
      pf_base64_decode = \<lambda>s. Inr s,
      pf_base64_encode = \<lambda>s. s,
      pf_hmac_sha256 = \<lambda>k m. Inr k,
      pf_lowercase = ascii_lowercase\<rparr>"

theorem presigned_bodies_in_order_witness:
  "let pp = \<lparr>pp_bodies = [''a'', ''b''], pp_cursor = 0\<rparr>;
       creds = \<lparr>l2_api_key = ''k'', l2_secret = ''s'', l2_passphrase = ''p'', l2_address = ''0x''\<rparr>;
       (results, pp', w') = dispatch_times 3 plain_platform creds pp (0, False)
   in length results = 3 \<and> pp_cursor pp' = 2 \<and> (\<forall>i<3. dispatched_body pp i (results ! i))"
proof -
  let ?pp = "\<lparr>pp_bodies = [''a'', ''b''], pp_cursor = 0\<rparr>"
  let ?creds = "\<lparr>l2_api_key = ''k'', l2_secret = ''s'', l2_passphrase = ''p'', l2_address = ''0x''\<rparr>"
  obtain results pp' w' where d: "dispatch_times 3 plain_platform ?creds ?pp (0, False) = (results, pp', w')"
    by (metis prod_cases3)
  from presigned_bodies_in_order [OF d] show ?thesis by (simp add: d)
qed

end
