(* ===== verification/Execution.thy ===== *)
theory Execution
  imports Safety Dispatch
begin

text \<open>
  The execution of triggers (\<open>pm-executor/src/execution.rs\<close>): the throttle and the retry schedule of quote
  commands, the credentials of a live run, and the loop that takes a trigger through the safety checks to
  the exchange. Log lines are left out; the alerts the loop sends are its output.
\<close>

section \<open>Throttle and retries\<close>

record quote_command_policy =
  qcp_max_retries :: u32
  qcp_initial_backoff_ms :: u64
  qcp_max_backoff_ms :: u64
  qcp_throttle_window_ms :: u64
  qcp_max_commands_per_window :: nat

definition quote_command_policy_default :: quote_command_policy where
  "quote_command_policy_default =
     \<lparr>qcp_max_retries = 3, qcp_initial_backoff_ms = 100, qcp_max_backoff_ms = 1000,
      qcp_throttle_window_ms = 1000, qcp_max_commands_per_window = 5\<rparr>"

datatype quote_command_failure = Transient | RateLimited | Permanent

datatype quote_command_retry = RetryAt u32 u64 | GiveUp

record throttle_decision =
  td_allowed :: bool
  td_retry_at_ms :: "u64 option"

record quote_command_throttle =
  qct_policy :: quote_command_policy
  qct_window_started_ms :: "u64 option"
  qct_commands_in_window :: nat

definition quote_command_throttle_new :: "quote_command_policy \<Rightarrow> quote_command_throttle" where
  "quote_command_throttle_new p =
     \<lparr>qct_policy = p, qct_window_started_ms = None, qct_commands_in_window = 0\<rparr>"

definition throttle_try_acquire ::
    "u64 \<Rightarrow> quote_command_throttle \<Rightarrow> throttle_decision \<times> quote_command_throttle" where
  "throttle_try_acquire now_ms t =
     (let started = unwrap_or now_ms (qct_window_started_ms t);
          window = qcp_throttle_window_ms (qct_policy t);
          fresh = window \<le> saturating_sub now_ms started;
          started = (if fresh then now_ms else started);
          commands = (if fresh then 0 else qct_commands_in_window t);
          t = t\<lparr>qct_window_started_ms := Some started, qct_commands_in_window := commands\<rparr>
      in if qcp_max_commands_per_window (qct_policy t) \<le> commands
         then (\<lparr>td_allowed = False, td_retry_at_ms = Some (saturating_add started window)\<rparr>, t)
         else (\<lparr>td_allowed = True, td_retry_at_ms = None\<rparr>, t\<lparr>qct_commands_in_window := commands + 1\<rparr>))"

text \<open>\<open>attempt + 1\<close> cannot overflow: it is below \<open>max_retries\<close>.\<close>

definition retry_decision ::
    "quote_command_policy \<Rightarrow> quote_command_failure \<Rightarrow> u32 \<Rightarrow> u64 \<Rightarrow> quote_command_retry" where
  "retry_decision p failure attempt now_ms =
     (case failure of
        Permanent \<Rightarrow> GiveUp
      | _ \<Rightarrow>
          if qcp_max_retries p \<le> attempt then GiveUp
          else
            let multiplier = push_bit (unat (min attempt 16)) (1 :: u64);
                delay_ms = min (saturating_mul (qcp_initial_backoff_ms p) multiplier) (qcp_max_backoff_ms p)
            in RetryAt (attempt + 1) (saturating_add now_ms delay_ms))"

section \<open>Credentials\<close>

record credentials_config =
  cc_api_key :: string
  cc_api_secret :: string
  cc_passphrase :: string
  cc_private_key :: string
  cc_maker_address :: string
  cc_signer_address :: string

text \<open>The key parser is \<open>alloy\<close>'s: an argument.\<close>

definition build_credentials ::
    "(string \<Rightarrow> (string, 'k) result) \<Rightarrow> credentials_config \<Rightarrow> bool
      \<Rightarrow> (string, l2_credentials \<times> 'k option) result" where
  "build_credentials parse_key creds dry_run =
     (let l2 = \<lparr>l2_api_key = cc_api_key creds, l2_secret = cc_api_secret creds,
                l2_passphrase = cc_passphrase creds, l2_address = cc_maker_address creds\<rparr>
      in if dry_run then Inr (l2, None)
         else if cc_private_key creds = [] then Inl ''private_key is required when dry_run = false''
         else if cc_api_key creds = [] then Inl ''api_key is required when dry_run = false''
         else if cc_api_secret creds = [] then Inl ''api_secret is required when dry_run = false''
         else if cc_passphrase creds = [] then Inl ''passphrase is required when dry_run = false''
         else if cc_maker_address creds = [] then Inl ''maker_address is required when dry_run = false''
         else
           let key = cc_private_key creds;
               pk_hex = (if take 2 key = ''0x'' then drop 2 key else key)
           in bind_result (parse_key pk_hex) (\<lambda>signer. Inr (l2, Some signer)))"

section \<open>The loop\<close>

record signer_params =
  sp_maker :: address
  sp_signer_addr :: address
  sp_fee_rate_bps :: u64
  sp_is_neg_risk :: bool
  sp_sig_type :: signature_type
  sp_owner_id :: string

text \<open>What stays fixed during a run; the signing key is in the platform.\<close>

record ('w, 'h, 'a, 't, 's, 'f) execution_setup =
  xs_platform :: "('w, 'h) platform"
  xs_network :: "('w, 'a, 't, 's, 'f) network"
  xs_creds :: l2_credentials
  xs_dry_run :: bool
  xs_signer_params :: "signer_params option"
  xs_alert_webhook_url :: "string option"

record ('w, 's) execution_state =
  xe_pool :: "'s connection_pool"
  xe_presigned :: presigned_pool
  xe_breaker :: circuit_breaker
  xe_limiter :: rate_limiter
  xe_guard :: order_guard
  xe_world :: 'w

text \<open>One poll of the queue: a trigger with the wall clock that the rate limiter will read, or none.\<close>

datatype poll = Got trigger_message u64 | QueueEmpty | QueueDisconnected

datatype loop_status = Running | Stopped

datatype 'a loop_output = AlertSent string string | Dispatched trigger_message "'a dispatch_outcome"

definition breaker_summary :: "circuit_breaker \<Rightarrow> string" where
  "breaker_summary cb =
     (let (orders, usd) = breaker_stats cb
      in ''Circuit breaker tripped: '' @ show_word orders @ '' orders, $''
           @ format_two_decimals usd @ '' committed'')"

definition em_dash :: string where
  "em_dash = map char_of [226 :: nat, 128, 148]"

definition breaker_error_text :: "string \<Rightarrow> string" where
  "breaker_error_text reason = ''Circuit breaker tripped: '' @ reason"

definition send_alert :: "string option \<Rightarrow> string \<Rightarrow> 'a loop_output list" where
  "send_alert url msg = (case url of None \<Rightarrow> [] | Some u \<Rightarrow> [AlertSent u msg])"

text \<open>When at most a fifth of the pre-signed orders is left, the cursor goes back to the first.\<close>

definition auto_refill :: "presigned_pool \<Rightarrow> presigned_pool" where
  "auto_refill pp =
     (let remaining = presigned_len pp - consumed pp;
          threshold = presigned_len pp div 5
      in if remaining \<le> threshold \<and> 0 < presigned_len pp then reset_cursor pp else pp)"

text \<open>
  The call of the dispatcher: signing on the hot path with signer parameters, a pre-signed order without. A panic
  would end the thread; there is none, so an absent outcome is not represented further.
\<close>

definition dispatch_trigger ::
    "('w, 'h, 'a, 't, 's, 'f) execution_setup \<Rightarrow> trigger_message \<Rightarrow> ('w, 's) execution_state
      \<Rightarrow> 'a dispatch_outcome option \<times> ('w, 's) execution_state" where
  "dispatch_trigger xs trigger st =
     (case xs_signer_params xs of
        Some sp \<Rightarrow>
          (let (outcome, pool, w) =
                 sign_and_dispatch (xs_platform xs) (xs_network xs) trigger (xs_creds xs) (sp_maker sp)
                   (sp_signer_addr sp) (sp_fee_rate_bps sp) (sp_is_neg_risk sp) (sp_sig_type sp)
                   (sp_owner_id sp) (xe_pool st) (xe_world st)
           in (outcome, st\<lparr>xe_pool := pool, xe_world := w\<rparr>))
      | None \<Rightarrow>
          (let (outcome, pp, pool, w) =
                 process_one_clob (xs_platform xs) (xs_network xs) (xe_presigned st) (xs_creds xs) trigger
                   (xe_pool st) (xe_world st)
           in (Some outcome, st\<lparr>xe_presigned := pp, xe_pool := pool, xe_world := w\<rparr>)))"

definition handle_live ::
    "('w, 'h, 'a, 't, 's, 'f) execution_setup \<Rightarrow> trigger_message \<Rightarrow> ('w, 's) execution_state
      \<Rightarrow> loop_status \<times> 'a loop_output list \<times> ('w, 's) execution_state" where
  "handle_live xs trigger st =
     (case check_and_record (xe_breaker st) (tm_price trigger) (tm_size trigger) of
        (Inl reason, cb) \<Rightarrow>
          (Stopped,
           send_alert (xs_alert_webhook_url xs)
             (breaker_summary cb @ '' '' @ em_dash @ '' '' @ breaker_error_text reason),
           st\<lparr>xe_breaker := cb, xe_guard := guard_release (xe_guard st)\<rparr>)
      | (Inr _, cb) \<Rightarrow>
          (case dispatch_trigger xs trigger (st\<lparr>xe_breaker := cb\<rparr>) of
             (None, st) \<Rightarrow> (Stopped, [], st)
           | (Some outcome, st) \<Rightarrow>
               (let st = st\<lparr>xe_guard := guard_release (xe_guard st)\<rparr>
                in case outcome of
                     Rejected r err \<Rightarrow>
                       if tr_is_reconnect r
                       then (Stopped, [Dispatched trigger outcome], st\<lparr>xe_breaker := trip (xe_breaker st)\<rparr>)
                       else (Running, [Dispatched trigger outcome],
                             st\<lparr>xe_presigned := auto_refill (xe_presigned st)\<rparr>)
                   | Sent r body \<Rightarrow>
                       (Running, [Dispatched trigger outcome],
                        st\<lparr>xe_presigned := auto_refill (xe_presigned st)\<rparr>))))"

definition handle_trigger ::
    "('w, 'h, 'a, 't, 's, 'f) execution_setup \<Rightarrow> trigger_message \<Rightarrow> u64 \<Rightarrow> ('w, 's) execution_state
      \<Rightarrow> loop_status \<times> 'a loop_output list \<times> ('w, 's) execution_state" where
  "handle_trigger xs trigger now_ns st =
     (if cb_tripped (xe_breaker st)
      then (Stopped, send_alert (xs_alert_webhook_url xs) (breaker_summary (xe_breaker st)), st)
      else
        let (ok, rl) = rate_try_acquire now_ns (xe_limiter st); st = st\<lparr>xe_limiter := rl\<rparr>
        in if \<not> ok then (Running, [], st)
           else
             let (free, g) = guard_try_acquire (xe_guard st); st = st\<lparr>xe_guard := g\<rparr>
             in if \<not> free then (Running, [], st)
                else if xs_dry_run xs
                then (Running, [], st\<lparr>xe_guard := guard_release (xe_guard st)\<rparr>)
                else handle_live xs trigger st)"

text \<open>
  The loop over its polls, each after a look at the shutdown flag. It also ends when the list does: the
  executable then still waits for the next poll.
\<close>

fun run_execution_loop ::
    "('w, 'h, 'a, 't, 's, 'f) execution_setup \<Rightarrow> (bool \<times> poll) list \<Rightarrow> ('w, 's) execution_state
      \<Rightarrow> loop_status \<times> 'a loop_output list \<times> ('w, 's) execution_state" where
  "run_execution_loop xs [] st = (Running, [], st)"
| "run_execution_loop xs ((shutdown, p) # polls) st =
     (if shutdown then (Stopped, [], st)
      else case p of
             QueueEmpty \<Rightarrow> run_execution_loop xs polls st
           | QueueDisconnected \<Rightarrow> (Stopped, [], st)
           | Got trigger now_ns \<Rightarrow>
               (case handle_trigger xs trigger now_ns st of
                  (Stopped, out, st) \<Rightarrow> (Stopped, out, st)
                | (Running, out, st) \<Rightarrow>
                    (case run_execution_loop xs polls st of (status, outs, st) \<Rightarrow> (status, out @ outs, st))))"

section \<open>What a run sends\<close>

fun dispatched_triggers :: "'a loop_output list \<Rightarrow> trigger_message list" where
  "dispatched_triggers [] = []"
| "dispatched_triggers (AlertSent u m # outs) = dispatched_triggers outs"
| "dispatched_triggers (Dispatched t o' # outs) = t # dispatched_triggers outs"

lemma dispatched_triggers_append [simp]:
  "dispatched_triggers (xs @ ys) = dispatched_triggers xs @ dispatched_triggers ys"
  by (induction xs rule: dispatched_triggers.induct) auto

lemma dispatched_triggers_alert [simp]: "dispatched_triggers (send_alert url msg) = []"
  by (simp add: send_alert_def split: option.splits)

definition trigger_cents :: "trigger_message \<Rightarrow> nat" where
  "trigger_cents t = unat (order_cents (tm_price t) (tm_size t))"

fun poll_cents :: "bool \<times> poll \<Rightarrow> nat" where
  "poll_cents (b, Got t now) = trigger_cents t"
| "poll_cents (b, p) = 0"

section \<open>Facts of one iteration\<close>

lemma dispatch_trigger_keeps:
  assumes "dispatch_trigger xs t st = (outcome, st')"
  shows "xe_breaker st' = xe_breaker st \<and> xe_limiter st' = xe_limiter st \<and> xe_guard st' = xe_guard st
    \<and> (\<exists>oc. outcome = Some oc \<and> flag_exact oc)
    \<and> pp_bodies (xe_presigned st') = pp_bodies (xe_presigned st)
    \<and> (xs_signer_params xs = None \<longrightarrow> pp_cursor (xe_presigned st') =
        (if pp_cursor (xe_presigned st) < length (pp_bodies (xe_presigned st))
         then pp_cursor (xe_presigned st) + 1 else pp_cursor (xe_presigned st)))"
proof (cases "xs_signer_params xs")
  case (Some sp)
  obtain oc pool' w' where "sign_and_dispatch (xs_platform xs) (xs_network xs) t (xs_creds xs) (sp_maker sp)
      (sp_signer_addr sp) (sp_fee_rate_bps sp) (sp_is_neg_risk sp) (sp_sig_type sp)
      (sp_owner_id sp) (xe_pool st) (xe_world st) = (Some oc, pool', w')" "flag_exact oc"
    by (rule sign_and_dispatch_cases
        [of "xs_platform xs" "xs_network xs" t "xs_creds xs" "sp_maker sp" "sp_signer_addr sp"
          "sp_fee_rate_bps sp" "sp_is_neg_risk sp" "sp_sig_type sp" "sp_owner_id sp" "xe_pool st" "xe_world st"])
  with Some assms show ?thesis by (auto simp: dispatch_trigger_def)
next
  case None
  obtain oc pp' pool' w' where p: "process_one_clob (xs_platform xs) (xs_network xs) (xe_presigned st)
      (xs_creds xs) t (xe_pool st) (xe_world st) = (oc, pp', pool', w')"
    by (metis prod_cases4)
  have "pp_bodies pp' = pp_bodies (xe_presigned st) \<and> pp_cursor pp' =
        (if pp_cursor (xe_presigned st) < length (pp_bodies (xe_presigned st))
         then pp_cursor (xe_presigned st) + 1 else pp_cursor (xe_presigned st))"
    using p by (auto simp: process_one_clob_def Let_def dest!: presigned_dispatch_step
        split: prod.splits sum.splits option.splits)
  with None assms p process_one_clob_flag [OF p] show ?thesis by (auto simp: dispatch_trigger_def)
qed

lemma check_and_record_ok:
  assumes "check_and_record cb price sz = (Inr u, cb')"
    and "unat (cb_orders_fired cb) + 1 < 2 ^ 64"
    and "unat (cb_usd_committed_cents cb) + unat (order_cents price sz) < 2 ^ 64"
  shows "\<not> cb_tripped cb \<and> \<not> cb_tripped cb' \<and> cb_max_orders cb' = cb_max_orders cb
    \<and> cb_max_usd_cents cb' = cb_max_usd_cents cb
    \<and> unat (cb_orders_fired cb') = unat (cb_orders_fired cb) + 1
    \<and> unat (cb_usd_committed_cents cb') = unat (cb_usd_committed_cents cb) + unat (order_cents price sz)
    \<and> unat (cb_orders_fired cb') \<le> unat (cb_max_orders cb)
    \<and> unat (cb_usd_committed_cents cb') \<le> unat (cb_max_usd_cents cb)"
  using assms unat_add_no_wrap [of "cb_orders_fired cb" 1]
    unat_add_no_wrap [of "cb_usd_committed_cents cb" "order_cents price sz"]
  by (auto simp: check_and_record_def Let_def word_less_nat_alt not_less split: if_splits)

fun network_failed :: "'a dispatch_outcome \<Rightarrow> bool" where
  "network_failed (Sent r body) = False"
| "network_failed (Rejected r err) = tr_is_reconnect r"

definition quiet :: "('w, 's) execution_state \<Rightarrow> ('w, 's) execution_state \<Rightarrow> bool" where
  "quiet st st' \<longleftrightarrow> xe_presigned st' = xe_presigned st \<and> xe_pool st' = xe_pool st \<and> xe_world st' = xe_world st"

text \<open>The state of the pre-signed pool after one dispatch, before a refill.\<close>

definition advanced :: "bool \<Rightarrow> presigned_pool \<Rightarrow> presigned_pool \<Rightarrow> bool" where
  "advanced presigned pp pp' \<longleftrightarrow>
     pp_bodies pp' = pp_bodies pp
   \<and> (presigned \<longrightarrow> pp_cursor pp' =
        (if pp_cursor pp < length (pp_bodies pp) then pp_cursor pp + 1 else pp_cursor pp))"

text \<open>The ways an iteration with a trigger ends.\<close>

lemma handle_live_cases:
  assumes h: "handle_live xs t st = (status, out, st')"
  obtains
    (tripped) reason where "status = Stopped" "dispatched_triggers out = []" "quiet st st'"
      "check_and_record (xe_breaker st) (tm_price t) (tm_size t) = (Inl reason, xe_breaker st')"
      "\<not> og_in_flight (xe_guard st')"
  | (failed) oc cb where "status = Stopped" "out = [Dispatched t oc]" "flag_exact oc" "network_failed oc"
      "check_and_record (xe_breaker st) (tm_price t) (tm_size t) = (Inr (), cb)"
      "xe_breaker st' = trip cb" "\<not> og_in_flight (xe_guard st')"
      "advanced (xs_signer_params xs = None) (xe_presigned st) (xe_presigned st')"
  | (completed) oc cb pp where "status = Running" "out = [Dispatched t oc]" "flag_exact oc" "\<not> network_failed oc"
      "check_and_record (xe_breaker st) (tm_price t) (tm_size t) = (Inr (), cb)"
      "xe_breaker st' = cb" "\<not> og_in_flight (xe_guard st')"
      "advanced (xs_signer_params xs = None) (xe_presigned st) pp" "xe_presigned st' = auto_refill pp"
proof -
  obtain r cb where c: "check_and_record (xe_breaker st) (tm_price t) (tm_size t) = (r, cb)" by force
  show thesis
  proof (cases r)
    case (Inl reason)
    with h c show thesis
      by (intro tripped) (auto simp: handle_live_def quiet_def guard_release_def)
  next
    case (Inr u)
    obtain outcome st1 where d: "dispatch_trigger xs t (st\<lparr>xe_breaker := cb\<rparr>) = (outcome, st1)" by force
    from dispatch_trigger_keeps [OF d] obtain oc where oc: "outcome = Some oc" "flag_exact oc"
      and b: "xe_breaker st1 = cb" and a: "advanced (xs_signer_params xs = None) (xe_presigned st) (xe_presigned st1)"
      by (auto simp: advanced_def)
    show thesis
    proof (cases "network_failed oc")
      case True
      then obtain rec err where "oc = Rejected rec err" "tr_is_reconnect rec" by (cases oc) auto
      then have e: "(status, out, st') = (Stopped, [Dispatched t oc],
          st1\<lparr>xe_guard := guard_release (xe_guard st1), xe_breaker := trip cb\<rparr>)"
        using h c Inr d oc b by (auto simp: handle_live_def Let_def)
      show thesis
        by (rule failed [of oc cb]) (use e c Inr oc True a in \<open>auto simp: guard_release_def\<close>)
    next
      case False
      have e: "(status, out, st') = (Running, [Dispatched t oc],
          st1\<lparr>xe_guard := guard_release (xe_guard st1), xe_presigned := auto_refill (xe_presigned st1)\<rparr>)"
        using h c Inr d oc False by (cases oc) (auto simp: handle_live_def Let_def)
      show thesis
        by (rule completed [of oc cb "xe_presigned st1"]) (use e c Inr oc False b a in \<open>auto simp: guard_release_def\<close>)
    qed
  qed
qed

lemma handle_trigger_cases:
  assumes h: "handle_trigger xs t now st = (status, out, st')" and free: "\<not> og_in_flight (xe_guard st)"
  obtains
    (idle) "status = Running" "out = []" "quiet st st'" "xe_breaker st' = xe_breaker st"
      "\<not> og_in_flight (xe_guard st')"
  | (halted) "status = Stopped" "dispatched_triggers out = []" "quiet st st'" "xe_breaker st' = xe_breaker st"
      "cb_tripped (xe_breaker st)" "\<not> og_in_flight (xe_guard st')"
  | (live) st1 where "\<not> xs_dry_run xs" "handle_live xs t st1 = (status, out, st')" "quiet st st1"
      "xe_breaker st1 = xe_breaker st"
proof (cases "cb_tripped (xe_breaker st)")
  case True
  with h free show thesis by (intro halted) (auto simp: handle_trigger_def quiet_def)
next
  case False
  obtain ok rl where r: "rate_try_acquire now (xe_limiter st) = (ok, rl)" by force
  show thesis
  proof (cases ok)
    case ok: True
    show thesis
    proof (cases "xs_dry_run xs")
      case True
      with h False r ok free show thesis
        by (intro idle) (auto simp: handle_trigger_def quiet_def guard_try_acquire_def guard_release_def)
    next
      case live': False
      with h False r ok free show thesis
        by (intro live [of "st\<lparr>xe_limiter := rl, xe_guard := (xe_guard st)\<lparr>og_in_flight := True\<rparr>\<rparr>"])
          (auto simp: handle_trigger_def quiet_def guard_try_acquire_def)
    qed
  next
    case no: False
    with h False r free show thesis by (intro idle) (auto simp: handle_trigger_def quiet_def)
  qed
qed

lemma loop_step_cases:
  assumes r: "run_execution_loop xs ((shutdown, p) # polls) st = (status, outs, st')"
  obtains (ended) "status = Stopped" "outs = []" "st' = st"
  | (waited) "p = QueueEmpty" "run_execution_loop xs polls st = (status, outs, st')"
  | (last_trigger) t now where "p = Got t now" "handle_trigger xs t now st = (Stopped, outs, st')"
      "status = Stopped"
  | (next_trigger) t now out st1 outs1 where "p = Got t now" "handle_trigger xs t now st = (Running, out, st1)"
      "run_execution_loop xs polls st1 = (status, outs1, st')" "outs = out @ outs1"
  using r by (auto split: if_splits poll.splits prod.splits loop_status.splits)

text \<open>What an iteration does to the breaker, to the guard and to the orders, in three cases.\<close>

lemma handle_trigger_summary:
  assumes "handle_trigger xs t now st = (status, out, st')" and "\<not> og_in_flight (xe_guard st)"
  obtains (unsent) "dispatched_triggers out = []" "status = Running \<Longrightarrow> out = [] \<and> xe_breaker st' = xe_breaker st"
      "\<not> og_in_flight (xe_guard st')"
  | (sent_last) oc cb where "status = Stopped" "out = [Dispatched t oc]" "network_failed oc"
      "check_and_record (xe_breaker st) (tm_price t) (tm_size t) = (Inr (), cb)" "xe_breaker st' = trip cb"
  | (sent) oc cb where "status = Running" "out = [Dispatched t oc]" "\<not> network_failed oc"
      "check_and_record (xe_breaker st) (tm_price t) (tm_size t) = (Inr (), cb)" "xe_breaker st' = cb"
      "\<not> og_in_flight (xe_guard st')"
  using assms
proof (cases rule: handle_trigger_cases)
  case (live st1)
  from live(2) show thesis
  proof (cases rule: handle_live_cases)
    case (tripped reason)
    then show thesis by (intro unsent) simp_all
  next
    case (failed oc cb)
    with live(4) show thesis by (intro sent_last [of oc cb]) simp_all
  next
    case (completed oc cb pp)
    with live(4) show thesis by (intro sent [of oc cb]) simp_all
  qed
qed (rule unsent; simp)+

section \<open>Limits over a whole run\<close>

text \<open>An admitted order moves the counters by one and its cents, within the limits, and leaves the room of the rest.\<close>

lemma admitted_counts:
  assumes "check_and_record b (tm_price t) (tm_size t) = (Inr (), cb)"
    and "unat (cb_orders_fired b) + Suc n < 2 ^ 64"
    and "unat (cb_usd_committed_cents b) + (trigger_cents t + m) < 2 ^ 64"
  shows "unat (cb_orders_fired cb) = unat (cb_orders_fired b) + 1"
    "unat (cb_usd_committed_cents cb) = unat (cb_usd_committed_cents b) + trigger_cents t"
    "cb_max_orders cb = cb_max_orders b" "cb_max_usd_cents cb = cb_max_usd_cents b"
    "unat (cb_orders_fired cb) \<le> unat (cb_max_orders b)"
    "unat (cb_usd_committed_cents cb) \<le> unat (cb_max_usd_cents b)"
    "unat (cb_orders_fired cb) + n < 2 ^ 64" "unat (cb_usd_committed_cents cb) + m < 2 ^ 64"
  using check_and_record_ok [OF assms(1)] assms(2,3) by (simp_all add: trigger_cents_def)

lemma loop_within_limits:
  assumes "run_execution_loop xs polls st = (status, outs, st')"
    and "\<not> og_in_flight (xe_guard st)"
    and "unat (cb_orders_fired (xe_breaker st)) + length polls < 2 ^ 64"
    and "unat (cb_usd_committed_cents (xe_breaker st)) + sum_list (map poll_cents polls) < 2 ^ 64"
    and "dispatched_triggers outs \<noteq> []"
  shows "unat (cb_orders_fired (xe_breaker st)) + length (dispatched_triggers outs)
           \<le> unat (cb_max_orders (xe_breaker st))
    \<and> unat (cb_usd_committed_cents (xe_breaker st)) + sum_list (map trigger_cents (dispatched_triggers outs))
           \<le> unat (cb_max_usd_cents (xe_breaker st))"
  using assms
proof (induction polls arbitrary: st outs)
  case (Cons pl polls)
  obtain sd p where pl: "pl = (sd, p)" by force
  have room: "unat (cb_orders_fired (xe_breaker st)) + Suc (length polls) < 2 ^ 64"
    "unat (cb_usd_committed_cents (xe_breaker st)) + (trigger_cents t + sum_list (map poll_cents polls)) < 2 ^ 64"
    if "p = Got t now" for t now using Cons.prems(3,4) by (simp_all add: pl that)
  from Cons.prems(1) [unfolded pl] show ?case
  proof (cases rule: loop_step_cases)
    case ended
    with Cons.prems(5) show ?thesis by simp
  next
    case waited
    from Cons.IH [OF waited(2) Cons.prems(2) _ _ Cons.prems(5)] Cons.prems(3,4) show ?thesis by simp
  next
    case (last_trigger t now)
    from last_trigger(2) Cons.prems(2) show ?thesis
    proof (cases rule: handle_trigger_summary)
      case (sent_last oc cb)
      from admitted_counts [OF sent_last(4) room [OF last_trigger(1)]] show ?thesis by (simp add: sent_last(2))
    qed (use Cons.prems(5) in simp_all)
  next
    case (next_trigger t now out st1 outs1)
    from next_trigger(2) Cons.prems(2) show ?thesis
    proof (cases rule: handle_trigger_summary)
      case unsent
      with next_trigger Cons.prems Cons.IH [OF next_trigger(3)] show ?thesis by (simp add: pl)
    next
      case (sent oc cb)
      note ok = admitted_counts [OF sent(4) room [OF next_trigger(1)]]
      show ?thesis
      proof (cases "dispatched_triggers outs1 = []")
        case True
        with ok sent(2) next_trigger(4) show ?thesis by simp
      next
        case False
        from Cons.IH [OF next_trigger(3) sent(6) _ _ False] ok sent(2,5) next_trigger(4) show ?thesis by simp
      qed
    qed simp
  qed
qed simp

text \<open>
  C3. The execution loop keeps the limits of its circuit breaker over any run, whatever the network answers: with the
  orders and cents counted before, the triggers it passes to the dispatcher stay within the order limit, and
  their dollar amounts within the dollar limit, as long as the counters cannot wrap.
\<close>

theorem execution_respects_limits:
  assumes "run_execution_loop xs polls st = (status, outs, st')"
    and "\<not> og_in_flight (xe_guard st)"
    and "unat (cb_orders_fired (xe_breaker st)) + length polls < 2 ^ 64"
    and "unat (cb_usd_committed_cents (xe_breaker st)) + sum_list (map poll_cents polls) < 2 ^ 64"
    and "dispatched_triggers outs \<noteq> []"
  shows "unat (cb_orders_fired (xe_breaker st)) + length (dispatched_triggers outs)
           \<le> unat (cb_max_orders (xe_breaker st))
    \<and> unat (cb_usd_committed_cents (xe_breaker st)) + sum_list (map trigger_cents (dispatched_triggers outs))
           \<le> unat (cb_max_usd_cents (xe_breaker st))"
  using assms by (rule loop_within_limits)

text \<open>
  C22. A failing network ends the run: an order whose outcome carries the reconnect flag is the last one, the loop
  has stopped and the circuit breaker is tripped, so no later call of the loop sends anything either.
\<close>

theorem execution_stops_on_network_failure:
  assumes "run_execution_loop xs polls st = (status, outs, st')" and "\<not> og_in_flight (xe_guard st)"
    and "outs = before @ Dispatched t oc # after" and "network_failed oc"
  shows "status = Stopped \<and> after = [] \<and> cb_tripped (xe_breaker st')"
  using assms
proof (induction polls arbitrary: st outs before)
  case (Cons pl polls)
  obtain sd p where pl: "pl = (sd, p)" by force
  have some: "dispatched_triggers outs \<noteq> []" using Cons.prems(3) by simp
  from Cons.prems(1) [unfolded pl] show ?case
  proof (cases rule: loop_step_cases)
    case ended
    with some show ?thesis by simp
  next
    case waited
    from Cons.IH [OF waited(2) Cons.prems(2-4)] show ?thesis .
  next
    case (last_trigger u now)
    from last_trigger(2) Cons.prems(2) show ?thesis
    proof (cases rule: handle_trigger_summary)
      case (sent_last oc' cb)
      with Cons.prems(3) last_trigger(3) show ?thesis by (auto simp: Cons_eq_append_conv trip_def)
    qed (use some in simp_all)
  next
    case (next_trigger u now out st1 outs1)
    from next_trigger(2) Cons.prems(2) show ?thesis
    proof (cases rule: handle_trigger_summary)
      case unsent
      then have "outs1 = before @ Dispatched t oc # after" using Cons.prems(3) next_trigger(4) by simp
      from Cons.IH [OF next_trigger(3) unsent(3) this Cons.prems(4)] show ?thesis .
    next
      case (sent oc' cb)
      have "Dispatched u oc' # outs1 = before @ Dispatched t oc # after"
        using Cons.prems(3) next_trigger(4) sent(2) by simp
      with sent(3) Cons.prems(4) obtain before' where "outs1 = before' @ Dispatched t oc # after"
        by (auto simp: Cons_eq_append_conv)
      from Cons.IH [OF next_trigger(3) sent(6) this Cons.prems(4)] show ?thesis .
    qed simp
  qed
qed simp

text \<open>
  A dry run sends nothing: no trigger reaches the dispatcher, and the breaker, the pre-signed orders, the
  connections and the world are as before.
\<close>

theorem dry_run_sends_nothing:
  assumes "run_execution_loop xs polls st = (status, outs, st')"
    and "\<not> og_in_flight (xe_guard st)" and "xs_dry_run xs"
  shows "dispatched_triggers outs = [] \<and> quiet st st' \<and> xe_breaker st' = xe_breaker st"
  using assms(1,2)
proof (induction polls arbitrary: st outs)
  case (Cons pl polls)
  obtain sd p where pl: "pl = (sd, p)" by force
  from Cons.prems(1) [unfolded pl] show ?case
  proof (cases rule: loop_step_cases)
    case (last_trigger t now)
    from last_trigger(2) Cons.prems(2) show ?thesis
      by (cases rule: handle_trigger_cases) (use assms(3) in simp_all)
  next
    case (next_trigger t now out st1 outs1)
    from next_trigger(2) Cons.prems(2) show ?thesis
    proof (cases rule: handle_trigger_cases)
      case idle
      with Cons.IH [OF next_trigger(3) idle(5)] next_trigger(4) show ?thesis by (simp add: quiet_def)
    qed (use assms(3) in simp_all)
  qed (use Cons.IH [of st outs] Cons.prems(2) in \<open>simp_all add: quiet_def\<close>)
qed (simp add: quiet_def)

section \<open>The cycle of the pre-signed orders\<close>

lemma auto_refill_step:
  assumes a: "advanced True pp pp'" and P: "P = length (pp_bodies pp) - length (pp_bodies pp) div 5"
    and c: "pp_cursor pp < P"
  shows "pp_bodies (auto_refill pp') = pp_bodies pp \<and> pp_cursor (auto_refill pp') = (pp_cursor pp + 1) mod P"
proof -
  have b: "pp_bodies pp' = pp_bodies pp" and n: "pp_cursor pp' = pp_cursor pp + 1"
    using a c P by (auto simp: advanced_def)
  show ?thesis
  proof (cases "pp_cursor pp + 1 = P")
    case True
    with b n P c show ?thesis
      by (auto simp: auto_refill_def Let_def presigned_len_def consumed_def reset_cursor_def)
  next
    case False
    with b n P c have "\<not> length (pp_bodies pp) - (pp_cursor pp + 1) \<le> length (pp_bodies pp) div 5"
      by linarith
    with False b n c show ?thesis
      by (simp add: auto_refill_def Let_def presigned_len_def consumed_def)
  qed
qed

lemma presigned_cycle_from:
  assumes "run_execution_loop xs polls st = (Running, outs, st')"
    and "\<not> og_in_flight (xe_guard st)" and "xs_signer_params xs = None"
    and "P = length (pp_bodies (xe_presigned st)) - length (pp_bodies (xe_presigned st)) div 5"
    and "pp_cursor (xe_presigned st) < P"
  shows "pp_bodies (xe_presigned st') = pp_bodies (xe_presigned st) \<and>
    pp_cursor (xe_presigned st') = (pp_cursor (xe_presigned st) + length (dispatched_triggers outs)) mod P"
  using assms
proof (induction polls arbitrary: st outs)
  case (Cons pl polls)
  obtain sd p where pl: "pl = (sd, p)" by force
  from Cons.prems(1) [unfolded pl] show ?case
  proof (cases rule: loop_step_cases)
    case waited
    from Cons.IH [OF waited(2) Cons.prems(2-5)] show ?thesis .
  next
    case (next_trigger t now out st1 outs1)
    from next_trigger(2) Cons.prems(2) show ?thesis
    proof (cases rule: handle_trigger_cases)
      case idle
      with Cons.IH [OF next_trigger(3) idle(5) Cons.prems(3)] Cons.prems(4,5) next_trigger(4)
      show ?thesis by (simp add: quiet_def)
    next
      case (live st2)
      from live(2) show ?thesis
      proof (cases rule: handle_live_cases)
        case (completed oc cb pp)
        have pre: "xe_presigned st2 = xe_presigned st" using live(3) by (simp add: quiet_def)
        have R: "pp_bodies (xe_presigned st1) = pp_bodies (xe_presigned st)"
            "pp_cursor (xe_presigned st1) = (pp_cursor (xe_presigned st) + 1) mod P"
          using auto_refill_step [of "xe_presigned st" pp P] completed(8,9) Cons.prems(3-5) pre by simp_all
        have "pp_cursor (xe_presigned st1) < P" using R(2) Cons.prems(5) by simp
        from Cons.IH [OF next_trigger(3) completed(7) Cons.prems(3) _ this] R Cons.prems(4) completed(2)
          next_trigger(4)
        show ?thesis by (simp add: mod_add_left_eq)
      qed simp_all
    qed simp
  qed simp_all
qed simp

text \<open>
  The automatic refill reuses orders: of \<open>n\<close> pre-signed orders a loop that keeps running sends the first
  \<open>n - n div 5\<close> over and over, the same salts and signatures each time, and never the rest.
\<close>

theorem presigned_orders_cycle:
  assumes "run_execution_loop xs polls st = (Running, outs, st')"
    and "\<not> og_in_flight (xe_guard st)" and "xs_signer_params xs = None"
    and "pp_cursor (xe_presigned st) = 0" and "pp_bodies (xe_presigned st) \<noteq> []"
  shows "pp_bodies (xe_presigned st') = pp_bodies (xe_presigned st) \<and>
    pp_cursor (xe_presigned st') = length (dispatched_triggers outs)
      mod (length (pp_bodies (xe_presigned st)) - length (pp_bodies (xe_presigned st)) div 5)"
proof -
  have "0 < length (pp_bodies (xe_presigned st))" using assms(5) by simp
  then have "0 < length (pp_bodies (xe_presigned st)) - length (pp_bodies (xe_presigned st)) div 5" by linarith
  with presigned_cycle_from [OF assms(1-3) refl] assms(4) show ?thesis by simp
qed

section \<open>A concrete run\<close>

definition sample_trigger :: trigger_message where
  "sample_trigger =
     \<lparr>tm_trigger_id = 1, tm_token_id = ''42'', tm_side = Buy, tm_price = ''0.45'', tm_size = ''10'',
      tm_order_type = FOK, tm_timestamp_ns = 0\<rparr>"

definition sample_setup ::
    "bool \<Rightarrow> (nat \<times> bool, string, unit, unit, nat, nat) execution_setup" where
  "sample_setup dry_run =
     \<lparr>xs_platform = plain_platform, xs_network = flaky_network,
      xs_creds = \<lparr>l2_api_key = ''k'', l2_secret = ''s'', l2_passphrase = ''p'', l2_address = ''0x''\<rparr>,
      xs_dry_run = dry_run, xs_signer_params = None, xs_alert_webhook_url = None\<rparr>"

text \<open>One pre-signed order and one connection, whose sender is the argument.\<close>

definition sample_state :: "nat \<Rightarrow> (nat \<times> bool, nat) execution_state" where
  "sample_state sender =
     \<lparr>xe_pool = \<lparr>cp_host = [], cp_port = 443, cp_af = AfAuto, cp_capacity = 1,
        cp_connections = [\<lparr>hc_sender = sender, hc_healthy = True\<rparr>], cp_next_index = 0\<rparr>,
      xe_presigned = \<lparr>pp_bodies = [''{}''], pp_cursor = 0\<rparr>,
      xe_breaker = breaker_for_one,
      xe_limiter = rate_limiter_new 10,
      xe_guard = order_guard_new,
      xe_world = (2, False)\<rparr>"

lemma sample_limiter:
  "rate_try_acquire 1000000000 (rate_limiter_new 10)
     = (True, \<lparr>rl_max_per_second = 10, rl_window_start_ns = 1000000000, rl_count_in_window = 1\<rparr>)"
  by (simp add: rate_try_acquire_def rate_limiter_new_def saturating_sub_def nanos_per_second_def)

lemma sample_check:
  "check_and_record breaker_for_one ''0.45'' ''10''
     = (Inr (), breaker_for_one\<lparr>cb_orders_fired := 1, cb_usd_committed_cents := 450\<rparr>)"
  by (simp add: check_and_record_def breaker_for_one_eq order_cents_450 Let_def)

lemma sample_dispatch:
  "\<exists>oc st. dispatch_trigger (sample_setup False) sample_trigger (sample_state sender\<lparr>xe_breaker := cb,
     xe_limiter := rl, xe_guard := g\<rparr>) = (Some oc, st) \<and> (network_failed oc \<longleftrightarrow> sender = 0)"
proof -
  have show5: "show_nat 5 = ''5''" by (subst show_nat.simps) simp
  have req: "\<exists>req. presigned_dispatch plain_platform
      \<lparr>l2_api_key = ''k'', l2_secret = ''s'', l2_passphrase = ''p'', l2_address = ''0x''\<rparr>
      \<lparr>pp_bodies = [''{}''], pp_cursor = 0\<rparr> (2, False)
      = (Inr (Some req), \<lparr>pp_bodies = [''{}''], pp_cursor = 1\<rparr>, (2, False))"
    by (simp add: presigned_dispatch_def build_order_request_from_bytes_def Let_def plain_platform_def
        build_order_request_from_bytes_with_timestamp_def build_l2_headers_def hmac_signature_def
        header_value_ok_def ascii_lowercase_def to_ascii_lower_def result_facts show_word_def show5)
  then obtain req where req: "presigned_dispatch plain_platform
      \<lparr>l2_api_key = ''k'', l2_secret = ''s'', l2_passphrase = ''p'', l2_address = ''0x''\<rparr>
      \<lparr>pp_bodies = [''{}''], pp_cursor = 0\<rparr> (2, False)
      = (Inr (Some req), \<lparr>pp_bodies = [''{}''], pp_cursor = 1\<rparr>, (2, False))" ..
  note net = send_start_def acquire_def ensure_healthy_def collect_def send_handle_collect_def collect_response_def
    report_failure_def reconnect_def connect_h2_def resolve_def connect_sender_for_addr_def set_healthy_def
  have clock: "pf_now_ns plain_platform w = (of_nat (fst w) + 1, w)" for w by (simp add: plain_platform_def)
  show ?thesis
    by (cases "sender = 0")
      (simp_all add: dispatch_trigger_def sample_setup_def sample_state_def process_one_clob_def start_record_def
        clock req dispatch_request_def net flaky_network_def reject_def sent_outcome_def Let_def)
qed

definition sample_polls :: "(bool \<times> poll) list" where
  "sample_polls = [(False, Got sample_trigger 1000000000)]"

lemma sample_run:
  "\<exists>status oc st'. run_execution_loop (sample_setup False) sample_polls (sample_state sender)
      = (status, [Dispatched sample_trigger oc], st')
    \<and> (network_failed oc \<longleftrightarrow> sender = 0) \<and> (status = Running \<longleftrightarrow> sender \<noteq> 0)"
proof -
  let ?rl = "\<lparr>rl_max_per_second = 10, rl_window_start_ns = 1000000000, rl_count_in_window = 1\<rparr>"
  let ?g = "\<lparr>og_in_flight = True\<rparr>"
  let ?cb = "breaker_for_one\<lparr>cb_orders_fired := 1, cb_usd_committed_cents := 450\<rparr>"
  obtain oc st1 where d: "dispatch_trigger (sample_setup False) sample_trigger
      (sample_state sender\<lparr>xe_breaker := ?cb, xe_limiter := ?rl, xe_guard := ?g\<rparr>) = (Some oc, st1)"
    and f: "network_failed oc \<longleftrightarrow> sender = 0"
    using sample_dispatch by blast
  have ord: "sample_state sender\<lparr>xe_limiter := ?rl, xe_guard := ?g, xe_breaker := ?cb\<rparr>
      = sample_state sender\<lparr>xe_breaker := ?cb, xe_limiter := ?rl, xe_guard := ?g\<rparr>" by simp
  have L: "handle_live (sample_setup False) sample_trigger (sample_state sender\<lparr>xe_limiter := ?rl, xe_guard := ?g\<rparr>)
      = (if sender = 0 then (Stopped, [Dispatched sample_trigger oc],
            st1\<lparr>xe_guard := guard_release (xe_guard st1), xe_breaker := trip (xe_breaker st1)\<rparr>)
         else (Running, [Dispatched sample_trigger oc],
            st1\<lparr>xe_guard := guard_release (xe_guard st1), xe_presigned := auto_refill (xe_presigned st1)\<rparr>))"
  proof -
    have c: "check_and_record (xe_breaker (sample_state sender\<lparr>xe_limiter := ?rl, xe_guard := ?g\<rparr>))
        (tm_price sample_trigger) (tm_size sample_trigger) = (Inr (), ?cb)"
      by (simp add: sample_check sample_state_def sample_trigger_def)
    show ?thesis
      unfolding handle_live_def c prod.case sum.case ord d option.case Let_def
      using f by (cases oc) auto
  qed
  have "handle_trigger (sample_setup False) sample_trigger 1000000000 (sample_state sender)
      = handle_live (sample_setup False) sample_trigger (sample_state sender\<lparr>xe_limiter := ?rl, xe_guard := ?g\<rparr>)"
    by (simp add: handle_trigger_def sample_state_def breaker_for_one_eq sample_limiter guard_try_acquire_def
        order_guard_new_def sample_setup_def)
  then show ?thesis using L f by (simp add: sample_polls_def)
qed

lemma sample_free: "\<not> og_in_flight (xe_guard (sample_state sender))"
  by (simp add: sample_state_def order_guard_new_def)

theorem execution_respects_limits_witness:
  "\<exists>status outs st'. run_execution_loop (sample_setup False) sample_polls (sample_state 1) = (status, outs, st')
     \<and> dispatched_triggers outs = [sample_trigger]
     \<and> 0 + length (dispatched_triggers outs) \<le> 1
     \<and> 0 + sum_list (map trigger_cents (dispatched_triggers outs)) \<le> 500"
proof -
  obtain status oc st' where r: "run_execution_loop (sample_setup False) sample_polls (sample_state 1)
      = (status, [Dispatched sample_trigger oc], st')"
    using sample_run [of 1] by blast
  have c: "trigger_cents sample_trigger = 450"
    by (simp add: trigger_cents_def sample_trigger_def order_cents_450)
  have "0 + length (dispatched_triggers [Dispatched sample_trigger oc]) \<le> 1
      \<and> 0 + sum_list (map trigger_cents (dispatched_triggers [Dispatched sample_trigger oc])) \<le> 500"
    using execution_respects_limits [OF r sample_free]
    by (simp add: sample_polls_def sample_state_def breaker_for_one_eq c)
  then show ?thesis using r by (simp add: c)
qed

theorem execution_stops_on_network_failure_witness:
  "\<exists>oc st'. run_execution_loop (sample_setup False) sample_polls (sample_state 0)
      = (Stopped, [Dispatched sample_trigger oc], st') \<and> cb_tripped (xe_breaker st')"
proof -
  obtain status oc st' where r: "run_execution_loop (sample_setup False) sample_polls (sample_state 0)
      = (status, [Dispatched sample_trigger oc], st')" and f: "network_failed oc"
    using sample_run [of 0] by blast
  show ?thesis
    using execution_stops_on_network_failure [OF r sample_free, of "[]" sample_trigger oc "[]"] f r by simp
qed

theorem dry_run_sends_nothing_witness:
  "\<exists>status outs st'. run_execution_loop (sample_setup True) sample_polls (sample_state 1) = (status, outs, st')
     \<and> dispatched_triggers outs = [] \<and> xe_breaker st' = breaker_for_one"
proof -
  obtain status outs st' where r: "run_execution_loop (sample_setup True) sample_polls (sample_state 1)
      = (status, outs, st')" by (metis prod_cases3)
  show ?thesis
    using dry_run_sends_nothing [OF r sample_free] r by (simp add: sample_setup_def sample_state_def)
qed

theorem presigned_orders_cycle_witness:
  "\<exists>outs st'. run_execution_loop (sample_setup False) sample_polls (sample_state 1) = (Running, outs, st')
     \<and> length (dispatched_triggers outs) = 1 \<and> pp_cursor (xe_presigned st') = 0"
proof -
  obtain status oc st' where run: "run_execution_loop (sample_setup False) sample_polls (sample_state 1)
      = (status, [Dispatched sample_trigger oc], st')" and "status = Running \<longleftrightarrow> (1 :: nat) \<noteq> 0"
    using sample_run [of 1] by blast
  then have "status = Running" by simp
  note r = run [unfolded this]
  show ?thesis
    using presigned_orders_cycle [OF r sample_free] r by (simp add: sample_setup_def sample_state_def)
qed

section \<open>The throttle and the retry schedule\<close>

text \<open>The delay of a retry: doubled at every attempt up to \<open>2 ^ 16\<close>, never above the maximum.\<close>

lemma retry_delay:
  assumes "failure \<noteq> Permanent" "attempt < qcp_max_retries p"
  shows "\<exists>due. retry_decision p failure attempt now = RetryAt (attempt + 1) due
    \<and> unat due = min (unat now
         + min (unat (qcp_initial_backoff_ms p) * 2 ^ min (unat attempt) 16) (unat (qcp_max_backoff_ms p))) (2 ^ 64 - 1)"
proof -
  define k where "k = min (unat attempt) 16"
  have k: "unat (min attempt 16) = k" by (simp add: k_def min_def word_le_nat_alt)
  have "k \<le> 16" by (simp add: k_def)
  then have "(2::nat) ^ k < 2 ^ 64" by (intro power_strict_increasing) simp_all
  then have m: "unat ((2 :: u64) ^ k) = 2 ^ k"
    using unat_of_nat_less [of "2 ^ k", where 'a = 64] by simp
  have "n \<le> 2 ^ 64 - 1" if "n < 2 ^ LENGTH(64)" for n :: nat using that by simp
  then have mx: "unat (qcp_max_backoff_ms p) \<le> 2 ^ 64 - 1" using unat_less_pow by blast
  have um: "unat (min a b) = min (unat a) (unat b)" for a b :: u64 by (simp add: min_def word_le_nat_alt)
  show ?thesis
    using assms mx
    by (cases failure) (auto simp: retry_decision_def Let_def k um unat_saturating_add unat_saturating_mul m
        simp flip: k_def)
qed

end
