(* ===== verification/Strategy.thy ===== *)
theory Strategy
  imports CoreTypes FloatDecimal HotState
begin

text \<open>
  Strategies (\<open>pm-strategy\<close>: \<open>strategy.rs\<close>, \<open>threshold.rs\<close>, \<open>spread.rs\<close>, \<open>config.rs\<close>,
  \<open>runner.rs\<close>): what a strategy needs and sees, the two trigger strategies, their construction from
  a configuration and the loop that feeds them snapshots. The time since a strategy's epoch is an
  argument of each call. The locale \<open>book_strategy\<close> is the contract of the trait \<open>Strategy\<close>; both
  strategies implement it.
\<close>

section \<open>Requirements and views\<close>

datatype execution_mode = TriggerMode | QuoteMode

datatype isolation_policy = SharedFeedAcceptable | DedicatedPreferred | DedicatedRequired

datatype requirement_kind =
    PolymarketBbo | PolymarketDepthTopN nat | ExternalReferencePrice | RecentTrades | RewardMetadata
  | Inventory | LiveOrderState

datatype requirement_selector =
    SelAsset string | SelSymbol string | SelMarket string | SelSource string

record data_requirement =
  dr_kind :: requirement_kind
  dr_selector :: requirement_selector

record strategy_requirements =
  sr_execution_mode :: execution_mode
  sr_isolation_policy :: isolation_policy
  sr_data :: "data_requirement list"

record inventory_position =
  ip_asset_id :: string
  ip_side :: side
  ip_filled_size :: string
  ip_net_notional :: string
  ip_updated_at_ms :: u64

record inventory_delta =
  id_asset_id :: string
  id_side :: side
  id_filled_size_delta :: string
  id_notional_delta :: string
  id_observed_at_ms :: u64

record strategy_view =
  sv_notice :: update_notice
  sv_books :: "hot_book_state list"
  sv_references :: "hot_reference_state list"
  sv_inventory :: "inventory_position list"

definition require_polymarket_bbo :: "string \<Rightarrow> data_requirement" where
  "require_polymarket_bbo asset = \<lparr>dr_kind = PolymarketBbo, dr_selector = SelAsset asset\<rparr>"

definition require_reference_price :: "string \<Rightarrow> data_requirement" where
  "require_reference_price symbol = \<lparr>dr_kind = ExternalReferencePrice, dr_selector = SelSymbol symbol\<rparr>"

definition requirements_trigger :: "data_requirement list \<Rightarrow> isolation_policy \<Rightarrow> strategy_requirements" where
  "requirements_trigger d i = \<lparr>sr_execution_mode = TriggerMode, sr_isolation_policy = i, sr_data = d\<rparr>"

definition requirements_quote :: "data_requirement list \<Rightarrow> isolation_policy \<Rightarrow> strategy_requirements" where
  "requirements_quote d i = \<lparr>sr_execution_mode = QuoteMode, sr_isolation_policy = i, sr_data = d\<rparr>"

definition inventory_delta_new :: "string \<Rightarrow> side \<Rightarrow> string \<Rightarrow> string \<Rightarrow> u64 \<Rightarrow> inventory_delta" where
  "inventory_delta_new a s f n t =
     \<lparr>id_asset_id = a, id_side = s, id_filled_size_delta = f, id_notional_delta = n, id_observed_at_ms = t\<rparr>"

definition view_book :: "strategy_view \<Rightarrow> string \<Rightarrow> hot_book_state option" where
  "view_book v asset = List.find (\<lambda>b. hb_asset_id b = asset) (sv_books v)"

definition view_reference :: "strategy_view \<Rightarrow> string \<Rightarrow> hot_reference_state option" where
  "view_reference v i =
     List.find (\<lambda>r. ir_instrument_id (un_subject (hr_notice r)) = i) (sv_references v)"

definition view_inventory :: "strategy_view \<Rightarrow> string \<Rightarrow> side \<Rightarrow> inventory_position option" where
  "view_inventory v asset s = List.find (\<lambda>p. ip_asset_id p = asset \<and> ip_side p = s) (sv_inventory v)"

definition book_level_to_snapshot_level :: "hot_book_level \<Rightarrow> price_level" where
  "book_level_to_snapshot_level l =
     \<lparr>pl_price = hv_exact (hbl_price l), pl_size = hv_exact (hbl_size l)\<rparr>"

definition view_snapshot :: "strategy_view \<Rightarrow> string \<Rightarrow> order_book_snapshot option" where
  "view_snapshot v asset =
     map_option (\<lambda>b. \<lparr>obs_asset_id = hb_asset_id b,
       obs_best_bid = map_option book_level_to_snapshot_level (hb_best_bid b),
       obs_best_ask = map_option book_level_to_snapshot_level (hb_best_ask b),
       obs_timestamp_ms = hb_timestamp_ms b,
       obs_hash = unwrap_or [] (or_else (hb_source_hash b) (un_source_hash (hb_notice b)))\<rparr>)
       (view_book v asset)"

definition view_primary_snapshot :: "strategy_view \<Rightarrow> order_book_snapshot option" where
  "view_primary_snapshot v =
     (case sv_books v of [] \<Rightarrow> None | b # _ \<Rightarrow> view_snapshot v (hb_asset_id b))"

section \<open>The threshold strategy\<close>

record threshold_strategy =
  ts_token_id :: string
  ts_side :: side
  ts_threshold :: f64
  ts_size :: string
  ts_order_type :: order_type
  ts_next_trigger_id :: u64

definition threshold_new :: "string \<Rightarrow> side \<Rightarrow> f64 \<Rightarrow> string \<Rightarrow> order_type \<Rightarrow> threshold_strategy" where
  "threshold_new token s threshold sz ot =
     \<lparr>ts_token_id = token, ts_side = s, ts_threshold = threshold, ts_size = sz, ts_order_type = ot,
      ts_next_trigger_id = 1\<rparr>"

definition threshold_make_trigger ::
    "u64 \<Rightarrow> threshold_strategy \<Rightarrow> string \<Rightarrow> trigger_message \<times> threshold_strategy" where
  "threshold_make_trigger elapsed_ns st price =
     (\<lparr>tm_trigger_id = ts_next_trigger_id st, tm_token_id = ts_token_id st, tm_side = ts_side st,
       tm_price = price, tm_size = ts_size st, tm_order_type = ts_order_type st,
       tm_timestamp_ns = elapsed_ns\<rparr>,
      st\<lparr>ts_next_trigger_id := ts_next_trigger_id st + 1\<rparr>)"

text \<open>The early returns \<open>?\<close> of the source are the branches without a trigger.\<close>

definition fire_if ::
    "bool \<Rightarrow> ('s \<Rightarrow> string \<Rightarrow> trigger_message \<times> 's) \<Rightarrow> 's \<Rightarrow> string \<Rightarrow> trigger_message option \<times> 's" where
  "fire_if b mk st price =
     (if b then (let (t, st) = mk st price in (Some t, st)) else (None, st))"

definition threshold_on_book_update ::
    "u64 \<Rightarrow> order_book_snapshot \<Rightarrow> threshold_strategy \<Rightarrow> trigger_message option \<times> threshold_strategy" where
  "threshold_on_book_update elapsed_ns snapshot st =
     (if obs_asset_id snapshot \<noteq> ts_token_id st then (None, st)
      else
        case ts_side st of
          Buy \<Rightarrow>
            (case obs_best_ask snapshot of
               None \<Rightarrow> (None, st)
             | Some ask \<Rightarrow>
            (case parse_f64 (pl_price ask) of
               None \<Rightarrow> (None, st)
             | Some ask_price \<Rightarrow>
                 fire_if (f64_le ask_price (ts_threshold st)) (threshold_make_trigger elapsed_ns) st (pl_price ask)))
        | Sell \<Rightarrow>
            (case obs_best_bid snapshot of
               None \<Rightarrow> (None, st)
             | Some bid \<Rightarrow>
            (case parse_f64 (pl_price bid) of
               None \<Rightarrow> (None, st)
             | Some bid_price \<Rightarrow>
                 fire_if (f64_le (ts_threshold st) bid_price) (threshold_make_trigger elapsed_ns) st (pl_price bid))))"

definition threshold_on_trade ::
    "trade_event \<Rightarrow> threshold_strategy \<Rightarrow> trigger_message option \<times> threshold_strategy" where
  "threshold_on_trade trade st = (None, st)"

definition threshold_requirements :: "threshold_strategy \<Rightarrow> strategy_requirements" where
  "threshold_requirements st =
     requirements_trigger [require_polymarket_bbo (ts_token_id st)] SharedFeedAcceptable"

definition threshold_on_update ::
    "u64 \<Rightarrow> strategy_view \<Rightarrow> threshold_strategy \<Rightarrow> trigger_message option \<times> threshold_strategy" where
  "threshold_on_update elapsed_ns view st =
     (case view_snapshot view (ts_token_id st) of
        None \<Rightarrow> (None, st)
      | Some snapshot \<Rightarrow> threshold_on_book_update elapsed_ns snapshot st)"

section \<open>The spread strategy\<close>

record spread_strategy =
  sp_token_id :: string
  sp_side :: side
  sp_max_spread :: f64
  sp_size :: string
  sp_order_type :: order_type
  sp_next_trigger_id :: u64

definition spread_new :: "string \<Rightarrow> side \<Rightarrow> f64 \<Rightarrow> string \<Rightarrow> order_type \<Rightarrow> spread_strategy" where
  "spread_new token s max_spread sz ot =
     \<lparr>sp_token_id = token, sp_side = s, sp_max_spread = max_spread, sp_size = sz, sp_order_type = ot,
      sp_next_trigger_id = 1\<rparr>"

definition spread_make_trigger ::
    "u64 \<Rightarrow> spread_strategy \<Rightarrow> string \<Rightarrow> trigger_message \<times> spread_strategy" where
  "spread_make_trigger elapsed_ns st price =
     (\<lparr>tm_trigger_id = sp_next_trigger_id st, tm_token_id = sp_token_id st, tm_side = sp_side st,
       tm_price = price, tm_size = sp_size st, tm_order_type = sp_order_type st,
       tm_timestamp_ns = elapsed_ns\<rparr>,
      st\<lparr>sp_next_trigger_id := sp_next_trigger_id st + 1\<rparr>)"

definition spread_on_book_update ::
    "u64 \<Rightarrow> order_book_snapshot \<Rightarrow> spread_strategy \<Rightarrow> trigger_message option \<times> spread_strategy" where
  "spread_on_book_update elapsed_ns snapshot st =
     (if obs_asset_id snapshot \<noteq> sp_token_id st then (None, st)
      else
        case (obs_best_bid snapshot, obs_best_ask snapshot) of
          (Some bid, Some ask) \<Rightarrow>
            (case (parse_f64 (pl_price bid), parse_f64 (pl_price ask)) of
               (Some bid_price, Some ask_price) \<Rightarrow>
                 fire_if (f64_less (f64_sub ask_price bid_price) (sp_max_spread st))
                   (spread_make_trigger elapsed_ns) st
                   (case sp_side st of Buy \<Rightarrow> pl_price ask | Sell \<Rightarrow> pl_price bid)
             | _ \<Rightarrow> (None, st))
        | _ \<Rightarrow> (None, st))"

definition spread_on_trade ::
    "trade_event \<Rightarrow> spread_strategy \<Rightarrow> trigger_message option \<times> spread_strategy" where
  "spread_on_trade trade st = (None, st)"

definition spread_requirements :: "spread_strategy \<Rightarrow> strategy_requirements" where
  "spread_requirements st =
     requirements_trigger [require_polymarket_bbo (sp_token_id st)] SharedFeedAcceptable"

definition spread_on_update ::
    "u64 \<Rightarrow> strategy_view \<Rightarrow> spread_strategy \<Rightarrow> trigger_message option \<times> spread_strategy" where
  "spread_on_update elapsed_ns view st =
     (case view_snapshot view (sp_token_id st) of
        None \<Rightarrow> (None, st)
      | Some snapshot \<Rightarrow> spread_on_book_update elapsed_ns snapshot st)"

section \<open>Construction from a configuration\<close>

record strategy_params =
  prm_threshold :: "f64 option"
  prm_max_spread :: "f64 option"

record strategy_config =
  stc_strategy :: string
  stc_token_id :: string
  stc_side :: side
  stc_size :: string
  stc_order_type :: order_type
  stc_params :: strategy_params

text \<open>The boxed trait objects that a configuration builds.\<close>

datatype boxed_strategy = BoxThreshold threshold_strategy | BoxSpread spread_strategy

definition build_strategy :: "strategy_config \<Rightarrow> (string, boxed_strategy) result" where
  "build_strategy c =
     (if stc_strategy c = ''threshold'' then
        bind_result (ok_or ''threshold strategy requires 'threshold' param'' (prm_threshold (stc_params c)))
          (\<lambda>threshold. Inr (BoxThreshold
             (threshold_new (stc_token_id c) (stc_side c) threshold (stc_size c) (stc_order_type c))))
      else if stc_strategy c = ''spread'' then
        bind_result (ok_or ''spread strategy requires 'max_spread' param'' (prm_max_spread (stc_params c)))
          (\<lambda>max_spread. Inr (BoxSpread
             (spread_new (stc_token_id c) (stc_side c) max_spread (stc_size c) (stc_order_type c))))
      else Inl (''unknown strategy: '' @ stc_strategy c))"

text \<open>\<open>build_trigger_strategy\<close> repeats the body under the other trait.\<close>

definition build_trigger_strategy :: "strategy_config \<Rightarrow> (string, boxed_strategy) result" where
  "build_trigger_strategy c =
     (if stc_strategy c = ''threshold'' then
        bind_result (ok_or ''threshold strategy requires 'threshold' param'' (prm_threshold (stc_params c)))
          (\<lambda>threshold. Inr (BoxThreshold
             (threshold_new (stc_token_id c) (stc_side c) threshold (stc_size c) (stc_order_type c))))
      else if stc_strategy c = ''spread'' then
        bind_result (ok_or ''spread strategy requires 'max_spread' param'' (prm_max_spread (stc_params c)))
          (\<lambda>max_spread. Inr (BoxSpread
             (spread_new (stc_token_id c) (stc_side c) max_spread (stc_size c) (stc_order_type c))))
      else Inl (''unknown strategy: '' @ stc_strategy c))"

definition boxed_result :: "('s \<Rightarrow> boxed_strategy) \<Rightarrow> 'r \<times> 's \<Rightarrow> 'r \<times> boxed_strategy" where
  "boxed_result f r = (fst r, f (snd r))"

fun boxed_on_book_update ::
    "u64 \<Rightarrow> order_book_snapshot \<Rightarrow> boxed_strategy \<Rightarrow> trigger_message option \<times> boxed_strategy" where
  "boxed_on_book_update t snapshot (BoxThreshold s) =
     boxed_result BoxThreshold (threshold_on_book_update t snapshot s)"
| "boxed_on_book_update t snapshot (BoxSpread s) =
     boxed_result BoxSpread (spread_on_book_update t snapshot s)"

fun boxed_on_update ::
    "u64 \<Rightarrow> strategy_view \<Rightarrow> boxed_strategy \<Rightarrow> trigger_message option \<times> boxed_strategy" where
  "boxed_on_update t view (BoxThreshold s) = boxed_result BoxThreshold (threshold_on_update t view s)"
| "boxed_on_update t view (BoxSpread s) = boxed_result BoxSpread (spread_on_update t view s)"

fun boxed_requirements :: "boxed_strategy \<Rightarrow> strategy_requirements" where
  "boxed_requirements (BoxThreshold s) = threshold_requirements s"
| "boxed_requirements (BoxSpread s) = spread_requirements s"

fun boxed_token :: "boxed_strategy \<Rightarrow> string" where
  "boxed_token (BoxThreshold s) = ts_token_id s"
| "boxed_token (BoxSpread s) = sp_token_id s"

fun boxed_next_id :: "boxed_strategy \<Rightarrow> u64" where
  "boxed_next_id (BoxThreshold s) = ts_next_trigger_id s"
| "boxed_next_id (BoxSpread s) = sp_next_trigger_id s"

section \<open>The runner\<close>

text \<open>
  \<open>StrategyRunner::run\<close> over the snapshots it receives, each with the time of its call and whether the
  trigger channel is then open: it stops at the first trigger that cannot be sent.
\<close>

fun runner_run ::
    "(u64 \<Rightarrow> order_book_snapshot \<Rightarrow> 's \<Rightarrow> trigger_message option \<times> 's)
      \<Rightarrow> (u64 \<times> order_book_snapshot \<times> bool) list \<Rightarrow> 's \<Rightarrow> trigger_message list \<times> 's" where
  "runner_run on_book [] st = ([], st)"
| "runner_run on_book ((t, snapshot, opened) # rest) st =
     (case on_book t snapshot st of
        (None, st) \<Rightarrow> runner_run on_book rest st
      | (Some trigger, st) \<Rightarrow>
          if opened then (case runner_run on_book rest st of (ts, st) \<Rightarrow> (trigger # ts, st))
          else ([], st))"

section \<open>The contract of a strategy\<close>

text \<open>
  A strategy watches one token: it neither fires nor changes on snapshots of other assets, changes only when
  it fires, and numbers its triggers one after the other.
\<close>

definition quotes_price :: "order_book_snapshot \<Rightarrow> string \<Rightarrow> bool" where
  "quotes_price snapshot price \<longleftrightarrow>
     price \<in> pl_price ` (set_option (obs_best_bid snapshot) \<union> set_option (obs_best_ask snapshot))"

locale book_strategy =
  fixes on_book :: "u64 \<Rightarrow> order_book_snapshot \<Rightarrow> 's \<Rightarrow> trigger_message option \<times> 's"
    and token :: "'s \<Rightarrow> string"
    and next_id :: "'s \<Rightarrow> u64"
  assumes other_asset: "obs_asset_id snapshot \<noteq> token st \<Longrightarrow> on_book t snapshot st = (None, st)"
    and silent: "on_book t snapshot st = (None, st') \<Longrightarrow> st' = st"
    and fires: "on_book t snapshot st = (Some tr, st') \<Longrightarrow>
      tm_trigger_id tr = next_id st \<and> tm_token_id tr = token st \<and> quotes_price snapshot (tm_price tr)
      \<and> tm_timestamp_ns tr = t \<and> next_id st' = next_id st + 1 \<and> token st' = token st"
begin

lemma token_kept: "on_book t snapshot st = (r, st') \<Longrightarrow> token st' = token st"
  using silent fires by (cases r) blast+

lemma fires_asset: "on_book t snapshot st = (Some tr, st') \<Longrightarrow> obs_asset_id snapshot = token st"
  using other_asset by fastforce

text \<open>A trigger of a run comes from a snapshot of the token, at one of its best prices.\<close>

definition accounted :: "(u64 \<times> order_book_snapshot \<times> bool) list \<Rightarrow> string \<Rightarrow> trigger_message \<Rightarrow> bool" where
  "accounted xs tok tr \<longleftrightarrow> tm_token_id tr = tok \<and>
     (\<exists>snapshot. (tm_timestamp_ns tr, snapshot, True) \<in> set xs \<and> obs_asset_id snapshot = tok
        \<and> quotes_price snapshot (tm_price tr))"

lemma accounted_more: "accounted xs tok tr \<Longrightarrow> accounted (x # xs) tok tr"
  by (auto simp: accounted_def)

lemma number_from:
  "n # map (\<lambda>i. n + of_nat (Suc i)) [0..<k] = map (\<lambda>i. n + of_nat i :: u64) [0..<Suc k]"
  by (simp add: upt_rec [of 0 "Suc k"] map_Suc_upt [symmetric] comp_def del: upt_Suc)

lemma runner_triggers:
  "runner_run on_book xs st = (ts, st') \<Longrightarrow>
     map tm_trigger_id ts = map (\<lambda>i. next_id st + of_nat i) [0..<length ts]
   \<and> (\<forall>tr \<in> set ts. accounted xs (token st) tr)"
proof (induction xs arbitrary: st ts)
  case (Cons x xs)
  obtain t snapshot b where x: "x = (t, snapshot, b)" by (cases x)
  obtain r st1 where r: "on_book t snapshot st = (r, st1)" by force
  show ?case
  proof (cases r)
    case None
    with r have "st1 = st" using silent by blast
    then have "runner_run on_book xs st = (ts, st')" using Cons.prems r None by (simp add: x)
    from Cons.IH [OF this] accounted_more show ?thesis by blast
  next
    case (Some tr)
    note f = fires [OF r [unfolded Some]] fires_asset [OF r [unfolded Some]]
    show ?thesis
    proof (cases b)
      case False
      then show ?thesis using Cons.prems Some r by (simp add: x)
    next
      case True
      then obtain us where us: "runner_run on_book xs st1 = (us, st')" "ts = tr # us"
        using Cons.prems Some r by (auto simp: x split: prod.splits)
      note IH = Cons.IH [OF us(1)]
      have "map tm_trigger_id us = map (\<lambda>i. next_id st + of_nat (Suc i)) [0..<length us]"
        using IH f by (simp add: add.assoc)
      then have ids: "map tm_trigger_id ts = map (\<lambda>i. next_id st + of_nat i) [0..<length ts]"
        using f unfolding us(2) by (simp only: number_from list.map length_Cons)
      have "accounted (x # xs) (token st) tr"
        unfolding accounted_def x using f True by auto
      moreover have "accounted (x # xs) (token st) u" if "u \<in> set us" for u
        using IH that f accounted_more by metis
      ultimately show ?thesis using ids by (simp only: us(2) list.set ball_simps) blast
    qed
  qed
qed simp

text \<open>Snapshots of other assets do not matter to a run.\<close>

lemma runner_other_assets:
  "runner_run on_book xs st = runner_run on_book (filter (\<lambda>(t, s, b). obs_asset_id s = token st) xs) st"
proof (induction xs arbitrary: st)
  case (Cons x xs)
  obtain t snapshot b where x: "x = (t, snapshot, b)" by (cases x)
  show ?case
  proof (cases "obs_asset_id snapshot = token st")
    case True
    obtain r st1 where r: "on_book t snapshot st = (r, st1)" by force
    have "token st1 = token st" using token_kept [OF r] .
    then show ?thesis using Cons.IH [of st1] True by (simp add: x r split: option.split)
  next
    case False
    then show ?thesis using Cons.IH [of st] by (simp add: x other_asset)
  qed
qed simp

end

text \<open>A trigger strategy sees its token through a view and asks for the token's best prices.\<close>

locale trigger_strategy = book_strategy on_book token next_id
  for on_book :: "u64 \<Rightarrow> order_book_snapshot \<Rightarrow> 's \<Rightarrow> trigger_message option \<times> 's"
    and token :: "'s \<Rightarrow> string"
    and next_id :: "'s \<Rightarrow> u64" +
  fixes on_update :: "u64 \<Rightarrow> strategy_view \<Rightarrow> 's \<Rightarrow> trigger_message option \<times> 's"
    and requirements :: "'s \<Rightarrow> strategy_requirements"
  assumes on_update: "on_update t view st =
      (case view_snapshot view (token st) of None \<Rightarrow> (None, st) | Some snapshot \<Rightarrow> on_book t snapshot st)"
    and requirements: "requirements st =
      requirements_trigger [require_polymarket_bbo (token st)] SharedFeedAcceptable"

section \<open>Both strategies keep the contract\<close>

lemma fire_if_eq: "fire_if b mk st price = (if b then apfst Some (mk st price) else (None, st))"
  by (simp add: fire_if_def split: prod.split)

interpretation threshold: trigger_strategy threshold_on_book_update ts_token_id ts_next_trigger_id
  threshold_on_update threshold_requirements
proof unfold_locales
  fix t snapshot st tr st'
  show "threshold_on_book_update t snapshot st = (None, st') \<Longrightarrow> st' = st"
    by (auto simp: threshold_on_book_update_def fire_if_eq threshold_make_trigger_def
        split: if_splits side.splits option.splits)
  show "threshold_on_book_update t snapshot st = (Some tr, st') \<Longrightarrow>
      tm_trigger_id tr = ts_next_trigger_id st \<and> tm_token_id tr = ts_token_id st
      \<and> quotes_price snapshot (tm_price tr) \<and> tm_timestamp_ns tr = t
      \<and> ts_next_trigger_id st' = ts_next_trigger_id st + 1 \<and> ts_token_id st' = ts_token_id st"
    by (auto simp: threshold_on_book_update_def fire_if_eq threshold_make_trigger_def quotes_price_def
        split: if_splits side.splits option.splits)
qed (simp_all add: threshold_on_book_update_def threshold_on_update_def threshold_requirements_def)

interpretation spread: trigger_strategy spread_on_book_update sp_token_id sp_next_trigger_id
  spread_on_update spread_requirements
proof unfold_locales
  fix t snapshot st tr st'
  show "spread_on_book_update t snapshot st = (None, st') \<Longrightarrow> st' = st"
    by (auto simp: spread_on_book_update_def fire_if_eq spread_make_trigger_def
        split: if_splits side.splits option.splits)
  show "spread_on_book_update t snapshot st = (Some tr, st') \<Longrightarrow>
      tm_trigger_id tr = sp_next_trigger_id st \<and> tm_token_id tr = sp_token_id st
      \<and> quotes_price snapshot (tm_price tr) \<and> tm_timestamp_ns tr = t
      \<and> sp_next_trigger_id st' = sp_next_trigger_id st + 1 \<and> sp_token_id st' = sp_token_id st"
    by (auto simp: spread_on_book_update_def fire_if_eq spread_make_trigger_def quotes_price_def
        split: if_splits side.splits option.splits)
qed (simp_all add: spread_on_book_update_def spread_on_update_def spread_requirements_def)

lemma boxed_result_iff:
  "boxed_result f r = (x, b) \<longleftrightarrow> (\<exists>s. r = (x, s) \<and> b = f s)"
  by (cases r) (auto simp: boxed_result_def)

interpretation boxed: trigger_strategy boxed_on_book_update boxed_token boxed_next_id
  boxed_on_update boxed_requirements
proof unfold_locales
  fix t snapshot st tr st' view
  show "obs_asset_id snapshot \<noteq> boxed_token st \<Longrightarrow> boxed_on_book_update t snapshot st = (None, st)"
    by (cases st) (simp_all add: boxed_result_iff threshold.other_asset spread.other_asset)
  show "boxed_on_book_update t snapshot st = (None, st') \<Longrightarrow> st' = st"
    by (cases st) (auto simp: boxed_result_iff dest: threshold.silent spread.silent)
  show "boxed_on_book_update t snapshot st = (Some tr, st') \<Longrightarrow>
      tm_trigger_id tr = boxed_next_id st \<and> tm_token_id tr = boxed_token st
      \<and> quotes_price snapshot (tm_price tr) \<and> tm_timestamp_ns tr = t
      \<and> boxed_next_id st' = boxed_next_id st + 1 \<and> boxed_token st' = boxed_token st"
    by (cases st) (auto simp: boxed_result_iff dest: threshold.fires spread.fires)
  show "boxed_on_update t view st =
      (case view_snapshot view (boxed_token st) of None \<Rightarrow> (None, st)
       | Some snapshot \<Rightarrow> boxed_on_book_update t snapshot st)"
    by (cases st) (simp_all add: threshold.on_update spread.on_update boxed_result_def split: option.split)
  show "boxed_requirements st = requirements_trigger [require_polymarket_bbo (boxed_token st)] SharedFeedAcceptable"
    by (cases st) (simp_all add: threshold.requirements spread.requirements)
qed

section \<open>When the strategies fire\<close>

text \<open>
  A runner numbers the triggers of a configured strategy consecutively, and each of them is for the configured
  token, from a received snapshot of that token at one of its best prices, stamped with the time of its call.
\<close>

theorem runner_accounts_for_triggers:
  assumes "build_strategy c = Inr st" "runner_run boxed_on_book_update xs st = (ts, st')"
  shows "map tm_trigger_id ts = map (\<lambda>i. 1 + of_nat i) [0..<length ts]
    \<and> (\<forall>tr \<in> set ts. tm_token_id tr = stc_token_id c
        \<and> (\<exists>snapshot. (tm_timestamp_ns tr, snapshot, True) \<in> set xs
            \<and> obs_asset_id snapshot = stc_token_id c
            \<and> tm_price tr \<in> pl_price `
                (set_option (obs_best_bid snapshot) \<union> set_option (obs_best_ask snapshot))))"
proof -
  have "boxed_next_id st = 1 \<and> boxed_token st = stc_token_id c"
    using assms(1)
    by (auto simp: build_strategy_def result_facts threshold_new_def spread_new_def split: if_splits)
  then show ?thesis
    using boxed.runner_triggers [OF assms(2)] by (simp add: boxed.accounted_def quotes_price_def)
qed

definition sample_book :: "string \<Rightarrow> string \<Rightarrow> order_book_snapshot" where
  "sample_book bid ask =
     \<lparr>obs_asset_id = ''42'', obs_best_bid = Some \<lparr>pl_price = bid, pl_size = ''1''\<rparr>,
      obs_best_ask = Some \<lparr>pl_price = ask, pl_size = ''1''\<rparr>, obs_timestamp_ms = 0, obs_hash = []\<rparr>"

text \<open>
  C31. With the threshold and the prices written in decimals, as multiples of \<open>10^-k\<close> of at most 15 digits, the threshold
  strategy fires exactly when the ask of its token is at or below the threshold (a buy) or the bid at or above
  it (a sell), and then at that price: the rounding of the numbers never decides.
\<close>

theorem threshold_exact:
  assumes "parse_f64 text = Some (ts_threshold st)" "decimal_value text = Some (real j / 10 ^ k)"
    and "(case ts_side st of Buy \<Rightarrow> obs_best_ask snapshot | Sell \<Rightarrow> obs_best_bid snapshot) = Some level"
    and "decimal_value (pl_price level) = Some (real i / 10 ^ k)"
    and "i \<le> 10 ^ 15" "j \<le> 10 ^ 15" "k \<le> 15" "obs_asset_id snapshot = ts_token_id st"
  shows "fst (threshold_on_book_update t snapshot st) =
    (if (case ts_side st of Buy \<Rightarrow> i \<le> j | Sell \<Rightarrow> j \<le> i)
     then Some (fst (threshold_make_trigger t st (pl_price level))) else None)"
proof (rule decimal_le_iff [OF assms(4,2) assms(5-7)])
  fix x y
  assume x: "parse_f64 (pl_price level) = Some x" and y: "parse_f64 text = Some y"
    and le: "f64_le x y \<longleftrightarrow> i \<le> j" "f64_le y x \<longleftrightarrow> j \<le> i"
  then show ?thesis
    using assms(1,3,8)
    by (cases "ts_side st") (simp_all add: threshold_on_book_update_def fire_if_eq)
qed

theorem threshold_exact_witness:
  "fst (threshold_on_book_update 7 (sample_book ''0.44'' ''0.45'')
      (threshold_new ''42'' Buy (round_ratio False 45 100) ''10'' FOK)) \<noteq> None
   \<and> fst (threshold_on_book_update 7 (sample_book ''0.44'' ''0.46'')
      (threshold_new ''42'' Buy (round_ratio False 45 100) ''10'' FOK)) = None"
proof -
  have p: "parse_f64 ''0.45'' = Some (round_ratio False 45 100)" by (simp add: parse_eval)
  have d: "decimal_value ''0.45'' = Some (real 45 / 10 ^ 2)" "decimal_value ''0.46'' = Some (real 46 / 10 ^ 2)"
    by (simp_all add: decimal_value_def parse_eval powi_ten_split)
  let ?st = "threshold_new ''42'' Buy (round_ratio False 45 100) ''10'' FOK"
  show ?thesis
    using threshold_exact [of "''0.45''" ?st 45 2 "sample_book ''0.44'' ''0.45''" _ 45 7]
      threshold_exact [of "''0.45''" ?st 45 2 "sample_book ''0.44'' ''0.46''" _ 46 7] p d
    by (simp add: threshold_new_def sample_book_def)
qed

text \<open>
  With the limit and the prices multiples of \<open>10^-k\<close> up to 1, of at most 12 decimals, the spread strategy fires exactly
  when the spread is below the limit, whatever the rounding of prices and spread, except when the spread is the
  limit itself. A crossed book has a negative spread and fires.
\<close>

theorem spread_exact_off_limit:
  assumes "parse_f64 text = Some (sp_max_spread st)" "decimal_value text = Some (real l / 10 ^ k)"
    and "obs_best_bid snapshot = Some bid" "obs_best_ask snapshot = Some ask"
    and "decimal_value (pl_price ask) = Some (real i / 10 ^ k)"
    and "decimal_value (pl_price bid) = Some (real j / 10 ^ k)"
    and "i \<le> 10 ^ k" "j \<le> 10 ^ k" "l \<le> 10 ^ k" "k \<le> 12" "int i - int j \<noteq> int l"
    and "obs_asset_id snapshot = sp_token_id st"
  shows "fst (spread_on_book_update t snapshot st) =
    (if int i - int j < int l
     then Some (fst (spread_make_trigger t st (case sp_side st of Buy \<Rightarrow> pl_price ask | Sell \<Rightarrow> pl_price bid)))
     else None)"
proof (rule decimal_difference_less [OF assms(5,6,2) assms(7-11)])
  fix x y z
  assume "parse_f64 (pl_price ask) = Some x" "parse_f64 (pl_price bid) = Some y" "parse_f64 text = Some z"
    "f64_less (f64_sub x y) z \<longleftrightarrow> int i - int j < int l"
  then show ?thesis
    using assms(1,3,4,12) by (simp add: spread_on_book_update_def fire_if_eq)
qed

theorem spread_exact_off_limit_witness:
  "fst (spread_on_book_update 7 (sample_book ''0.45'' ''0.49'')
      (spread_new ''42'' Buy (round_ratio False 5 100) ''10'' FOK)) \<noteq> None"
proof -
  have p: "parse_f64 ''0.05'' = Some (round_ratio False 5 100)" by (simp add: parse_eval)
  have d: "decimal_value ''0.05'' = Some (real 5 / 10 ^ 2)" "decimal_value ''0.49'' = Some (real 49 / 10 ^ 2)"
    "decimal_value ''0.45'' = Some (real 45 / 10 ^ 2)"
    by (simp_all add: decimal_value_def parse_eval powi_ten_split)
  show ?thesis
    using spread_exact_off_limit [of "''0.05''" "spread_new ''42'' Buy (round_ratio False 5 100) ''10'' FOK" 5 2
        "sample_book ''0.45'' ''0.49''" _ _ 49 45 7] p d
    by (simp add: spread_new_def sample_book_def)
qed

text \<open>
  At the limit the rounding decides: with the limit 0.05 the strategy fires on 0.45 to 0.5 and not on 0.5 to 0.55.
\<close>

lemma spread_at_limit:
  "fst (spread_on_book_update t (sample_book ''0.45'' ''0.5'')
      (spread_new ''42'' Buy (round_ratio False 5 100) ''10'' FOK)) \<noteq> None
   \<and> fst (spread_on_book_update t (sample_book ''0.5'' ''0.55'')
      (spread_new ''42'' Buy (round_ratio False 5 100) ''10'' FOK)) = None"
proof -
  have p: "parse_f64 ''0.45'' = Some (round_ratio False 45 100)" "parse_f64 ''0.5'' = Some (round_ratio False 5 10)"
    "parse_f64 ''0.55'' = Some (round_ratio False 55 100)"
    by (simp_all add: parse_eval)
  have r: "round_ratio False 45 100 = Finite False 8106479329266893 (- 54)"
    "round_ratio False 5 10 = Finite False 4503599627370496 (- 53)"
    "round_ratio False 55 100 = Finite False 4953959590107546 (- 53)"
    "round_ratio False 5 100 = Finite False 7205759403792794 (- 57)"
    by (simp_all add: round_eval)
  have "f64_sub (round_ratio False 5 10) (round_ratio False 45 100) = round_ratio False 900719925474099 (2 ^ 54)"
    "f64_sub (round_ratio False 55 100) (round_ratio False 5 10) = round_ratio False 450359962737050 (2 ^ 53)"
    by (simp_all add: r f64_sub_def signed_units_def Let_def)
  moreover have "round_ratio False 900719925474099 (2 ^ 54) = Finite False 7205759403792792 (- 57)"
    "round_ratio False 450359962737050 (2 ^ 53) = Finite False 7205759403792800 (- 57)"
    by (simp_all add: round_eval)
  ultimately have "f64_less (f64_sub (round_ratio False 5 10) (round_ratio False 45 100)) (round_ratio False 5 100)"
    "\<not> f64_less (f64_sub (round_ratio False 55 100) (round_ratio False 5 10)) (round_ratio False 5 100)"
    unfolding r(4) by (simp_all add: signed_units_def)
  then show ?thesis
    by (simp add: spread_on_book_update_def spread_new_def sample_book_def p fire_if_eq)
qed

theorem runner_accounts_for_triggers_witness:
  "map tm_trigger_id (fst (runner_run boxed_on_book_update [(7, sample_book ''0.45'' ''0.5'', True)]
     (BoxSpread (spread_new ''42'' Buy (round_ratio False 5 100) ''10'' FOK)))) = [1]"
proof -
  let ?st = "BoxSpread (spread_new ''42'' Buy (round_ratio False 5 100) ''10'' FOK)"
  let ?xs = "[(7, sample_book ''0.45'' ''0.5'', True)]"
  obtain tr where "fst (spread_on_book_update 7 (sample_book ''0.45'' ''0.5'')
      (spread_new ''42'' Buy (round_ratio False 5 100) ''10'' FOK)) = Some tr"
    using spread_at_limit [of 7] by blast
  then obtain st' where r: "runner_run boxed_on_book_update ?xs ?st = ([tr], st')"
    by (cases "spread_on_book_update 7 (sample_book ''0.45'' ''0.5'')
      (spread_new ''42'' Buy (round_ratio False 5 100) ''10'' FOK)") (simp add: boxed_result_def)
  have "build_strategy \<lparr>stc_strategy = ''spread'', stc_token_id = ''42'', stc_side = Buy, stc_size = ''10'',
      stc_order_type = FOK, stc_params = \<lparr>prm_threshold = None, prm_max_spread = Some (round_ratio False 5 100)\<rparr>\<rparr>
    = Inr ?st"
    by (simp add: build_strategy_def ok_or_def)
  from runner_accounts_for_triggers [OF this r] r show ?thesis by simp
qed

end
