(* ===== verification/Runtime.thy ===== *)
theory Runtime
  imports Strategy Quote OrdMap
begin

text \<open>
  Strategy runtimes and replays (\<open>pm-strategy\<close>: \<open>runtime.rs\<close>, \<open>backtest.rs\<close>): the topology provisioned for a
  strategy's requirements, the view resolved from a notice, the inventory, the three runtimes and the replays.
  The hot state store is shared with its writer, so its content is an argument of every call. A channel is the
  list of what is received from it, each item with the world at its receipt and whether the output is then open.
\<close>

section \<open>Topology\<close>

datatype provisioned_topology = TopologyShared | TopologyDedicated

record provisioned_input =
  pvi_requirement :: data_requirement
  pvi_source_id :: source_id
  pvi_source_kind :: source_kind
  pvi_subject :: instrument_ref
  pvi_topology :: provisioned_topology
  pvi_instance_key :: string

record topology_plan =
  tp_execution_mode :: execution_mode
  tp_isolation_policy :: isolation_policy
  tp_inputs :: "provisioned_input list"

fun default_source_id :: "requirement_kind \<Rightarrow> source_id" where
  "default_source_id PolymarketBbo = ''polymarket-public''"
| "default_source_id (PolymarketDepthTopN n) = ''polymarket-public''"
| "default_source_id RewardMetadata = ''polymarket-public''"
| "default_source_id ExternalReferencePrice = ''external-reference''"
| "default_source_id RecentTrades = ''external-trades''"
| "default_source_id Inventory = ''strategy-runtime''"
| "default_source_id LiveOrderState = ''strategy-runtime''"

fun default_source_kind :: "requirement_kind \<Rightarrow> source_kind" where
  "default_source_kind PolymarketBbo = PolymarketWs"
| "default_source_kind (PolymarketDepthTopN n) = PolymarketWs"
| "default_source_kind RewardMetadata = PolymarketWs"
| "default_source_kind ExternalReferencePrice = ExternalReference"
| "default_source_kind RecentTrades = ExternalTrade"
| "default_source_kind Inventory = Synthetic"
| "default_source_kind LiveOrderState = Synthetic"

definition provision_source :: "data_requirement \<Rightarrow> source_id \<times> source_kind" where
  "provision_source r =
     (case dr_selector r of
        SelSource s \<Rightarrow> s
      | SelAsset _ \<Rightarrow> default_source_id (dr_kind r)
      | SelMarket _ \<Rightarrow> default_source_id (dr_kind r)
      | SelSymbol _ \<Rightarrow> default_source_id (dr_kind r),
      default_source_kind (dr_kind r))"

definition provision_subject :: "data_requirement \<Rightarrow> source_id \<Rightarrow> instrument_ref" where
  "provision_subject r source =
     (case dr_selector r of
        SelAsset a \<Rightarrow> instrument_asset source a
      | SelMarket m \<Rightarrow> instrument_market source m
      | SelSymbol s \<Rightarrow> instrument_symbol source s
      | SelSource _ \<Rightarrow> instrument_source source)"

definition provision_input :: "provisioned_topology \<Rightarrow> nat \<Rightarrow> data_requirement \<Rightarrow> provisioned_input" where
  "provision_input topology index requirement =
     (let (source, kind) = provision_source requirement;
          subject = provision_subject requirement source;
          key = (case topology of
                   TopologyShared \<Rightarrow> ''shared:'' @ source
                 | TopologyDedicated \<Rightarrow> ''dedicated:'' @ source @ '':'' @ show_nat index)
      in \<lparr>pvi_requirement = requirement, pvi_source_id = source, pvi_source_kind = kind,
          pvi_subject = subject, pvi_topology = topology, pvi_instance_key = key\<rparr>)"

definition topology_from_requirements :: "strategy_requirements \<Rightarrow> topology_plan" where
  "topology_from_requirements r =
     (let topology = (case sr_isolation_policy r of
                        SharedFeedAcceptable \<Rightarrow> TopologyShared
                      | DedicatedPreferred \<Rightarrow> TopologyDedicated
                      | DedicatedRequired \<Rightarrow> TopologyDedicated)
      in \<lparr>tp_execution_mode = sr_execution_mode r, tp_isolation_policy = sr_isolation_policy r,
          tp_inputs = map (\<lambda>(i, d). provision_input topology i d) (enumerate 0 (sr_data r))\<rparr>)"

section \<open>Inventory\<close>

definition runtime_parse_units :: "string \<Rightarrow> u64" where
  "runtime_parse_units value =
     (let parts = split_on CHR ''.'' value;
          whole = unwrap_or 0 (parse_uint (hd parts) :: u64 option);
          frac = (case tl parts of [] \<Rightarrow> [] | f # _ \<Rightarrow> f);
          frac_buf = take 6 frac @ replicate (6 - length (take 6 frac)) CHR ''0'';
          frac_units = unwrap_or 0 (parse_uint frac_buf :: u64 option)
      in saturating_add (saturating_mul whole 1000000) frac_units)"

definition runtime_format_units :: "u64 \<Rightarrow> string" where
  "runtime_format_units units =
     show_word (units div 1000000) @ ''.'' @ pad_left 6 (show_word (units mod 1000000))"

definition format_units_trimmed :: "u64 \<Rightarrow> string" where
  "format_units_trimmed units =
     (let trimmed = trim_end_dots (trim_end_zeros (runtime_format_units units))
      in if trimmed = [] then ''0'' else trimmed)"

definition side_debug :: "side \<Rightarrow> string" where
  "side_debug s = (case s of Buy \<Rightarrow> ''Buy'' | Sell \<Rightarrow> ''Sell'')"

definition inventory_key :: "string \<Rightarrow> side \<Rightarrow> string" where
  "inventory_key asset s = asset @ '':'' @ side_debug s"

type_synonym inventory_store = "(string, inventory_position) btree"

definition inventory_apply_delta :: "inventory_store \<Rightarrow> inventory_delta \<Rightarrow> inventory_store" where
  "inventory_apply_delta positions delta =
     (let key = inventory_key (id_asset_id delta) (id_side delta);
          entry = unwrap_or
            \<lparr>ip_asset_id = id_asset_id delta, ip_side = id_side delta, ip_filled_size = ''0'',
             ip_net_notional = ''0'', ip_updated_at_ms = id_observed_at_ms delta\<rparr>
            (bt_get positions key)
      in bt_insert key
           (entry\<lparr>ip_filled_size := format_units_trimmed
                    (saturating_add (runtime_parse_units (ip_filled_size entry))
                       (runtime_parse_units (id_filled_size_delta delta))),
                  ip_net_notional := format_units_trimmed
                    (saturating_add (runtime_parse_units (ip_net_notional entry))
                       (runtime_parse_units (id_notional_delta delta))),
                  ip_updated_at_ms := id_observed_at_ms delta\<rparr>) positions)"

definition positions_for :: "inventory_store \<Rightarrow> provisioned_input \<Rightarrow> inventory_position list" where
  "positions_for positions input =
     filter (\<lambda>p. case dr_selector (pvi_requirement input) of
         SelAsset a \<Rightarrow> ip_asset_id p = a
       | SelSource _ \<Rightarrow> True
       | SelMarket _ \<Rightarrow> False
       | SelSymbol _ \<Rightarrow> False) (map snd positions)"

section \<open>The scaffold\<close>

record runtime_scaffold =
  rsc_topology :: topology_plan
  rsc_seen_subjects :: "string set"
  rsc_inventory :: inventory_store

definition scaffold_new :: "strategy_requirements \<Rightarrow> runtime_scaffold" where
  "scaffold_new r =
     \<lparr>rsc_topology = topology_from_requirements r, rsc_seen_subjects = {}, rsc_inventory = []\<rparr>"

definition subject_key :: "instrument_ref \<Rightarrow> string" where
  "subject_key r =
     ir_source_id r @ '':'' @ instrument_kind_debug (ir_kind r) @ '':'' @ ir_instrument_id r"

definition push_unique_book :: "hot_book_state list \<Rightarrow> hot_book_state \<Rightarrow> hot_book_state list" where
  "push_unique_book books book =
     (if list_ex (\<lambda>b. un_source_id (hb_notice b) = un_source_id (hb_notice book)
            \<and> hb_asset_id b = hb_asset_id book) books
      then books else books @ [book])"

definition push_unique_reference ::
    "hot_reference_state list \<Rightarrow> hot_reference_state \<Rightarrow> hot_reference_state list" where
  "push_unique_reference refs r =
     (if list_ex (\<lambda>x. un_source_id (hr_notice x) = un_source_id (hr_notice r)
            \<and> ir_instrument_id (un_subject (hr_notice x)) = ir_instrument_id (un_subject (hr_notice r))) refs
      then refs else refs @ [r])"

definition push_unique_inventory ::
    "inventory_position list \<Rightarrow> inventory_position \<Rightarrow> inventory_position list" where
  "push_unique_inventory held p =
     (if list_ex (\<lambda>x. ip_asset_id x = ip_asset_id p \<and> ip_side x = ip_side p) held
      then held else held @ [p])"

definition is_relevant_notice :: "runtime_scaffold \<Rightarrow> update_notice \<Rightarrow> bool" where
  "is_relevant_notice sc notice =
     list_ex (\<lambda>i. pvi_subject i = un_subject notice) (tp_inputs (rsc_topology sc))"

definition resolve_book ::
    "hot_state_store \<Rightarrow> runtime_scaffold \<Rightarrow> provisioned_input \<Rightarrow> update_notice \<Rightarrow> hot_state_view option
      \<Rightarrow> hot_book_state option" where
  "resolve_book store sc input notice resolved =
     (if pvi_subject input = un_subject notice then
        (case resolved of Some (ViewBook b) \<Rightarrow> Some b | _ \<Rightarrow> None)
      else if subject_key (pvi_subject input) \<notin> rsc_seen_subjects sc then None
      else book_state store (ir_source_id (pvi_subject input)) (ir_instrument_id (pvi_subject input)))"

definition resolve_reference ::
    "hot_state_store \<Rightarrow> runtime_scaffold \<Rightarrow> provisioned_input \<Rightarrow> update_notice \<Rightarrow> hot_state_view option
      \<Rightarrow> hot_reference_state option" where
  "resolve_reference store sc input notice resolved =
     (if pvi_subject input = un_subject notice then
        (case resolved of Some (ViewReference r) \<Rightarrow> Some r | _ \<Rightarrow> None)
      else if subject_key (pvi_subject input) \<notin> rsc_seen_subjects sc then None
      else reference_state store (pvi_subject input))"

definition resolve_inventory :: "runtime_scaffold \<Rightarrow> provisioned_input \<Rightarrow> inventory_position list" where
  "resolve_inventory sc input = positions_for (rsc_inventory sc) input"

text \<open>One iteration of the loop over the inputs, on the three lists of the view.\<close>

definition resolve_input ::
    "hot_state_store \<Rightarrow> runtime_scaffold \<Rightarrow> update_notice \<Rightarrow> hot_state_view option \<Rightarrow> provisioned_input
      \<Rightarrow> hot_book_state list \<times> hot_reference_state list \<times> inventory_position list
      \<Rightarrow> hot_book_state list \<times> hot_reference_state list \<times> inventory_position list" where
  "resolve_input store sc notice resolved input acc =
     (case acc of (books, refs, held) \<Rightarrow>
        (let book_case =
               (case resolve_book store sc input notice resolved of
                  None \<Rightarrow> (books, refs, held)
                | Some b \<Rightarrow> (push_unique_book books b, refs, held));
             reference_case =
               (case resolve_reference store sc input notice resolved of
                  None \<Rightarrow> (books, refs, held)
                | Some r \<Rightarrow> (books, push_unique_reference refs r, held));
             inventory_case =
               (books, refs, foldl push_unique_inventory held (resolve_inventory sc input))
         in case dr_kind (pvi_requirement input) of
              PolymarketBbo \<Rightarrow> book_case
            | PolymarketDepthTopN _ \<Rightarrow> book_case
            | RewardMetadata \<Rightarrow> book_case
            | ExternalReferencePrice \<Rightarrow> reference_case
            | RecentTrades \<Rightarrow> reference_case
            | Inventory \<Rightarrow> inventory_case
            | LiveOrderState \<Rightarrow> inventory_case))"

definition resolve_view ::
    "hot_state_store \<Rightarrow> update_notice \<Rightarrow> runtime_scaffold \<Rightarrow> strategy_view option \<times> runtime_scaffold" where
  "resolve_view store notice sc =
     (if \<not> is_relevant_notice sc notice then (None, sc)
      else
        let resolved = resolve_notice store notice;
            (books, refs, held) =
              fold (resolve_input store sc notice resolved) (tp_inputs (rsc_topology sc)) ([], [], [])
        in (Some \<lparr>sv_notice = notice, sv_books = books, sv_references = refs, sv_inventory = held\<rparr>,
            sc\<lparr>rsc_seen_subjects := insert (subject_key (un_subject notice)) (rsc_seen_subjects sc)\<rparr>))"

definition apply_inventory_delta :: "inventory_delta \<Rightarrow> runtime_scaffold \<Rightarrow> runtime_scaffold" where
  "apply_inventory_delta delta sc = sc\<lparr>rsc_inventory := inventory_apply_delta (rsc_inventory sc) delta\<rparr>"

section \<open>The runtimes\<close>

text \<open>The notice-driven runtime hands the projected snapshot to a \<open>Strategy\<close>.\<close>

definition notice_resolve_snapshot :: "hot_state_store \<Rightarrow> update_notice \<Rightarrow> order_book_snapshot option" where
  "notice_resolve_snapshot store notice = project_snapshot store notice"

definition notice_handle ::
    "(u64 \<Rightarrow> order_book_snapshot \<Rightarrow> 's \<Rightarrow> trigger_message option \<times> 's)
      \<Rightarrow> u64 \<Rightarrow> hot_state_store \<Rightarrow> update_notice \<Rightarrow> 's \<Rightarrow> trigger_message option \<times> 's" where
  "notice_handle on_book t store notice st =
     (case notice_resolve_snapshot store notice of
        None \<Rightarrow> (None, st)
      | Some snapshot \<Rightarrow> on_book t snapshot st)"

text \<open>The trigger and the quote runtime hand the view to the strategy; \<open>'o\<close> is what the strategy sends.\<close>

definition view_handle ::
    "(u64 \<Rightarrow> strategy_view \<Rightarrow> 's \<Rightarrow> 'o option \<times> 's)
      \<Rightarrow> u64 \<Rightarrow> hot_state_store \<Rightarrow> update_notice \<Rightarrow> 's \<times> runtime_scaffold
      \<Rightarrow> 'o option \<times> 's \<times> runtime_scaffold" where
  "view_handle on_update t store notice rt =
     (case resolve_view store notice (snd rt) of
        (None, sc) \<Rightarrow> (None, fst rt, sc)
      | (Some view, sc) \<Rightarrow> (case on_update t view (fst rt) of (o', st) \<Rightarrow> (o', st, sc)))"

definition runtime_new :: "('s \<Rightarrow> strategy_requirements) \<Rightarrow> 's \<Rightarrow> 's \<times> runtime_scaffold" where
  "runtime_new requirements st = (st, scaffold_new (requirements st))"

definition runtime_inventory_delta ::
    "inventory_delta \<Rightarrow> 's \<times> runtime_scaffold \<Rightarrow> 's \<times> runtime_scaffold" where
  "runtime_inventory_delta delta rt = (fst rt, apply_inventory_delta delta (snd rt))"

text \<open>The loop of the runtimes, which stops at the first output that cannot be sent.\<close>

fun runtime_run ::
    "(u64 \<Rightarrow> hot_state_store \<Rightarrow> update_notice \<Rightarrow> 'r \<Rightarrow> 'o option \<times> 'r)
      \<Rightarrow> (u64 \<times> hot_state_store \<times> update_notice \<times> bool) list \<Rightarrow> 'r \<Rightarrow> 'o list \<times> 'r" where
  "runtime_run handle [] rt = ([], rt)"
| "runtime_run handle ((t, store, notice, opened) # rest) rt =
     (case handle t store notice rt of
        (None, rt) \<Rightarrow> runtime_run handle rest rt
      | (Some out, rt) \<Rightarrow>
          if opened then (case runtime_run handle rest rt of (outs, rt) \<Rightarrow> (out # outs, rt))
          else ([], rt))"

text \<open>The loops of the two runtimes over views.\<close>

definition trigger_runtime_run ::
    "(u64 \<Rightarrow> strategy_view \<Rightarrow> 's \<Rightarrow> trigger_message option \<times> 's)
      \<Rightarrow> (u64 \<times> hot_state_store \<times> update_notice \<times> bool) list \<Rightarrow> 's \<times> runtime_scaffold
      \<Rightarrow> trigger_message list \<times> 's \<times> runtime_scaffold" where
  "trigger_runtime_run on_update notices rt = runtime_run (view_handle on_update) notices rt"

definition quote_runtime_new :: "('s \<Rightarrow> strategy_requirements) \<Rightarrow> 's \<Rightarrow> 's \<times> runtime_scaffold" where
  "quote_runtime_new requirements st = (st, scaffold_new (requirements st))"

definition quote_runtime_handle ::
    "(u64 \<Rightarrow> strategy_view \<Rightarrow> 's \<Rightarrow> desired_quotes option \<times> 's)
      \<Rightarrow> u64 \<Rightarrow> hot_state_store \<Rightarrow> update_notice \<Rightarrow> 's \<times> runtime_scaffold
      \<Rightarrow> desired_quotes option \<times> 's \<times> runtime_scaffold" where
  "quote_runtime_handle on_update t store notice rt =
     (case resolve_view store notice (snd rt) of
        (None, sc) \<Rightarrow> (None, fst rt, sc)
      | (Some view, sc) \<Rightarrow> (case on_update t view (fst rt) of (quotes, st) \<Rightarrow> (quotes, st, sc)))"

definition quote_runtime_run ::
    "(u64 \<Rightarrow> strategy_view \<Rightarrow> 's \<Rightarrow> desired_quotes option \<times> 's)
      \<Rightarrow> (u64 \<times> hot_state_store \<times> update_notice \<times> bool) list \<Rightarrow> 's \<times> runtime_scaffold
      \<Rightarrow> desired_quotes list \<times> 's \<times> runtime_scaffold" where
  "quote_runtime_run on_update notices rt = runtime_run (quote_runtime_handle on_update) notices rt"

section \<open>Replays\<close>

record 'o backtest_result =
  br_outputs :: "'o list"
  br_total_snapshots :: nat
  br_total_events :: nat

text \<open>Each snapshot or update comes with the time of the strategy's call on it.\<close>

fun replay_snapshots ::
    "(u64 \<Rightarrow> order_book_snapshot \<Rightarrow> 's \<Rightarrow> trigger_message option \<times> 's)
      \<Rightarrow> (u64 \<times> order_book_snapshot) list \<Rightarrow> 's \<Rightarrow> trigger_message list" where
  "replay_snapshots on_book [] st = []"
| "replay_snapshots on_book ((t, snapshot) # rest) st =
     (case on_book t snapshot st of
        (None, st) \<Rightarrow> replay_snapshots on_book rest st
      | (Some trigger, st) \<Rightarrow> trigger # replay_snapshots on_book rest st)"

definition backtest_run ::
    "(u64 \<Rightarrow> order_book_snapshot \<Rightarrow> 's \<Rightarrow> trigger_message option \<times> 's)
      \<Rightarrow> 's \<Rightarrow> (u64 \<times> order_book_snapshot) list \<Rightarrow> trigger_message backtest_result" where
  "backtest_run on_book st snapshots =
     \<lparr>br_outputs = replay_snapshots on_book snapshots st,
      br_total_snapshots = length snapshots, br_total_events = length snapshots\<rparr>"

definition registered_store :: "market_meta list \<Rightarrow> hot_state_store" where
  "registered_store markets = foldl register_market hot_state_empty markets"

fun replay_notices ::
    "(u64 \<Rightarrow> order_book_snapshot \<Rightarrow> 's \<Rightarrow> trigger_message option \<times> 's)
      \<Rightarrow> (u64 \<times> normalized_update) list \<Rightarrow> hot_state_store \<Rightarrow> 's \<Rightarrow> trigger_message list \<times> nat" where
  "replay_notices on_book [] store st = ([], 0)"
| "replay_notices on_book ((t, u) # rest) store st =
     (let store = apply_update store u
      in case project_snapshot store (nu_notice u) of
           None \<Rightarrow> replay_notices on_book rest store st
         | Some snapshot \<Rightarrow>
             (case on_book t snapshot st of
                (None, st) \<Rightarrow> apsnd Suc (replay_notices on_book rest store st)
              | (Some trigger, st) \<Rightarrow>
                  (case replay_notices on_book rest store st of (ts, n) \<Rightarrow> (trigger # ts, Suc n))))"

definition run_notice_replay ::
    "(u64 \<Rightarrow> order_book_snapshot \<Rightarrow> 's \<Rightarrow> trigger_message option \<times> 's)
      \<Rightarrow> 's \<Rightarrow> market_meta list \<Rightarrow> (u64 \<times> normalized_update) list \<Rightarrow> trigger_message backtest_result" where
  "run_notice_replay on_book st markets updates =
     (let (triggers, total) = replay_notices on_book updates (registered_store markets) st
      in \<lparr>br_outputs = triggers, br_total_snapshots = total, br_total_events = length updates\<rparr>)"

fun replay_views ::
    "(u64 \<Rightarrow> strategy_view \<Rightarrow> 's \<Rightarrow> 'o option \<times> 's)
      \<Rightarrow> (u64 \<times> normalized_update) list \<Rightarrow> hot_state_store \<Rightarrow> runtime_scaffold \<Rightarrow> 's \<Rightarrow> 'o list \<times> nat" where
  "replay_views on_update [] store sc st = ([], 0)"
| "replay_views on_update ((t, u) # rest) store sc st =
     (let store = apply_update store u
      in case resolve_view store (nu_notice u) sc of
           (None, sc) \<Rightarrow> replay_views on_update rest store sc st
         | (Some view, sc) \<Rightarrow>
             (case on_update t view st of
                (None, st) \<Rightarrow> apsnd Suc (replay_views on_update rest store sc st)
              | (Some out, st) \<Rightarrow>
                  (case replay_views on_update rest store sc st of (os, n) \<Rightarrow> (out # os, Suc n))))"

definition run_view_replay ::
    "('s \<Rightarrow> strategy_requirements) \<Rightarrow> (u64 \<Rightarrow> strategy_view \<Rightarrow> 's \<Rightarrow> 'o option \<times> 's)
      \<Rightarrow> 's \<Rightarrow> market_meta list \<Rightarrow> (u64 \<times> normalized_update) list \<Rightarrow> 'o backtest_result" where
  "run_view_replay requirements on_update st markets updates =
     (let (outs, total) = replay_views on_update updates (registered_store markets)
            (scaffold_new (requirements st)) st
      in \<lparr>br_outputs = outs, br_total_snapshots = total, br_total_events = length updates\<rparr>)"

definition run_trigger_notice_replay ::
    "('s \<Rightarrow> strategy_requirements) \<Rightarrow> (u64 \<Rightarrow> strategy_view \<Rightarrow> 's \<Rightarrow> trigger_message option \<times> 's)
      \<Rightarrow> 's \<Rightarrow> market_meta list \<Rightarrow> (u64 \<times> normalized_update) list \<Rightarrow> trigger_message backtest_result" where
  "run_trigger_notice_replay requirements on_update st markets updates =
     run_view_replay requirements on_update st markets updates"

definition run_quote_notice_replay ::
    "('s \<Rightarrow> strategy_requirements) \<Rightarrow> (u64 \<Rightarrow> strategy_view \<Rightarrow> 's \<Rightarrow> desired_quotes option \<times> 's)
      \<Rightarrow> 's \<Rightarrow> market_meta list \<Rightarrow> (u64 \<times> normalized_update) list \<Rightarrow> desired_quotes backtest_result" where
  "run_quote_notice_replay requirements on_update st markets updates =
     run_view_replay requirements on_update st markets updates"

section \<open>Units of the inventory\<close>

lemma trim_end_dots_simps:
  "s \<noteq> [] \<Longrightarrow> last s \<noteq> CHR ''.'' \<Longrightarrow> trim_end_dots s = s"
  "trim_end_dots (s @ ''.'') = trim_end_dots s"
  by (cases s rule: rev_cases; simp add: trim_end_dots_def)+

lemma format_units_trimmed_eq: "format_units_trimmed u = format_scaled u"
proof (cases "u mod 1000000 = 0")
  case True
  then have "runtime_format_units u = show_word (u div 1000000) @ ''.000000''"
    by (simp add: runtime_format_units_def pad_left_def show_word_def show_nat.simps eval_nat_numeral)
  moreover have "last (show_word (u div 1000000)) \<noteq> CHR ''.''" "show_word (u div 1000000) \<noteq> []"
    using show_word_facts [of "u div 1000000"] not_digits(1)
    by (metis (no_types) last_in_set list_all_iff, simp)
  moreover have "trim_end_zeros (s @ ''.000000'') = s @ ''.''" for s by (simp add: trim_end_zeros_def)
  ultimately show ?thesis
    using True by (simp add: format_units_trimmed_def format_scaled_def hot_value_scale_def trim_end_dots_simps Let_def)
next
  case False
  then have form: "format_scaled u = trim_end_zeros (runtime_format_units u)"
    by (simp add: format_scaled_def hot_value_scale_def runtime_format_units_def Let_def)
  have "format_scaled u \<noteq> [] \<and> is_digit (last (format_scaled u))"
  proof (rule format_scaled_digits [of u])
    fix f
    assume "all_digits f" "format_scaled u = show_nat (unat u div 1000000) @ (if f = [] then [] else CHR ''.'' # f)"
    then show ?thesis using all_digits_show_nat [of "unat u div 1000000"] show_nat_neq_Nil
      by (auto simp: list_all_iff)
  qed
  then have "format_scaled u \<noteq> []" "trim_end_dots (format_scaled u) = format_scaled u"
    using trim_end_dots_simps(1) not_digits(1) by metis+
  then show ?thesis by (simp add: format_units_trimmed_def form [symmetric] Let_def)
qed

lemma runtime_units_roundtrip [simp]: "runtime_parse_units (format_units_trimmed u) = u"
proof (rule format_scaled_digits [of u])
  fix f
  assume f: "all_digits f" "length f \<le> 6"
    and form: "format_scaled u = show_nat (unat u div 1000000) @ (if f = [] then [] else CHR ''.'' # f)"
    and val: "digits_val 0 f * 10 ^ (6 - length f) = unat u mod 1000000"
  let ?w = "unat u div 1000000"
  have split: "split_on CHR ''.'' (format_scaled u) = show_nat ?w # (if f = [] then [] else [f])"
    using f by (simp add: form split_on_none split_on_append all_digits_no_dot)
  have "?w \<le> unat u" by simp
  also have "unat u < 2 ^ 64" by simp
  finally have w: "?w < 2 ^ 64" .
  have W: "parse_uint (show_nat ?w) = Some (of_nat ?w :: u64)" using w by (simp add: parse_uint_digits)
  let ?pad = "f @ replicate (6 - length f) CHR ''0''"
  have "digits_val 0 ?pad = unat u mod 1000000" using val by (simp only: digits_val_trailing_zeros)
  moreover have "all_digits ?pad" "?pad \<noteq> []" using f by (auto simp: list_all_iff)
  ultimately have F: "parse_uint ?pad = Some (of_nat (unat u mod 1000000) :: u64)"
    by (simp add: parse_uint_digits)
  have wu: "unat (of_nat ?w :: u64) = ?w" using w by (intro unat_of_nat_less) simp
  have fu: "unat (of_nat (unat u mod 1000000) :: u64) = unat u mod 1000000"
    by (intro unat_of_nat_less) (simp add: less_trans [OF mod_less_divisor])
  have "unat (saturating_add (saturating_mul (of_nat ?w) 1000000) (of_nat (unat u mod 1000000)) :: u64) = unat u"
  proof -
    have "unat u \<le> 18446744073709551615" "unat u div 1000000 * 1000000 \<le> unat u"
      using unat_u64_less [of u] div_times_less_eq_dividend [of "unat u" 1000000] by linarith+
    then have "min (unat u div 1000000 * 1000000) 18446744073709551615 = unat u div 1000000 * 1000000"
      "min (unat u) 18446744073709551615 = unat u"
      by (simp_all only: min_absorb1 order.trans)
    then show ?thesis by (simp add: unat_saturating_add unat_saturating_mul wu fu)
  qed
  then have "saturating_add (saturating_mul (of_nat ?w) 1000000) (of_nat (unat u mod 1000000)) = u"
    by (simp only: unsigned_word_eqI)
  then show ?thesis
    using split W F f by (cases "f = []") (simp_all add: runtime_parse_units_def format_units_trimmed_eq)
qed

lemma runtime_units_zero [simp]: "runtime_parse_units ''0'' = 0"
proof -
  have "format_units_trimmed 0 = ''0''"
    by (simp add: format_units_trimmed_eq format_scaled_def show_word_def show_nat.simps)
  then show ?thesis by (metis runtime_units_roundtrip)
qed

section \<open>The inventory adds up its deltas\<close>

lemma inventory_key_eq: "inventory_key a s = inventory_key b t \<longleftrightarrow> a = b \<and> s = t"
  by (cases s; cases t) (auto simp: inventory_key_def side_debug_def dest: arg_cong [of _ _ rev])

definition inventory_after :: "inventory_delta list \<Rightarrow> inventory_store" where
  "inventory_after ds = foldl inventory_apply_delta [] ds"

definition position_total :: "string \<Rightarrow> side \<Rightarrow> inventory_delta list \<Rightarrow> inventory_position \<Rightarrow> bool" where
  "position_total a s mine p \<longleftrightarrow> ip_asset_id p = a \<and> ip_side p = s
     \<and> unat (runtime_parse_units (ip_filled_size p)) =
         min (\<Sum>d\<leftarrow>mine. unat (runtime_parse_units (id_filled_size_delta d))) (2 ^ 64 - 1)
     \<and> unat (runtime_parse_units (ip_net_notional p)) =
         min (\<Sum>d\<leftarrow>mine. unat (runtime_parse_units (id_notional_delta d))) (2 ^ 64 - 1)
     \<and> ip_updated_at_ms p = id_observed_at_ms (last mine)"

lemma inventory_after_wf: "bt_wf (inventory_after ds)"
  by (induction ds rule: rev_induct) (simp_all add: inventory_after_def inventory_apply_delta_def Let_def ordmap_wf)

lemma inventory_after_get:
  defines "mine a s ds \<equiv> filter (\<lambda>d. id_asset_id d = a \<and> id_side d = s) ds"
  shows "case bt_get (inventory_after ds) (inventory_key a s) of
      None \<Rightarrow> mine a s ds = []
    | Some p \<Rightarrow> mine a s ds \<noteq> [] \<and> position_total a s (mine a s ds) p"
proof (induction ds rule: rev_induct)
  case Nil
  then show ?case by (simp add: inventory_after_def mine_def)
next
  case (snoc d ds)
  have step: "inventory_after (ds @ [d]) = inventory_apply_delta (inventory_after ds) d"
    by (simp add: inventory_after_def)
  show ?case
  proof (cases "id_asset_id d = a \<and> id_side d = s")
    case False
    then have "bt_get (inventory_after (ds @ [d])) (inventory_key a s) = bt_get (inventory_after ds) (inventory_key a s)"
      unfolding step inventory_apply_delta_def Let_def
      by (subst bt_get_insert) (auto simp: inventory_after_wf inventory_key_eq)
    moreover have "mine a s (ds @ [d]) = mine a s ds" using False by (auto simp: mine_def)
    ultimately show ?thesis using snoc by (simp only:)
  next
    case True
    then show ?thesis
      using snoc unfolding step inventory_apply_delta_def Let_def
      by (auto simp: bt_get_insert inventory_after_wf mine_def position_total_def unat_saturating_add
          split: option.splits)
  qed
qed

text \<open>
  After any deltas the inventory holds a position of an asset and side exactly when there was a delta for it; the
  filled size and the notional are the sums of its deltas, up to the greatest 64-bit number of units, and
  the time is that of the last.
\<close>

theorem inventory_adds_up:
  "case bt_get (foldl inventory_apply_delta [] ds) (inventory_key a s) of
     None \<Rightarrow> filter (\<lambda>d. id_asset_id d = a \<and> id_side d = s) ds = []
   | Some p \<Rightarrow>
       (let mine = filter (\<lambda>d. id_asset_id d = a \<and> id_side d = s) ds
        in mine \<noteq> [] \<and> ip_asset_id p = a \<and> ip_side p = s
         \<and> unat (runtime_parse_units (ip_filled_size p)) =
             min (\<Sum>d\<leftarrow>mine. unat (runtime_parse_units (id_filled_size_delta d))) (2 ^ 64 - 1)
         \<and> unat (runtime_parse_units (ip_net_notional p)) =
             min (\<Sum>d\<leftarrow>mine. unat (runtime_parse_units (id_notional_delta d))) (2 ^ 64 - 1)
         \<and> ip_updated_at_ms p = id_observed_at_ms (last mine))"
  using inventory_after_get [where ds = ds and a = a and s = s] unfolding inventory_after_def position_total_def Let_def .

section \<open>What a view shows\<close>

definition wants_book :: "provisioned_input \<Rightarrow> bool" where
  "wants_book input \<longleftrightarrow>
     (case dr_kind (pvi_requirement input) of
        PolymarketBbo \<Rightarrow> True | PolymarketDepthTopN _ \<Rightarrow> True | RewardMetadata \<Rightarrow> True | _ \<Rightarrow> False)"

definition book_id :: "hot_book_state \<Rightarrow> source_id \<times> asset_id" where
  "book_id b = (un_source_id (hb_notice b), hb_asset_id b)"

lemma push_unique_book_ids:
  "push_unique_book bs b = (if book_id b \<in> book_id ` set bs then bs else bs @ [b])"
  by (auto simp: push_unique_book_def list_ex_iff book_id_def image_iff eq_commute)

lemma resolve_input_books:
  "fst (resolve_input store sc notice resolved input acc) =
     (case (if wants_book input then resolve_book store sc input notice resolved else None) of
        None \<Rightarrow> fst acc | Some b \<Rightarrow> push_unique_book (fst acc) b)"
  by (cases acc; cases "dr_kind (pvi_requirement input)")
    (auto simp: resolve_input_def wants_book_def Let_def split: option.split)

text \<open>Each pushed book is the one stored under its own source and asset, so a skipped one is already there.\<close>

lemma resolve_inputs_books:
  assumes "\<And>i b. i \<in> set inputs \<Longrightarrow> wants_book i \<Longrightarrow> resolve_book store sc i notice resolved = Some b \<Longrightarrow>
      book_state store (fst (book_id b)) (snd (book_id b)) = Some b"
    and "\<forall>b \<in> set (fst acc). book_state store (fst (book_id b)) (snd (book_id b)) = Some b"
    and "distinct (map book_id (fst acc))"
  shows "distinct (map book_id (fst (fold (resolve_input store sc notice resolved) inputs acc)))
    \<and> set (fst (fold (resolve_input store sc notice resolved) inputs acc)) = set (fst acc) \<union>
        {b. \<exists>i \<in> set inputs. wants_book i \<and> resolve_book store sc i notice resolved = Some b}"
  using assms
proof (induction inputs arbitrary: acc)
  case (Cons i inputs)
  let ?acc = "resolve_input store sc notice resolved i acc"
  let ?r = "if wants_book i then resolve_book store sc i notice resolved else None"
  have here: "book_state store (fst (book_id b)) (snd (book_id b)) = Some b" if "?r = Some b" for b
    using that Cons.prems(1) [of i b] by (auto split: if_splits)
  have acc: "fst ?acc = (case ?r of None \<Rightarrow> fst acc | Some b \<Rightarrow> push_unique_book (fst acc) b)"
    by (rule resolve_input_books)
  have stored: "\<forall>b \<in> set (fst ?acc). book_state store (fst (book_id b)) (snd (book_id b)) = Some b"
    using here Cons.prems(2) unfolding acc by (cases ?r) (auto simp: push_unique_book_ids)
  have dist: "distinct (map book_id (fst ?acc))"
    using Cons.prems(3) unfolding acc by (cases ?r) (auto simp: push_unique_book_ids)
  have same: "c = b" if "b \<in> set (fst acc)" "?r = Some c" "book_id c = book_id b" for b c
    using here [OF that(2)] Cons.prems(2) that(1,3) by auto
  have set: "set (fst ?acc) = set (fst acc) \<union> set_option ?r"
    unfolding acc using same by (cases ?r) (auto simp: push_unique_book_ids)
  have "set_option ?r = {b. wants_book i \<and> resolve_book store sc i notice resolved = Some b}" by auto
  then show ?case
    using Cons.IH [OF _ stored dist] Cons.prems(1) set by auto
qed simp

lemma stored_book_id: "hot_wf store \<Longrightarrow> book_state store s a = Some b \<Longrightarrow> book_id b = (s, a)"
  using hot_wf_book [of store "key_asset s a" b] by (simp add: book_state_def book_ok_def book_id_def)

lemma resolved_book_stored:
  assumes "resolve_notice store notice = Some (ViewBook b)"
  shows "book_state store (un_source_id notice) (ir_instrument_id (un_subject notice)) = Some b
    \<and> hb_version b = un_version notice"
  using assms by (auto simp: resolve_notice_def resolve_book_notice_def book_state_def
      split: if_splits option.splits)

lemma resolve_book_stored:
  assumes "hot_wf store"
    and "resolve_book store sc i notice (resolve_notice store notice) = Some b"
  shows "book_state store (fst (book_id b)) (snd (book_id b)) = Some b"
    and "pvi_subject i = un_subject notice \<and> hb_version b = un_version notice
      \<or> subject_key (pvi_subject i) \<in> rsc_seen_subjects sc
        \<and> book_state store (ir_source_id (pvi_subject i)) (ir_instrument_id (pvi_subject i)) = Some b"
proof -
  have "\<exists>s a. book_state store s a = Some b"
    using assms(2) resolved_book_stored [of store notice b]
    by (auto simp: resolve_book_def split: if_splits option.splits hot_state_view.splits)
  then show "book_state store (fst (book_id b)) (snd (book_id b)) = Some b"
    using stored_book_id [OF assms(1)] by auto
  show "pvi_subject i = un_subject notice \<and> hb_version b = un_version notice
      \<or> subject_key (pvi_subject i) \<in> rsc_seen_subjects sc
        \<and> book_state store (ir_source_id (pvi_subject i)) (ir_instrument_id (pvi_subject i)) = Some b"
    using assms(2) resolved_book_stored [of store notice b]
    by (auto simp: resolve_book_def split: if_splits option.splits hot_state_view.splits)
qed

text \<open>
  C29. A view is made for the notices of the strategy's inputs only. It holds exactly the books its inputs resolve to, each
  once; every one of them is the book the store now holds for its source and asset, and it is either
  at the notice's version or the book of a subject of which the runtime has seen a notice before.
\<close>

theorem view_books_current:
  assumes "resolve_view (hot_run ops) notice sc = (Some view, sc')"
  shows "un_subject notice \<in> pvi_subject ` set (tp_inputs (rsc_topology sc))
    \<and> distinct (map (\<lambda>b. (un_source_id (hb_notice b), hb_asset_id b)) (sv_books view))
    \<and> set (sv_books view) = {b. \<exists>i \<in> set (tp_inputs (rsc_topology sc)). wants_book i \<and>
        resolve_book (hot_run ops) sc i notice (resolve_notice (hot_run ops) notice) = Some b}
    \<and> (\<forall>b \<in> set (sv_books view).
        book_state (hot_run ops) (un_source_id (hb_notice b)) (hb_asset_id b) = Some b
      \<and> (hb_version b = un_version notice
         \<or> (\<exists>i \<in> set (tp_inputs (rsc_topology sc)). subject_key (pvi_subject i) \<in> rsc_seen_subjects sc
              \<and> book_state (hot_run ops) (ir_source_id (pvi_subject i)) (ir_instrument_id (pvi_subject i)) = Some b)))
    \<and> rsc_seen_subjects sc' = insert (subject_key (un_subject notice)) (rsc_seen_subjects sc)"
proof -
  let ?st = "hot_run ops" and ?inputs = "tp_inputs (rsc_topology sc)"
  let ?acc = "fold (resolve_input ?st sc notice (resolve_notice ?st notice)) ?inputs ([], [], [])"
  have rel: "is_relevant_notice sc notice" and v: "sv_books view = fst ?acc"
    and seen: "rsc_seen_subjects sc' = insert (subject_key (un_subject notice)) (rsc_seen_subjects sc)"
    using assms by (auto simp: resolve_view_def Let_def split: if_splits prod.splits)
  note st = resolve_book_stored [OF hot_wf_run]
  have B: "distinct (map book_id (sv_books view)) \<and> set (sv_books view) =
      {b. \<exists>i \<in> set ?inputs. wants_book i \<and> resolve_book ?st sc i notice (resolve_notice ?st notice) = Some b}"
    using resolve_inputs_books [of ?inputs ?st sc notice "resolve_notice ?st notice" "([], [], [])"] st(1)
    unfolding v by auto
  have "book_state ?st (un_source_id (hb_notice b)) (hb_asset_id b) = Some b
      \<and> (hb_version b = un_version notice
         \<or> (\<exists>i \<in> set ?inputs. subject_key (pvi_subject i) \<in> rsc_seen_subjects sc
              \<and> book_state ?st (ir_source_id (pvi_subject i)) (ir_instrument_id (pvi_subject i)) = Some b))"
    if mem: "b \<in> set (sv_books view)" for b
  proof -
    obtain i where i: "i \<in> set ?inputs" "resolve_book ?st sc i notice (resolve_notice ?st notice) = Some b"
      using mem B by auto
    show ?thesis using st(1) [OF i(2)] st(2) [OF i(2)] i(1) by (auto simp: book_id_def)
  qed
  moreover have "un_subject notice \<in> pvi_subject ` set ?inputs"
    using rel unfolding is_relevant_notice_def list_ex_iff by (metis image_eqI)
  ultimately show ?thesis using B seen by (simp add: book_id_def [abs_def])
qed

section \<open>Both replays give the same triggers\<close>

text \<open>The updates of the public feed: the notice names the source, the kind and the asset of its payload.\<close>

definition public_update :: "normalized_update \<Rightarrow> bool" where
  "public_update u \<longleftrightarrow> un_source_id (nu_notice u) = public_source_id
     \<and> un_kind (nu_notice u) = payload_kind (nu_payload u)
     \<and> (case payload_book_asset (nu_payload u) of
          None \<Rightarrow> True | Some a \<Rightarrow> un_subject (nu_notice u) = instrument_asset public_source_id a)"

definition books_before :: "hot_state_store \<Rightarrow> u64 \<Rightarrow> bool" where
  "books_before store v \<longleftrightarrow> (\<forall>k b. hs_books store k = Some b \<longrightarrow> hb_version b < v)"

lemma apply_update_other_books:
  assumes "payload_book_asset (nu_payload u) = None" "hs_books (apply_update store u) k = Some b"
  shows "hs_books store k = Some b"
  using assms
  by (auto simp: apply_update_def payload_book_asset_def Let_def apply_trade_tick_update_def
      apply_reference_price_update_def apply_source_status_update_def apply_reconnect_update_def
      update_reference_books split: normalized_update_payload.splits if_splits)

lemma books_before_update:
  assumes "hot_wf store" "books_before store (un_version (nu_notice u))" "un_version (nu_notice u) < v"
  shows "books_before (apply_update store u) v"
proof (cases "payload_book_asset (nu_payload u)")
  case None
  then show ?thesis
    using apply_update_other_books assms unfolding books_before_def by (meson less_trans)
next
  case (Some a)
  let ?k = "key_asset (un_source_id (nu_notice u)) a"
  obtain b where put: "apply_update store u = put_book ?k b store" and ok: "hb_notice b = nu_notice u" "book_ok ?k b"
    using update_writes_book [OF Some, of store] assms(1) unfolding writes_book_def by blast
  have b: "hs_books (apply_update store u) = (hs_books store)(?k \<mapsto> b)" "hb_version b = un_version (nu_notice u)"
    using ok unfolding put by (simp_all add: put_book_def book_ok_def)
  show ?thesis
    unfolding books_before_def b(1)
  proof (intro allI impI)
    fix k c
    assume "((hs_books store)(?k \<mapsto> b)) k = Some c"
    then have "hb_version c = un_version (nu_notice u) \<or> hs_books store k = Some c"
      using b(2) by (auto split: if_splits)
    then show "hb_version c < v"
      using assms(2,3) unfolding books_before_def by (metis less_trans)
  qed
qed

definition book_snapshot_of :: "hot_book_state \<Rightarrow> order_book_snapshot" where
  "book_snapshot_of b =
     \<lparr>obs_asset_id = hb_asset_id b,
      obs_best_bid = map_option snapshot_level (hb_best_bid b),
      obs_best_ask = map_option snapshot_level (hb_best_ask b),
      obs_timestamp_ms = hb_timestamp_ms b,
      obs_hash = unwrap_or [] (or_else (hb_source_hash b) (un_source_hash (hb_notice b)))\<rparr>"

lemma view_snapshot_book: "view_snapshot v a = map_option book_snapshot_of (view_book v a)"
proof -
  have "book_level_to_snapshot_level = snapshot_level"
    by (rule ext) (simp add: book_level_to_snapshot_level_def snapshot_level_def)
  then show ?thesis by (simp add: view_snapshot_def book_snapshot_of_def [abs_def])
qed

text \<open>After a book update of the public feed both ways find the book it wrote, after any other update none.\<close>

lemma public_book_update:
  assumes "public_update u" "payload_book_asset (nu_payload u) = Some a" "hot_wf store"
  obtains b where "resolve_notice (apply_update store u) (nu_notice u) = Some (ViewBook b)"
    "project_snapshot (apply_update store u) (nu_notice u) = Some (book_snapshot_of b)" "hb_asset_id b = a"
proof -
  have sub: "un_subject (nu_notice u) = instrument_asset (un_source_id (nu_notice u)) a"
    and kind: "un_kind (nu_notice u) = payload_kind (nu_payload u)"
    using assms(1,2) by (auto simp: public_update_def)
  obtain b where b: "resolve_notice (apply_update store u) (nu_notice u) = Some (ViewBook b)"
    "hb_notice b = nu_notice u" "hb_asset_id b = a"
    using resolve_after_update [OF assms(2) sub kind assms(3)] by blast
  then have "resolve_book_notice (apply_update store u) (nu_notice u) = Some b"
    by (auto simp: resolve_notice_def split: if_splits)
  then have "project_snapshot (apply_update store u) (nu_notice u) = Some (book_snapshot_of b)"
    by (simp add: project_snapshot_def book_snapshot_of_def b(2))
  with b that show thesis by blast
qed

lemma other_update_projects_nothing:
  assumes "payload_book_asset (nu_payload u) = None" "books_before store (un_version (nu_notice u))"
  shows "project_snapshot (apply_update store u) (nu_notice u) = None"
proof -
  have "resolve_book_notice (apply_update store u) (nu_notice u) = None"
  proof (rule ccontr)
    assume "resolve_book_notice (apply_update store u) (nu_notice u) \<noteq> None"
    then obtain k b where "hs_books (apply_update store u) k = Some b" "hb_version b = un_version (nu_notice u)"
      by (auto simp: resolve_book_notice_def split: option.splits if_splits)
    with apply_update_other_books [OF assms(1)] assms(2) show False
      unfolding books_before_def by (metis less_irrefl)
  qed
  then show ?thesis by (simp add: project_snapshot_def)
qed

lemma other_update_resolves_no_book:
  assumes "public_update u" "payload_book_asset (nu_payload u) = None"
  shows "resolve_notice store (nu_notice u) \<noteq> Some (ViewBook b)"
  using assms by (cases "nu_payload u")
    (auto simp: public_update_def payload_kind_def payload_book_asset_def resolve_notice_def)

definition token_topology :: "string \<Rightarrow> topology_plan" where
  "token_topology tok =
     topology_from_requirements (requirements_trigger [require_polymarket_bbo tok] SharedFeedAcceptable)"

lemma token_topology_inputs:
  obtains i where "tp_inputs (token_topology tok) = [i]" "pvi_subject i = instrument_asset public_source_id tok"
    "wants_book i"
  by (simp add: token_topology_def topology_from_requirements_def requirements_trigger_def Let_def
      require_polymarket_bbo_def provision_input_def provision_source_def provision_subject_def
      public_source_id_def wants_book_def)

lemma token_view:
  assumes "rsc_topology sc = token_topology tok"
  shows "resolve_view store notice sc = (None, sc) \<and> un_subject notice \<noteq> instrument_asset public_source_id tok
    \<or> (\<exists>view sc'. resolve_view store notice sc = (Some view, sc')
        \<and> un_subject notice = instrument_asset public_source_id tok \<and> rsc_topology sc' = rsc_topology sc
        \<and> sv_books view = (case resolve_notice store notice of Some (ViewBook b) \<Rightarrow> [b] | _ \<Rightarrow> []))"
proof (rule token_topology_inputs [of tok])
  fix i
  assume i: "tp_inputs (token_topology tok) = [i]" "pvi_subject i = instrument_asset public_source_id tok" "wants_book i"
  obtain bs rs hs where acc: "resolve_input store sc notice (resolve_notice store notice) i ([], [], []) = (bs, rs, hs)"
    by (metis prod_cases3)
  have bs: "bs = (case resolve_book store sc i notice (resolve_notice store notice) of None \<Rightarrow> [] | Some b \<Rightarrow> [b])"
    using resolve_input_books [of store sc notice "resolve_notice store notice" i "([], [], [])"] i(3) acc
    by (simp add: push_unique_book_def split: option.split)
  show ?thesis
  proof (cases "un_subject notice = instrument_asset public_source_id tok")
    case True
    then have "bs = (case resolve_notice store notice of Some (ViewBook b) \<Rightarrow> [b] | _ \<Rightarrow> [])"
      using i(2) unfolding bs by (simp add: resolve_book_def split: option.split hot_state_view.split)
    with True i assms acc show ?thesis
      by (simp add: resolve_view_def is_relevant_notice_def)
  next
    case False
    with i assms show ?thesis by (auto simp: resolve_view_def is_relevant_notice_def)
  qed
qed

lemma registered_no_books: "hs_books store = Map.empty \<Longrightarrow> hs_books (register_market store m) = Map.empty"
  by (rule ext) (simp add: register_market_def register_asset_def)

lemma registered_store_no_books: "hs_books (registered_store ms) = Map.empty" "hot_wf (registered_store ms)"
proof -
  have "hs_books (foldl register_market store ms) = Map.empty \<and> hot_wf (foldl register_market store ms)"
    if "hs_books store = Map.empty" "hot_wf store" for store
    using that by (induction ms arbitrary: store) (simp_all add: registered_no_books register_market_wf)
  from this [of hot_state_empty] show "hs_books (registered_store ms) = Map.empty" "hot_wf (registered_store ms)"
    using hot_wf_empty by (simp_all add: registered_store_def hot_state_empty_def)
qed

context trigger_strategy
begin

lemma replay_step:
  assumes "public_update u" "hot_wf store" "books_before store (un_version (nu_notice u))"
    and "rsc_topology sc = token_topology (token st)"
  defines "store' \<equiv> apply_update store u"
  shows "\<exists>r sc'. rsc_topology sc' = rsc_topology sc
    \<and> (case project_snapshot store' (nu_notice u) of None \<Rightarrow> (None, st) | Some s \<Rightarrow> on_book t s st) = r
    \<and> (resolve_view store' (nu_notice u) sc = (None, sc') \<and> r = (None, st)
       \<or> (\<exists>view. resolve_view store' (nu_notice u) sc = (Some view, sc') \<and> on_update t view st = r))"
proof (cases "payload_book_asset (nu_payload u)")
  case None
  have p: "project_snapshot store' (nu_notice u) = None"
    unfolding store'_def by (rule other_update_projects_nothing [OF None assms(3)])
  have nb: "resolve_notice store' (nu_notice u) \<noteq> Some (ViewBook b)" for b
    using other_update_resolves_no_book [OF assms(1) None] .
  from token_view [OF assms(4), of store' "nu_notice u"] show ?thesis
  proof (elim disjE exE conjE)
    fix view sc'
    assume v: "resolve_view store' (nu_notice u) sc = (Some view, sc')" "rsc_topology sc' = rsc_topology sc"
      "sv_books view = (case resolve_notice store' (nu_notice u) of Some (ViewBook b) \<Rightarrow> [b] | _ \<Rightarrow> [])"
    from v(3) nb have "sv_books view = []" by (auto split: option.splits hot_state_view.splits)
    then have "on_update t view st = (None, st)" by (simp add: on_update view_snapshot_book view_book_def)
    then show ?thesis using v p by auto
  qed (use p in auto)
next
  case (Some a)
  obtain b where b: "resolve_notice store' (nu_notice u) = Some (ViewBook b)"
    "project_snapshot store' (nu_notice u) = Some (book_snapshot_of b)" "hb_asset_id b = a"
    using public_book_update [OF assms(1) Some assms(2)] unfolding store'_def .
  have sub: "un_subject (nu_notice u) = instrument_asset public_source_id a"
    using assms(1) Some by (simp add: public_update_def)
  from token_view [OF assms(4), of store' "nu_notice u"] show ?thesis
  proof (elim disjE exE conjE)
    assume "resolve_view store' (nu_notice u) sc = (None, sc)"
      "un_subject (nu_notice u) \<noteq> instrument_asset public_source_id (token st)"
    moreover from this(2) sub b(3) have "obs_asset_id (book_snapshot_of b) \<noteq> token st"
      by (auto simp: book_snapshot_of_def)
    ultimately show ?thesis using b(2) other_asset by auto
  next
    fix view sc'
    assume v: "resolve_view store' (nu_notice u) sc = (Some view, sc')" "rsc_topology sc' = rsc_topology sc"
      "un_subject (nu_notice u) = instrument_asset public_source_id (token st)"
      "sv_books view = (case resolve_notice store' (nu_notice u) of Some (ViewBook b) \<Rightarrow> [b] | _ \<Rightarrow> [])"
    from v(3) sub b(3) have "hb_asset_id b = token st" by (simp add: instrument_asset_def)
    with v(4) b(1) have "on_update t view st = on_book t (book_snapshot_of b) st"
      by (simp add: on_update view_snapshot_book view_book_def)
    then show ?thesis using v(1,2) b(2) by auto
  qed
qed

lemma replays_agree:
  assumes "\<forall>u \<in> snd ` set updates. public_update u" "sorted_wrt (<) (map (un_version \<circ> nu_notice \<circ> snd) updates)"
    and "hot_wf store" "\<forall>u \<in> snd ` set updates. books_before store (un_version (nu_notice u))"
    and "rsc_topology sc = token_topology (token st)"
  shows "fst (replay_notices on_book updates store st) = fst (replay_views on_update updates store sc st)"
  using assms
proof (induction updates arbitrary: store sc st)
  case (Cons x rest)
  obtain t u where x: "x = (t, u)" by force
  let ?store = "apply_update store u"
  note step = replay_step [of u store sc st t]
  obtain r sc' where sc': "rsc_topology sc' = rsc_topology sc"
    and r: "(case project_snapshot ?store (nu_notice u) of None \<Rightarrow> (None, st) | Some s \<Rightarrow> on_book t s st) = r"
    and v: "resolve_view ?store (nu_notice u) sc = (None, sc') \<and> r = (None, st)
       \<or> (\<exists>view. resolve_view ?store (nu_notice u) sc = (Some view, sc') \<and> on_update t view st = r)"
    using step Cons.prems by (auto simp: x)
  obtain out st1 where out: "r = (out, st1)" by force
  have tok: "token st1 = token st"
    using r token_kept unfolding out by (auto split: option.splits)
  have before: "\<forall>w \<in> snd ` set rest. books_before ?store (un_version (nu_notice w))"
    using Cons.prems by (auto simp: x intro!: books_before_update)
  have "fst (replay_notices on_book rest ?store st1) = fst (replay_views on_update rest ?store sc' st1)"
    by (rule Cons.IH) (use Cons.prems before sc' tok in \<open>auto simp: x intro: apply_update_wf\<close>)
  moreover have "fst (replay_notices on_book (x # rest) store st) =
      (case out of None \<Rightarrow> [] | Some tr \<Rightarrow> [tr]) @ fst (replay_notices on_book rest ?store st1)"
    using r unfolding out by (auto simp: x Let_def split: option.splits prod.splits)
  moreover have "fst (replay_views on_update (x # rest) store sc st) =
      (case out of None \<Rightarrow> [] | Some tr \<Rightarrow> [tr]) @ fst (replay_views on_update rest ?store sc' st1)"
    using v unfolding out by (auto simp: x Let_def split: option.splits prod.splits)
  ultimately show ?case by simp
qed simp

lemma replays_agree_from_start:
  assumes "\<forall>u \<in> snd ` set updates. public_update u" "sorted_wrt (<) (map (un_version \<circ> nu_notice \<circ> snd) updates)"
  shows "br_outputs (run_notice_replay on_book st markets updates)
    = br_outputs (run_trigger_notice_replay requirements on_update st markets updates)"
proof -
  show ?thesis
    using replays_agree [OF assms, of "registered_store markets" "scaffold_new (requirements st)" st]
      registered_store_no_books
    by (simp add: run_notice_replay_def run_trigger_notice_replay_def run_view_replay_def books_before_def
        scaffold_new_def requirements token_topology_def case_prod_beta Let_def)
qed

end

text \<open>
  C30. For the strategies a configuration builds, replaying the updates of the public feed, with ascending versions,
  through projected snapshots and through the runtime's views gives the same triggers.
\<close>

theorem replays_give_same_triggers:
  assumes "\<forall>u \<in> snd ` set updates. public_update u" "sorted_wrt (<) (map (un_version \<circ> nu_notice \<circ> snd) updates)"
    and "build_strategy c = Inr st" "build_trigger_strategy c = Inr st'"
  shows "br_outputs (run_notice_replay boxed_on_book_update st markets updates)
    = br_outputs (run_trigger_notice_replay boxed_requirements boxed_on_update st' markets updates)"
proof -
  have "st = st'" using assms(3,4) by (simp add: build_strategy_def build_trigger_strategy_def)
  then show ?thesis using boxed.replays_agree_from_start [OF assms(1,2)] by simp
qed

definition public_sample :: "u64 \<Rightarrow> normalized_update" where
  "public_sample v =
     \<lparr>nu_notice =
        \<lparr>un_source_id = public_source_id, un_source_kind = PolymarketWs,
         un_subject = instrument_asset public_source_id ''42'', un_kind = UKBookSnapshot, un_version = v,
         un_source_hash = None\<rparr>,
      nu_payload = BookSnapshot
        \<lparr>bs_market_id = ''m'', bs_asset_id = ''42'', bs_bids = [\<lparr>bl_price = ''0.45'', bl_size = ''1''\<rparr>],
         bs_asks = [\<lparr>bl_price = ''0.5'', bl_size = ''1''\<rparr>], bs_timestamp_ms = 0, bs_source_hash = None\<rparr>\<rparr>"

lemma public_sample_facts:
  "public_update (public_sample v)" "payload_book_asset (nu_payload (public_sample v)) = Some ''42''"
  "un_version (nu_notice (public_sample v)) = v"
  by (simp_all add: public_sample_def public_update_def payload_kind_def payload_book_asset_def)

theorem replays_give_same_triggers_witness:
  "br_outputs (run_notice_replay boxed_on_book_update
      (BoxSpread (spread_new ''42'' Buy (round_ratio False 5 100) ''10'' FOK)) [] [(7, public_sample 1), (8, public_sample 2)])
   = br_outputs (run_trigger_notice_replay boxed_requirements boxed_on_update
      (BoxSpread (spread_new ''42'' Buy (round_ratio False 5 100) ''10'' FOK)) [] [(7, public_sample 1), (8, public_sample 2)])"
  by (rule replays_give_same_triggers
      [where c = "\<lparr>stc_strategy = ''spread'', stc_token_id = ''42'', stc_side = Buy, stc_size = ''10'',
        stc_order_type = FOK, stc_params = \<lparr>prm_threshold = None, prm_max_spread = Some (round_ratio False 5 100)\<rparr>\<rparr>"])
    (simp_all add: public_sample_facts build_strategy_def build_trigger_strategy_def ok_or_def)

theorem view_books_current_witness:
  "\<exists>view sc' b. resolve_view (hot_run [OpUpdate (public_sample 1)]) (nu_notice (public_sample 1))
      (scaffold_new (requirements_trigger [require_polymarket_bbo ''42''] SharedFeedAcceptable)) = (Some view, sc')
    \<and> sv_books view = [b] \<and> hb_asset_id b = ''42''
    \<and> book_state (hot_run [OpUpdate (public_sample 1)]) (un_source_id (hb_notice b)) ''42'' = Some b"
proof -
  let ?n = "nu_notice (public_sample 1)"
  let ?sc = "scaffold_new (requirements_trigger [require_polymarket_bbo ''42''] SharedFeedAcceptable)"
  have run: "hot_run [OpUpdate (public_sample 1)] = apply_update hot_state_empty (public_sample 1)"
    by (simp add: hot_run_def hot_step_def)
  have sub: "un_subject ?n = instrument_asset public_source_id ''42''" by (simp add: public_sample_def)
  have top: "rsc_topology ?sc = token_topology ''42''" by (simp add: scaffold_new_def token_topology_def)
  obtain b where b: "resolve_notice (apply_update hot_state_empty (public_sample 1)) ?n = Some (ViewBook b)"
    "hb_asset_id b = ''42''"
    using public_book_update [OF public_sample_facts(1,2) hot_wf_empty] .
  obtain view sc' where v: "resolve_view (hot_run [OpUpdate (public_sample 1)]) ?n ?sc = (Some view, sc')"
    "sv_books view = [b]"
    using token_view [OF top, of "hot_run [OpUpdate (public_sample 1)]" ?n] sub b(1) unfolding run by auto
  show ?thesis using view_books_current [OF v(1)] v b(2) by auto
qed

end
