(* ===== verification/RegistryProvider.thy ===== *)
theory RegistryProvider
  imports CoreTypes OrdMap RustText
begin

text \<open>
  Discovery of markets (\<open>pm-data\<close>: \<open>snapshot.rs\<close> and \<open>registry_provider.rs\<close>): a snapshot of the
  registry, the selection of a universe from it, and the provider that reads one page of the Gamma
  listing. HTTP and JSON are libraries: \<open>http_client\<close> and \<open>registry_json\<close> hold their calls.
  A \<open>usize\<close> that comes from a request is a 64-bit word, whose sum wraps as in a release build.
\<close>

section \<open>Snapshots and the selected universe\<close>

record quarantined_market_record =
  qm_record_id :: "string option"
  qm_reason :: string

record registry_snapshot =
  rg_provider :: string
  rg_sequence :: u64
  rg_refreshed_at_ms :: u64
  rg_markets :: "(market_id, market_meta) btree"
  rg_quarantined :: "quarantined_market_record list"

record universe_selection_policy =
  up_active_only :: bool
  up_require_reward :: bool
  up_include_markets :: "market_id list"
  up_exclude_markets :: "market_id list"
  up_bypass_registry :: bool

datatype universe_decision_kind = UniverseIncluded | UniverseExcluded

datatype universe_selection_reason =
  ReasonActive | ReasonExplicitInclude | ReasonExplicitExclude | ReasonInactiveStatus | ReasonMissingReward

datatype universe_bypass_reason = ExplicitSourceBindings

record universe_decision =
  ud_market_id :: market_id
  ud_decision :: universe_decision_kind
  ud_reason :: universe_selection_reason

record selected_universe =
  su_selected_market_ids :: "market_id list"
  su_decisions :: "universe_decision list"
  su_bypassed :: bool
  su_bypass_reason :: "universe_bypass_reason option"

definition decide_market ::
    "universe_selection_policy \<Rightarrow> market_id \<Rightarrow> market_meta
      \<Rightarrow> universe_decision_kind \<times> universe_selection_reason" where
  "decide_market p i m =
     (if i \<in> set (up_exclude_markets p) then (UniverseExcluded, ReasonExplicitExclude)
      else if i \<in> set (up_include_markets p) then (UniverseIncluded, ReasonExplicitInclude)
      else if up_active_only p \<and> \<not> is_tradable m then (UniverseExcluded, ReasonInactiveStatus)
      else if up_require_reward p \<and> mm_reward m = None then (UniverseExcluded, ReasonMissingReward)
      else (UniverseIncluded, ReasonActive))"

fun resolve_markets ::
    "universe_selection_policy \<Rightarrow> (market_id \<times> market_meta) list \<Rightarrow> market_id list
      \<Rightarrow> universe_decision list \<Rightarrow> market_id list \<times> universe_decision list" where
  "resolve_markets p [] selected decisions = (selected, decisions)"
| "resolve_markets p ((i, m) # rest) selected decisions =
     (case decide_market p i m of (decision, reason) \<Rightarrow>
        resolve_markets p rest
          (if decision = UniverseIncluded then selected @ [i] else selected)
          (decisions @ [\<lparr>ud_market_id = i, ud_decision = decision, ud_reason = reason\<rparr>]))"

definition resolve_universe ::
    "registry_snapshot option \<Rightarrow> universe_selection_policy \<Rightarrow> selected_universe" where
  "resolve_universe snapshot p =
     (if up_bypass_registry p
      then \<lparr>su_selected_market_ids = [], su_decisions = [], su_bypassed = True,
            su_bypass_reason = Some ExplicitSourceBindings\<rparr>
      else case snapshot of
        None \<Rightarrow> \<lparr>su_selected_market_ids = [], su_decisions = [], su_bypassed = False, su_bypass_reason = None\<rparr>
      | Some s \<Rightarrow>
          (case resolve_markets p (rg_markets s) [] [] of (selected, decisions) \<Rightarrow>
             \<lparr>su_selected_market_ids = selected, su_decisions = decisions, su_bypassed = False,
              su_bypass_reason = None\<rparr>))"

text \<open>
  A snapshot on disk: serde's printer and decoder and the file system of the standard library are the fields of
  \<open>snapshot_files\<close>. The error is its message.
\<close>

record 'w snapshot_files =
  sf_to_vec_pretty :: "registry_snapshot \<Rightarrow> (string, string) result"
  sf_from_slice :: "string \<Rightarrow> (string, registry_snapshot) result"
  sf_write :: "string \<Rightarrow> string \<Rightarrow> 'w \<Rightarrow> (string, unit) result \<times> 'w"
  sf_read :: "string \<Rightarrow> 'w \<Rightarrow> (string, string) result"

definition write_json ::
    "'w snapshot_files \<Rightarrow> registry_snapshot \<Rightarrow> string \<Rightarrow> 'w \<Rightarrow> (string, unit) result \<times> 'w" where
  "write_json sf snapshot path w =
     (case sf_to_vec_pretty sf snapshot of
        Inl err \<Rightarrow> (Inl (''snapshot serialize failed: '' @ err), w)
      | Inr json \<Rightarrow>
          (case sf_write sf path json w of
             (Inl err, w) \<Rightarrow> (Inl (''snapshot write failed: '' @ err), w)
           | (Inr u, w) \<Rightarrow> (Inr u, w)))"

definition read_json :: "'w snapshot_files \<Rightarrow> string \<Rightarrow> 'w \<Rightarrow> (string, registry_snapshot) result" where
  "read_json sf path w =
     (case sf_read sf path w of
        Inl err \<Rightarrow> Inl (''snapshot read failed: '' @ err)
      | Inr bytes \<Rightarrow>
          (case sf_from_slice sf bytes of
             Inl err \<Rightarrow> Inl (''snapshot parse failed: '' @ err)
           | Inr snapshot \<Rightarrow> Inr snapshot))"

section \<open>Pages of a provider\<close>

record registry_page_request =
  pr_offset :: u64
  pr_limit :: u64

record registry_page =
  pg_markets :: "market_meta list"
  pg_quarantined :: "quarantined_market_record list"
  pg_next_offset :: "u64 option"

datatype registry_provider_error = Transient string | Permanent string

fun is_retryable :: "registry_provider_error \<Rightarrow> bool" where
  "is_retryable (Transient m) = True"
| "is_retryable (Permanent m) = False"

fun provider_error_text :: "registry_provider_error \<Rightarrow> string" where
  "provider_error_text (Transient m) = m"
| "provider_error_text (Permanent m) = m"

section \<open>The records of the Gamma listing\<close>

datatype string_array_field = Encoded string | Plain "string list"

text \<open>\<open>'n\<close> is the number type of the JSON library.\<close>

datatype 'n scalar_field = ScalarString string | ScalarNumber 'n

record 'n gamma_market =
  gm_id :: string
  gm_condition_id :: "string option"
  gm_outcomes :: "string_array_field option"
  gm_clob_token_ids :: "string_array_field option"
  gm_active :: bool
  gm_closed :: bool
  gm_enable_order_book :: bool
  gm_order_price_min_tick_size :: "'n scalar_field option"
  gm_tick_size :: "'n scalar_field option"
  gm_order_min_size :: "'n scalar_field option"
  gm_minimum_order_size :: "'n scalar_field option"
  gm_rewards_min_size :: "'n scalar_field option"
  gm_rewards_max_spread :: "'n scalar_field option"

record 'n gamma_event =
  ge_markets :: "'n gamma_market list"

text \<open>The JSON library: the decoder of a page, the decoder of an array of strings and the printer of a number.\<close>

record 'n registry_json =
  rj_events :: "string \<Rightarrow> (string, 'n gamma_event list) result"
  rj_strings :: "string \<Rightarrow> (string, string list) result"
  rj_number_text :: "'n \<Rightarrow> string"

definition map_err :: "('e \<Rightarrow> 'f) \<Rightarrow> ('e, 'a) result \<Rightarrow> ('f, 'a) result" where
  "map_err f r = (case r of Inl e \<Rightarrow> Inl (f e) | Inr a \<Rightarrow> Inr a)"

lemma map_err_Inr [result_facts]: "map_err f r = Inr a \<longleftrightarrow> r = Inr a"
  by (auto simp: map_err_def split: sum.splits)

lemma map_err_Inl [result_facts]: "map_err f r = Inl e \<longleftrightarrow> (\<exists>d. r = Inl d \<and> e = f d)"
  by (auto simp: map_err_def split: sum.splits)

fun into_vec :: "'n registry_json \<Rightarrow> string_array_field \<Rightarrow> (registry_provider_error, string list) result" where
  "into_vec j (Encoded raw) =
     map_err (\<lambda>err. Permanent (''failed to parse encoded array: '' @ err)) (rj_strings j raw)"
| "into_vec j (Plain vs) = Inr vs"

fun into_string :: "'n registry_json \<Rightarrow> 'n scalar_field \<Rightarrow> string" where
  "into_string j (ScalarString s) = s"
| "into_string j (ScalarNumber n) = rj_number_text j n"

record quarantine_reason =
  qr_record_id :: "string option"
  qr_reason :: string

definition quarantine :: "string \<Rightarrow> string \<Rightarrow> quarantine_reason" where
  "quarantine i r = \<lparr>qr_record_id = Some i, qr_reason = r\<rparr>"

fun outcome_assets ::
    "(string \<times> string) list \<Rightarrow> outcome_token option \<Rightarrow> outcome_token option
      \<Rightarrow> outcome_token option \<times> outcome_token option" where
  "outcome_assets [] yes no = (yes, no)"
| "outcome_assets ((outcome, token) # rest) yes no =
     (if ascii_lowercase outcome = ''yes''
      then outcome_assets rest (Some (outcome_token_new token OutcomeYes)) no
      else if ascii_lowercase outcome = ''no''
      then outcome_assets rest yes (Some (outcome_token_new token OutcomeNo))
      else outcome_assets rest yes no)"

definition gamma_reward :: "'n registry_json \<Rightarrow> 'n gamma_market \<Rightarrow> reward_params option" where
  "gamma_reward j m =
     (let reward_min_size = map_option (into_string j) (gm_rewards_min_size m);
          reward_max_spread = map_option (into_string j) (gm_rewards_max_spread m)
      in if reward_min_size \<noteq> None \<or> reward_max_spread \<noteq> None
         then Some \<lparr>rp_rate_bps = None, rp_max_spread = reward_max_spread, rp_min_size = reward_min_size,
                    rp_min_notional = None, rp_updated_at_ms = None, rp_freshness = RewardUnknown\<rparr>
         else None)"

definition gamma_status :: "'n gamma_market \<Rightarrow> market_status" where
  "gamma_status m =
     (if gm_closed m then MarketClosed
      else if gm_active m \<and> gm_enable_order_book m then MarketActive
      else if gm_active m then MarketSuspended
      else MarketUnknown)"

definition normalize_gamma_market ::
    "'n registry_json \<Rightarrow> 'n gamma_market \<Rightarrow> (quarantine_reason, market_meta) result" where
  "normalize_gamma_market j m =
     bind_result (ok_or (quarantine (gm_id m) ''missing_outcomes'') (gm_outcomes m)) (\<lambda>outcome_field.
     bind_result (map_err (\<lambda>_. quarantine (gm_id m) ''invalid_outcomes'') (into_vec j outcome_field)) (\<lambda>outcomes.
     bind_result (ok_or (quarantine (gm_id m) ''missing_clob_token_ids'') (gm_clob_token_ids m)) (\<lambda>token_field.
     bind_result (map_err (\<lambda>_. quarantine (gm_id m) ''invalid_clob_token_ids'') (into_vec j token_field)) (\<lambda>tokens.
       if length outcomes \<noteq> length tokens
       then Inl (quarantine (gm_id m) ''mismatched_outcomes_and_tokens'')
       else case outcome_assets (zip outcomes tokens) None None of
         (Some yes, Some no) \<Rightarrow>
           bind_result (ok_or (quarantine (gm_id m) ''missing_tick_size'')
                          (or_else (gm_order_price_min_tick_size m) (gm_tick_size m))) (\<lambda>tick.
             Inr \<lparr>mm_market_id = gm_id m, mm_yes_asset = yes, mm_no_asset = no,
                  mm_condition_id = gm_condition_id m, mm_tick_size = into_string j tick,
                  mm_min_order_size =
                    map_option (into_string j) (or_else (gm_order_min_size m) (gm_minimum_order_size m)),
                  mm_status = gamma_status m, mm_reward = gamma_reward j m\<rparr>)
       | _ \<Rightarrow> Inl (quarantine (gm_id m) ''missing_yes_no_pair'')))))"

fun sort_records ::
    "'n registry_json \<Rightarrow> string \<Rightarrow> 'n gamma_market list \<Rightarrow> market_meta list
      \<Rightarrow> quarantined_market_record list \<Rightarrow> market_meta list \<times> quarantined_market_record list" where
  "sort_records j name [] markets quarantined = (markets, quarantined)"
| "sort_records j name (m # rest) markets quarantined =
     (case normalize_gamma_market j m of
        Inr market \<Rightarrow> sort_records j name rest (markets @ [market]) quarantined
      | Inl reason \<Rightarrow>
          sort_records j name rest markets
            (quarantined @ [\<lparr>qm_record_id = qr_record_id reason, qm_reason = name @ '': '' @ qr_reason reason\<rparr>]))"

definition parse_page ::
    "'n registry_json \<Rightarrow> string \<Rightarrow> string \<Rightarrow> registry_page_request
      \<Rightarrow> (registry_provider_error, registry_page) result" where
  "parse_page j name body request =
     bind_result (map_err (\<lambda>err. Permanent (''failed to parse gamma events: '' @ err)) (rj_events j body)) (\<lambda>events.
       case sort_records j name (concat (map ge_markets events)) [] [] of (markets, quarantined) \<Rightarrow>
         Inr \<lparr>pg_markets = markets, pg_quarantined = quarantined,
              pg_next_offset =
                (if pr_limit request = 0 \<or> length markets + length quarantined < unat (pr_limit request)
                 then None else Some (pr_offset request + pr_limit request))\<rparr>)"

section \<open>The Gamma provider\<close>

text \<open>
  The HTTP client: a GET with its query, the status and the body of a response, and the printed form of a
  status.
\<close>

record ('w, 'r) http_client =
  hc_get :: "string \<Rightarrow> (string \<times> string) list \<Rightarrow> 'w \<Rightarrow> (string, 'r) result \<times> 'w"
  hc_status :: "'r \<Rightarrow> 16 word"
  hc_text :: "'r \<Rightarrow> 'w \<Rightarrow> (string, string) result \<times> 'w"
  hc_status_text :: "16 word \<Rightarrow> string"

record ('w, 'r) gamma_provider =
  gp_provider_name :: string
  gp_client :: "('w, 'r) http_client"
  gp_base_url :: string

definition with_client_and_base_url :: "string \<Rightarrow> ('w, 'r) http_client \<Rightarrow> string \<Rightarrow> ('w, 'r) gamma_provider" where
  "with_client_and_base_url name client base_url =
     \<lparr>gp_provider_name = name, gp_client = client, gp_base_url = base_url\<rparr>"

definition gamma_provider_new :: "('w, 'r) http_client \<Rightarrow> string \<Rightarrow> ('w, 'r) gamma_provider" where
  "gamma_provider_new client name = with_client_and_base_url name client ''https://gamma-api.polymarket.com''"

definition events_url :: "('w, 'r) gamma_provider \<Rightarrow> string" where
  "events_url gp = rev (dropWhile (\<lambda>c. c = CHR ''/'') (rev (gp_base_url gp))) @ ''/events''"

definition events_query :: "registry_page_request \<Rightarrow> (string \<times> string) list" where
  "events_query request =
     [(''active'', ''true''), (''closed'', ''false''), (''limit'', show_word (pr_limit request)),
      (''offset'', show_word (pr_offset request))]"

definition gamma_fetch_page ::
    "'n registry_json \<Rightarrow> ('w, 'r) gamma_provider \<Rightarrow> registry_page_request \<Rightarrow> 'w
      \<Rightarrow> (registry_provider_error, registry_page) result \<times> 'w" where
  "gamma_fetch_page j gp request w =
     (let client = gp_client gp in
      case hc_get client (events_url gp) (events_query request) w of
        (Inl err, w) \<Rightarrow> (Inl (Transient (''gamma request failed: '' @ err)), w)
      | (Inr response, w) \<Rightarrow>
     (let status = hc_status client response in
      case hc_text client response w of
        (Inl err, w) \<Rightarrow> (Inl (Transient (''gamma response body read failed: '' @ err)), w)
      | (Inr body, w) \<Rightarrow>
          if status = 429 \<or> 500 \<le> status \<and> status < 600
          then (Inl (Transient (''gamma returned '' @ hc_status_text client status)), w)
          else if \<not> (200 \<le> status \<and> status < 300)
          then (Inl (Permanent (''gamma returned '' @ hc_status_text client status)), w)
          else (parse_page j (gp_provider_name gp) body request, w)))"

section \<open>Selection\<close>

text \<open>The loop records one decision for each market and selects the included ones, both in their order.\<close>

lemma resolve_markets_eq:
  "resolve_markets p ms selected decisions =
     (selected @ map fst (filter (\<lambda>(i, m). fst (decide_market p i m) = UniverseIncluded) ms),
      decisions @ map (\<lambda>(i, m). \<lparr>ud_market_id = i, ud_decision = fst (decide_market p i m),
                                 ud_reason = snd (decide_market p i m)\<rparr>) ms)"
  by (induction ms arbitrary: selected decisions) (auto split: prod.splits)

lemma decide_included_iff:
  "fst (decide_market p i m) = UniverseIncluded \<longleftrightarrow>
     i \<notin> set (up_exclude_markets p) \<and>
     (i \<in> set (up_include_markets p) \<or>
      (up_active_only p \<longrightarrow> is_tradable m) \<and> (up_require_reward p \<longrightarrow> mm_reward m \<noteq> None))"
  by (auto simp: decide_market_def)

lemma resolve_universe_Some:
  assumes "\<not> up_bypass_registry p"
  shows "su_selected_market_ids (resolve_universe (Some s) p) =
           map fst (filter (\<lambda>(i, m). fst (decide_market p i m) = UniverseIncluded) (rg_markets s))"
    and "map ud_market_id (su_decisions (resolve_universe (Some s) p)) = map fst (rg_markets s)"
  using assms by (simp_all add: resolve_universe_def resolve_markets_eq comp_def split_beta)

lemma sorted_wrt_map_filter:
  "sorted_wrt P (map f xs) \<Longrightarrow> sorted_wrt P (map f (filter Q xs))"
  by (induction xs) auto

text \<open>
  Unless the registry is bypassed, the universe selected from a snapshot has one decision for each of its
  markets, in the order of their ids, and selects exactly the markets that are not excluded and are either
  included by name or pass the two filters of the policy (tradable, rewarded); the ids it selects are
  ascending.
\<close>

theorem universe_decides_each_market:
  assumes "bt_wf (rg_markets s)" and "\<not> up_bypass_registry p"
  defines "u \<equiv> resolve_universe (Some s) p"
  shows "map ud_market_id (su_decisions u) = map fst (rg_markets s) \<and>
     sorted_wrt (<) (su_selected_market_ids u) \<and>
     (\<forall>i. i \<in> set (su_selected_market_ids u) \<longleftrightarrow>
        (\<exists>m. bt_get (rg_markets s) i = Some m \<and> i \<notin> set (up_exclude_markets p) \<and>
           (i \<in> set (up_include_markets p) \<or>
            (up_active_only p \<longrightarrow> is_tradable m) \<and> (up_require_reward p \<longrightarrow> mm_reward m \<noteq> None))))"
proof -
  note sel = resolve_universe_Some [OF assms(2), of s]
  have "i \<in> set (su_selected_market_ids u) \<longleftrightarrow>
      (\<exists>m. (i, m) \<in> set (rg_markets s) \<and> fst (decide_market p i m) = UniverseIncluded)" for i
    by (force simp: u_def sel)
  moreover have "sorted_wrt (<) (su_selected_market_ids u)"
    using assms(1) by (simp add: u_def sel bt_wf_def sorted_wrt_map_filter)
  ultimately show ?thesis
    by (simp add: bt_get_iff_entry [OF assms(1)] decide_included_iff u_def sel(2))
qed

definition sample_market :: "string \<Rightarrow> market_status \<Rightarrow> bool \<Rightarrow> market_meta" where
  "sample_market i st rewarded =
     \<lparr>mm_market_id = i, mm_yes_asset = outcome_token_new ''y'' OutcomeYes,
      mm_no_asset = outcome_token_new ''n'' OutcomeNo, mm_condition_id = None, mm_tick_size = ''0.01'',
      mm_min_order_size = None, mm_status = st,
      mm_reward = (if rewarded
                   then Some \<lparr>rp_rate_bps = Some 12, rp_max_spread = None, rp_min_size = None,
                              rp_min_notional = None, rp_updated_at_ms = None, rp_freshness = RewardFresh\<rparr>
                   else None)\<rparr>"

definition sample_snapshot :: registry_snapshot where
  "sample_snapshot =
     \<lparr>rg_provider = ''fixture'', rg_sequence = 1, rg_refreshed_at_ms = 0,
      rg_markets = [(''m1'', sample_market ''m1'' MarketActive True),
                    (''m2'', sample_market ''m2'' MarketActive False),
                    (''m3'', sample_market ''m3'' MarketClosed True),
                    (''m4'', sample_market ''m4'' MarketActive True)],
      rg_quarantined = []\<rparr>"

definition sample_policy :: universe_selection_policy where
  "sample_policy =
     \<lparr>up_active_only = True, up_require_reward = True, up_include_markets = [''m2''],
      up_exclude_markets = [''m1''], up_bypass_registry = False\<rparr>"

theorem universe_decides_each_market_witness:
  "su_selected_market_ids (resolve_universe (Some sample_snapshot) sample_policy) = [''m2'', ''m4''] \<and>
   (''m4'' \<in> set (su_selected_market_ids (resolve_universe (Some sample_snapshot) sample_policy)) \<longleftrightarrow>
     (\<exists>m. bt_get (rg_markets sample_snapshot) ''m4'' = Some m \<and> ''m4'' \<notin> set (up_exclude_markets sample_policy) \<and>
       (''m4'' \<in> set (up_include_markets sample_policy) \<or>
        (up_active_only sample_policy \<longrightarrow> is_tradable m) \<and>
        (up_require_reward sample_policy \<longrightarrow> mm_reward m \<noteq> None))))"
proof -
  have "bt_wf (rg_markets sample_snapshot)" by (simp add: sample_snapshot_def bt_wf_def)
  moreover have "\<not> up_bypass_registry sample_policy" by (simp add: sample_policy_def)
  ultimately have "''m4'' \<in> set (su_selected_market_ids (resolve_universe (Some sample_snapshot) sample_policy)) \<longleftrightarrow>
     (\<exists>m. bt_get (rg_markets sample_snapshot) ''m4'' = Some m \<and> ''m4'' \<notin> set (up_exclude_markets sample_policy) \<and>
       (''m4'' \<in> set (up_include_markets sample_policy) \<or>
        (up_active_only sample_policy \<longrightarrow> is_tradable m) \<and>
        (up_require_reward sample_policy \<longrightarrow> mm_reward m \<noteq> None)))"
    by (rule universe_decides_each_market [THEN conjunct2, THEN conjunct2, THEN spec])
  moreover have "su_selected_market_ids (resolve_universe (Some sample_snapshot) sample_policy) = [''m2'', ''m4'']"
    by (simp add: resolve_universe_def sample_snapshot_def sample_policy_def decide_market_def is_tradable_def
        sample_market_def)
  ultimately show ?thesis by (rule conjI [rotated])
qed

section \<open>Normalisation\<close>

abbreviation lowered_outcomes :: "(string \<times> string) list \<Rightarrow> (string \<times> string) list" where
  "lowered_outcomes ps \<equiv> map (\<lambda>(outcome, token). (ascii_lowercase outcome, token)) ps"

text \<open>The loop over the outcomes keeps the token of the last \<open>yes\<close> and of the last \<open>no\<close>.\<close>

lemma outcome_assets_last:
  "outcome_assets ps yes no =
     (case map_of (rev (lowered_outcomes ps)) ''yes'' of
        None \<Rightarrow> yes | Some t \<Rightarrow> Some (outcome_token_new t OutcomeYes),
      case map_of (rev (lowered_outcomes ps)) ''no'' of
        None \<Rightarrow> no | Some t \<Rightarrow> Some (outcome_token_new t OutcomeNo))"
proof (induction ps arbitrary: yes no)
  case (Cons p ps)
  obtain outcome token where p: "p = (outcome, token)" by (cases p)
  consider "ascii_lowercase outcome = ''yes''" | "ascii_lowercase outcome = ''no''"
    | "ascii_lowercase outcome \<noteq> ''yes''" "ascii_lowercase outcome \<noteq> ''no''" by blast
  then show ?case
    by cases (simp_all add: p Cons.IH map_add_def split: option.splits)
qed simp

lemma both_Some_Inr:
  "(case (a, b) of (Some x, Some y) \<Rightarrow> f x y | _ \<Rightarrow> Inl e) = Inr m \<longleftrightarrow>
     (\<exists>x y. a = Some x \<and> b = Some y \<and> f x y = Inr m)"
  by (auto split: option.splits)

lemma if_Inl_Inr: "(if b then Inl e else r) = Inr m \<longleftrightarrow> \<not> b \<and> r = Inr m"
  by simp

lemma token_Some_iff:
  "(case r of None \<Rightarrow> None | Some t \<Rightarrow> Some (outcome_token_new t s)) = Some x \<longleftrightarrow>
     (\<exists>t. r = Some t \<and> x = outcome_token_new t s)"
  by (auto split: option.splits)

lemma gamma_status_tradable:
  "gamma_status m = MarketActive \<longleftrightarrow> gm_active m \<and> gm_enable_order_book m \<and> \<not> gm_closed m"
  by (auto simp: gamma_status_def)

text \<open>The values and the errors of a list of results, each in their order.\<close>

fun oks :: "('e, 'a) result list \<Rightarrow> 'a list" where
  "oks [] = []"
| "oks (Inr a # rs) = a # oks rs"
| "oks (Inl e # rs) = oks rs"

fun errs :: "('e, 'a) result list \<Rightarrow> 'e list" where
  "errs [] = []"
| "errs (Inr a # rs) = errs rs"
| "errs (Inl e # rs) = e # errs rs"

lemma length_oks_errs [simp]: "length (oks rs) + length (errs rs) = length rs"
  by (induction rs rule: oks.induct) auto

lemma oks_append [simp]: "oks (rs @ qs) = oks rs @ oks qs"
  by (induction rs rule: oks.induct) auto

lemma errs_append [simp]: "errs (rs @ qs) = errs rs @ errs qs"
  by (induction rs rule: errs.induct) auto

lemma oks_errs_Nil: "rs = [] \<longleftrightarrow> oks rs = [] \<and> errs rs = []"
  by (cases rs rule: oks.cases) auto

definition normalized :: "'n registry_json \<Rightarrow> 'n gamma_event list \<Rightarrow> (quarantine_reason, market_meta) result list" where
  "normalized j events = map (normalize_gamma_market j) (concat (map ge_markets events))"

definition quarantine_record :: "string \<Rightarrow> quarantine_reason \<Rightarrow> quarantined_market_record" where
  "quarantine_record name r = \<lparr>qm_record_id = qr_record_id r, qm_reason = name @ '': '' @ qr_reason r\<rparr>"

lemma normalized_append: "normalized j (es @ fs) = normalized j es @ normalized j fs"
  by (simp add: normalized_def)

text \<open>A page holds every record of its events, as a market or as a quarantine record, in their order.\<close>

lemma sort_records_eq:
  "sort_records j name ms markets quarantined =
     (markets @ oks (map (normalize_gamma_market j) ms),
      quarantined @ map (quarantine_record name) (errs (map (normalize_gamma_market j) ms)))"
  by (induction ms arbitrary: markets quarantined) (auto simp: quarantine_record_def split: sum.splits)

lemma parse_page_Inr:
  "parse_page j name body request = Inr page \<longleftrightarrow>
     (\<exists>events. rj_events j body = Inr events \<and>
        page = \<lparr>pg_markets = oks (normalized j events),
                pg_quarantined = map (quarantine_record name) (errs (normalized j events)),
                pg_next_offset =
                  (if pr_limit request = 0 \<or> length (normalized j events) < unat (pr_limit request)
                   then None else Some (pr_offset request + pr_limit request))\<rparr>)"
proof (cases "rj_events j body")
  case (Inr events)
  then have "parse_page j name body request =
      Inr \<lparr>pg_markets = oks (normalized j events),
           pg_quarantined = map (quarantine_record name) (errs (normalized j events)),
           pg_next_offset =
             (if pr_limit request = 0 \<or> length (normalized j events) < unat (pr_limit request)
              then None else Some (pr_offset request + pr_limit request))\<rparr>"
    by (simp add: parse_page_def map_err_def sort_records_eq normalized_def)
  with Inr show ?thesis by auto
qed (simp add: parse_page_def map_err_def)


end
