(* ===== verification/MarketRegistry.thy ===== *)
theory MarketRegistry
  imports RegistryProvider
begin

text \<open>
  The market registry (\<open>pm-data/src/market_registry.rs\<close>): the retries of one page, the loop over the pages
  of a listing and the refresh that keeps the last good snapshot. The loop over the pages ends only when the
  provider says so, so it is a partial function whose \<open>None\<close> is a refresh that never returns. The locale
  \<open>paged_provider\<close> is what the paging relies on; the Gamma provider implements it. One refresh runs at a
  time.
\<close>

section \<open>The state and the policies\<close>

text \<open>A \<open>Duration\<close> is its number of nanoseconds, at most \<open>Duration::MAX\<close>.\<close>

type_synonym duration = nat

definition duration_max :: duration where
  "duration_max = (2 ^ 64 - 1) * 1000000000 + 999999999"

definition duration_saturating_mul :: "duration \<Rightarrow> u32 \<Rightarrow> duration" where
  "duration_saturating_mul d k = (if d * unat k \<le> duration_max then d * unat k else duration_max)"

record retry_policy =
  ry_max_retries :: u64
  ry_initial_backoff :: duration
  ry_max_backoff :: duration

record registry_refresh_policy =
  rf_page_size :: u64
  rf_refresh_interval :: duration
  rf_retry_policy :: retry_policy

record registry_state =
  rs_current_snapshot :: "registry_snapshot option"
  rs_current_universe :: "selected_universe option"
  rs_last_good_snapshot :: "registry_snapshot option"
  rs_last_good_universe :: "selected_universe option"
  rs_next_sequence :: u64

definition registry_state_default :: registry_state where
  "registry_state_default =
     \<lparr>rs_current_snapshot = None, rs_current_universe = None, rs_last_good_snapshot = None,
      rs_last_good_universe = None, rs_next_sequence = 0\<rparr>"

record registry_refresh_outcome =
  ro_snapshot :: registry_snapshot
  ro_universe :: selected_universe
  ro_degraded :: bool
  ro_attempts :: u64
  ro_error :: "string option"

record registry_refresh_error =
  rre_message :: string

text \<open>The trait of the providers: a name and a page of a listing, fetched in the world \<open>'w\<close>.\<close>

record 'w registry_provider =
  pv_provider_name :: string
  pv_fetch_page :: "registry_page_request \<Rightarrow> 'w \<Rightarrow> (registry_provider_error, registry_page) result \<times> 'w"

record 'w market_registry =
  mr_provider :: "'w registry_provider"
  mr_refresh_policy :: registry_refresh_policy
  mr_selection_policy :: universe_selection_policy

definition market_registry_new ::
    "'w registry_provider \<Rightarrow> registry_refresh_policy \<Rightarrow> universe_selection_policy
      \<Rightarrow> 'w market_registry \<times> registry_state" where
  "market_registry_new provider refresh_policy selection_policy =
     (\<lparr>mr_provider = provider, mr_refresh_policy = refresh_policy, mr_selection_policy = selection_policy\<rparr>,
      registry_state_default)"

text \<open>The runtime: a sleep, and the nanoseconds from 1970 to now (\<open>None\<close> on a clock set before it).\<close>

record 'w registry_runtime =
  rt_sleep :: "duration \<Rightarrow> 'w \<Rightarrow> 'w"
  rt_since_epoch :: "'w \<Rightarrow> nat option \<times> 'w"

definition now_ms :: "'w registry_runtime \<Rightarrow> 'w \<Rightarrow> u64 \<times> 'w" where
  "now_ms rt w = (case rt_since_epoch rt w of (t, w) \<Rightarrow> (of_nat (unwrap_or 0 t div 1000000), w))"

definition gamma_registry_provider ::
    "'n registry_json \<Rightarrow> ('w, 'r) gamma_provider \<Rightarrow> 'w registry_provider" where
  "gamma_registry_provider j gp =
     \<lparr>pv_provider_name = gp_provider_name gp, pv_fetch_page = gamma_fetch_page j gp\<rparr>"

section \<open>Operations\<close>

text \<open>\<open>1u32.checked_shl\<close> refuses a shift by 32 or more.\<close>

definition backoff_for_retry :: "retry_policy \<Rightarrow> u64 \<Rightarrow> duration" where
  "backoff_for_retry rp retry_index =
     (let shift = unat (ucast retry_index :: u32);
          multiplier = (if shift < 32 then push_bit shift 1 else - 1)
      in min (duration_saturating_mul (ry_initial_backoff rp) multiplier) (ry_max_backoff rp))"

definition is_refresh_due :: "registry_refresh_policy \<Rightarrow> u64 option \<Rightarrow> u64 \<Rightarrow> bool" where
  "is_refresh_due rf last_refresh_ms now =
     (case last_refresh_ms of
        None \<Rightarrow> True
      | Some t \<Rightarrow> of_nat (rf_refresh_interval rf div 1000000) \<le> saturating_sub now t)"

lemma unat_next_retry:
  assumes "(r :: u64) < m"
  shows "unat (r + 1) = Suc (unat r)"
proof -
  have "unat m < 18446744073709551616" by simp
  then have "Suc (unat r) < 18446744073709551616"
    using assms unfolding word_less_nat_alt by linarith
  then show ?thesis by (simp add: unat_word_ariths)
qed

function fetch_page_loop ::
    "'w registry_runtime \<Rightarrow> 'w registry_provider \<Rightarrow> retry_policy \<Rightarrow> registry_page_request \<Rightarrow> u64 \<Rightarrow> u64 \<Rightarrow> 'w
      \<Rightarrow> (registry_provider_error \<times> u64, registry_page) result \<times> u64 \<times> 'w" where
  "fetch_page_loop rt pv rp request retries attempts w =
     (let attempts = attempts + 1 in
      case pv_fetch_page pv request w of
        (Inr page, w) \<Rightarrow> (Inr page, attempts, w)
      | (Inl err, w) \<Rightarrow>
          if is_retryable err \<and> retries < ry_max_retries rp
          then fetch_page_loop rt pv rp request (retries + 1) attempts
                 (rt_sleep rt (backoff_for_retry rp retries) w)
          else (Inl (err, attempts), attempts, w))"
  by pat_completeness auto

termination
  by (relation "measure (\<lambda>(rt, pv, rp, request, retries, attempts, w). unat (ry_max_retries rp) - unat retries)")
    (auto simp: unat_next_retry word_less_nat_alt)

declare fetch_page_loop.simps [simp del]

definition fetch_page_with_retry ::
    "'w registry_runtime \<Rightarrow> 'w registry_provider \<Rightarrow> retry_policy \<Rightarrow> registry_page_request \<Rightarrow> u64 \<Rightarrow> 'w
      \<Rightarrow> (registry_provider_error \<times> u64, registry_page) result \<times> u64 \<times> 'w" where
  "fetch_page_with_retry rt pv rp request attempts w = fetch_page_loop rt pv rp request 0 attempts w"

partial_function (option) collect_pages ::
    "'w registry_runtime \<Rightarrow> 'w registry_provider \<Rightarrow> registry_refresh_policy \<Rightarrow> u64
      \<Rightarrow> (market_id, market_meta) btree \<Rightarrow> quarantined_market_record list \<Rightarrow> u64 \<Rightarrow> 'w
      \<Rightarrow> ((registry_provider_error \<times> u64,
           (market_id, market_meta) btree \<times> quarantined_market_record list \<times> u64) result \<times> 'w) option" where
  "collect_pages rt pv rf offset markets quarantined attempts w =
     (case fetch_page_with_retry rt pv (rf_retry_policy rf)
             \<lparr>pr_offset = offset, pr_limit = rf_page_size rf\<rparr> attempts w of
        (Inl e, attempts, w) \<Rightarrow> Some (Inl e, w)
      | (Inr page, attempts, w) \<Rightarrow>
          (let markets = fold (\<lambda>m. bt_insert (mm_market_id m) m) (pg_markets page) markets;
               quarantined = quarantined @ pg_quarantined page
           in case pg_next_offset page of
                Some next_offset \<Rightarrow> collect_pages rt pv rf next_offset markets quarantined attempts w
              | None \<Rightarrow> Some (Inr (markets, quarantined, attempts), w)))"

definition collect_snapshot ::
    "'w registry_runtime \<Rightarrow> 'w market_registry \<Rightarrow> registry_state \<Rightarrow> 'w
      \<Rightarrow> ((registry_provider_error \<times> u64, registry_snapshot \<times> u64) result \<times> registry_state \<times> 'w) option" where
  "collect_snapshot rt mr st w =
     (case collect_pages rt (mr_provider mr) (mr_refresh_policy mr) 0 [] [] 0 w of
        None \<Rightarrow> None
      | Some (Inl e, w) \<Rightarrow> Some (Inl e, st, w)
      | Some (Inr (markets, quarantined, attempts), w) \<Rightarrow>
          (let st = st\<lparr>rs_next_sequence := rs_next_sequence st + 1\<rparr> in
           case now_ms rt w of (now, w) \<Rightarrow>
             Some (Inr (\<lparr>rg_provider = pv_provider_name (mr_provider mr), rg_sequence = rs_next_sequence st,
                         rg_refreshed_at_ms = now, rg_markets = markets, rg_quarantined = quarantined\<rparr>,
                        attempts), st, w)))"

definition refresh_once ::
    "'w registry_runtime \<Rightarrow> 'w market_registry \<Rightarrow> registry_state \<Rightarrow> 'w
      \<Rightarrow> ((registry_refresh_error, registry_refresh_outcome) result \<times> registry_state \<times> 'w) option" where
  "refresh_once rt mr st w =
     (case collect_snapshot rt mr st w of
        None \<Rightarrow> None
      | Some (Inr (snapshot, attempts), st, w) \<Rightarrow>
          (let universe = resolve_universe (Some snapshot) (mr_selection_policy mr);
               st = st\<lparr>rs_current_snapshot := Some snapshot, rs_current_universe := Some universe,
                       rs_last_good_snapshot := Some snapshot, rs_last_good_universe := Some universe\<rparr>
           in Some (Inr \<lparr>ro_snapshot = snapshot, ro_universe = universe, ro_degraded = False,
                         ro_attempts = attempts, ro_error = None\<rparr>, st, w))
      | Some (Inl (err, attempts), st, w) \<Rightarrow>
          (case (rs_last_good_snapshot st, rs_last_good_universe st) of
             (Some snapshot, Some universe) \<Rightarrow>
               Some (Inr \<lparr>ro_snapshot = snapshot, ro_universe = universe, ro_degraded = True,
                          ro_attempts = attempts, ro_error = Some (provider_error_text err)\<rparr>, st, w)
           | _ \<Rightarrow> Some (Inl \<lparr>rre_message = provider_error_text err\<rparr>, st, w)))"

section \<open>Retries\<close>

text \<open>The delays double from the initial one up to the cap.\<close>

lemma backoff_doubles_to_cap:
  assumes "n < 32"
  shows "backoff_for_retry rp (of_nat n) =
    min (min (ry_initial_backoff rp * 2 ^ n) duration_max) (ry_max_backoff rp)"
proof -
  have "n < 2 ^ 32" using assms by (rule less_trans) simp
  then have "unat (ucast (of_nat n :: u64) :: u32) = n"
    by (simp add: unsigned_ucast_eq unat_of_nat take_bit_nat_eq_self_iff)
  moreover have "unat (of_nat (2 ^ n) :: u32) = 2 ^ n"
    using assms power_strict_increasing [of n 32 "2 :: nat"] by (intro unat_of_nat_less) simp
  then have "unat (push_bit n (1 :: u32)) = 2 ^ n" by (simp add: push_bit_eq_mult)
  ultimately show ?thesis
    using assms by (auto simp: backoff_for_retry_def Let_def duration_saturating_mul_def min_def)
qed

lemma backoff_at_most_cap: "backoff_for_retry rp i \<le> ry_max_backoff rp"
  by (simp add: backoff_for_retry_def Let_def)

text \<open>The world before the request of retry number \<open>r + n\<close>, when the requests before it failed.\<close>

fun retry_world ::
    "'w registry_runtime \<Rightarrow> 'w registry_provider \<Rightarrow> retry_policy \<Rightarrow> registry_page_request \<Rightarrow> u64 \<Rightarrow> nat \<Rightarrow> 'w \<Rightarrow> 'w" where
  "retry_world rt pv rp request r 0 w = w"
| "retry_world rt pv rp request r (Suc n) w =
     retry_world rt pv rp request (r + 1) n
       (rt_sleep rt (backoff_for_retry rp r) (snd (pv_fetch_page pv request w)))"

lemma retryable_Transient: "is_retryable e \<longleftrightarrow> (\<exists>m. e = Transient m)"
  by (cases e) auto

definition with_attempts :: "('e, 'a) result \<Rightarrow> u64 \<Rightarrow> ('e \<times> u64, 'a) result" where
  "with_attempts r attempts = map_err (\<lambda>e. (e, attempts)) r"

lemma fetch_page_loop_again:
  assumes "pv_fetch_page pv request w = (Inl (Transient m), w')" and "r < ry_max_retries rp"
  shows "fetch_page_loop rt pv rp request r attempts w =
    fetch_page_loop rt pv rp request (r + 1) (attempts + 1) (rt_sleep rt (backoff_for_retry rp r) w')"
  using assms by (subst fetch_page_loop.simps) (simp add: Let_def)

lemma fetch_page_loop_stop:
  assumes "pv_fetch_page pv request w = (result, w')"
    and "\<not> (\<exists>m. result = Inl (Transient m) \<and> r < ry_max_retries rp)"
  shows "fetch_page_loop rt pv rp request r attempts w =
    (with_attempts result (attempts + 1), attempts + 1, w')"
  using assms
  by (subst fetch_page_loop.simps)
    (auto simp: Let_def with_attempts_def map_err_def retryable_Transient split: sum.splits)

lemma fetch_page_loop_trace:
  assumes "r \<le> ry_max_retries rp"
  shows "\<exists>n \<le> unat (ry_max_retries rp) - unat r. \<exists>result w'.
     (\<forall>i < n. \<exists>m. fst (pv_fetch_page pv request (retry_world rt pv rp request r i w)) = Inl (Transient m)) \<and>
     pv_fetch_page pv request (retry_world rt pv rp request r n w) = (result, w') \<and>
     fetch_page_loop rt pv rp request r attempts w =
       (with_attempts result (attempts + of_nat (Suc n)), attempts + of_nat (Suc n), w') \<and>
     ((\<exists>m. result = Inl (Transient m)) \<longrightarrow> n = unat (ry_max_retries rp) - unat r)"
  using assms
proof (induction "unat (ry_max_retries rp) - unat r" arbitrary: r attempts w)
  case 0
  obtain result w' where fetch: "pv_fetch_page pv request w = (result, w')" by fastforce
  moreover have "\<not> r < ry_max_retries rp" using "0.hyps" by (simp add: word_less_nat_alt)
  ultimately show ?case by (intro exI [of _ 0]) (simp add: fetch_page_loop_stop word_less_nat_alt)
next
  case (Suc k)
  have less: "r < ry_max_retries rp" using Suc.hyps(2) by (simp add: word_less_nat_alt)
  obtain result w' where fetch: "pv_fetch_page pv request w = (result, w')" by fastforce
  show ?case
  proof (cases "\<exists>m. result = Inl (Transient m)")
    case False
    then show ?thesis using fetch by (intro exI [of _ 0]) (simp add: fetch_page_loop_stop)
  next
    case True
    then obtain m where result: "result = Inl (Transient m)" by blast
    define w2 where "w2 = rt_sleep rt (backoff_for_retry rp r) w'"
    have suc: "unat (r + 1) = Suc (unat r)" by (rule unat_next_retry [OF less])
    have k: "k = unat (ry_max_retries rp) - unat (r + 1)" and le: "r + 1 \<le> ry_max_retries rp"
      using Suc.hyps(2) suc by (simp_all add: word_le_nat_alt)
    from Suc.hyps(1) [OF k le, of w2 "attempts + 1", folded k] obtain n final w3 where
      n: "n \<le> k" and early: "\<forall>i < n. \<exists>m. fst (pv_fetch_page pv request (retry_world rt pv rp request (r + 1) i w2)) = Inl (Transient m)"
      and last: "pv_fetch_page pv request (retry_world rt pv rp request (r + 1) n w2) = (final, w3)"
      and loop: "fetch_page_loop rt pv rp request (r + 1) (attempts + 1) w2 =
        (with_attempts final (attempts + 1 + of_nat (Suc n)), attempts + 1 + of_nat (Suc n), w3)"
      and spent: "(\<exists>m. final = Inl (Transient m)) \<longrightarrow> n = k"
      by blast
    have world: "retry_world rt pv rp request r (Suc i) w = retry_world rt pv rp request (r + 1) i w2" for i
      by (simp add: fetch w2_def)
    have "\<exists>m. fst (pv_fetch_page pv request (retry_world rt pv rp request r i w)) = Inl (Transient m)" if "i < Suc n" for i
    proof (cases i)
      case 0
      then show ?thesis by (simp add: fetch result)
    next
      case (Suc i')
      with that early show ?thesis by (simp add: world del: retry_world.simps)
    qed
    moreover have "fetch_page_loop rt pv rp request r attempts w =
        (with_attempts final (attempts + of_nat (Suc (Suc n))), attempts + of_nat (Suc (Suc n)), w3)"
      using loop by (simp add: fetch_page_loop_again [OF fetch [unfolded result] less] w2_def ac_simps)
    ultimately show ?thesis
      using n last spent Suc.hyps(2) by (intro exI [of _ "Suc n"]) (simp add: world del: retry_world.simps)
  qed
qed

text \<open>
  A page is requested until it arrives, until a permanent error, or until the retries are used up: there is
  a number \<open>n\<close>, at most the configured retries, such that the first \<open>n\<close> requests failed transiently, each followed by the
  sleep of its backoff, and the result of the call is that of the next request with \<open>n + 1\<close> attempts added; a
  transient error is returned only after every retry was used.
\<close>

theorem fetch_page_attempts:
  "\<exists>n \<le> unat (ry_max_retries rp). \<exists>result w'.
     (\<forall>i < n. \<exists>m. fst (pv_fetch_page pv request (retry_world rt pv rp request 0 i w)) = Inl (Transient m)) \<and>
     pv_fetch_page pv request (retry_world rt pv rp request 0 n w) = (result, w') \<and>
     fetch_page_with_retry rt pv rp request attempts w =
       (with_attempts result (attempts + of_nat (Suc n)), attempts + of_nat (Suc n), w') \<and>
     (n = unat (ry_max_retries rp) \<or> (\<nexists>m. result = Inl (Transient m)))"
  using fetch_page_loop_trace [of 0 rp pv request rt w attempts]
  by (simp add: fetch_page_with_retry_def) blast

theorem fetch_page_attempts_witness:
  "\<exists>n \<le> 2. \<exists>result w'.
     fetch_page_with_retry \<lparr>rt_sleep = \<lambda>d w. w + d, rt_since_epoch = \<lambda>w. (None, w)\<rparr>
       \<lparr>pv_provider_name = [], pv_fetch_page = \<lambda>request w. (Inl (Transient ''timeout''), w)\<rparr>
       \<lparr>ry_max_retries = 2, ry_initial_backoff = 10, ry_max_backoff = 15\<rparr> \<lparr>pr_offset = 0, pr_limit = 5\<rparr> 0 0 =
       (with_attempts result (of_nat (Suc n)), of_nat (Suc n), w') \<and> n = 2 \<and> result = Inl (Transient ''timeout'')"
  using fetch_page_attempts [of "\<lparr>ry_max_retries = 2, ry_initial_backoff = 10, ry_max_backoff = 15\<rparr>"
      "\<lparr>pv_provider_name = [], pv_fetch_page = \<lambda>request w. (Inl (Transient ''timeout''), w)\<rparr>"
      "\<lparr>pr_offset = 0, pr_limit = 5\<rparr>" "\<lparr>rt_sleep = \<lambda>d w. w + d, rt_since_epoch = \<lambda>w. (None, w)\<rparr>" "0 :: nat" 0]
  by auto

text \<open>A page that is returned comes from some request of the provider.\<close>

lemma fetched_page_from_provider:
  assumes "fetch_page_with_retry rt pv rp request attempts w = (Inr page, attempts', w')"
  shows "\<exists>v. pv_fetch_page pv request v = (Inr page, w')"
proof -
  obtain n result w2 where
      "pv_fetch_page pv request (retry_world rt pv rp request 0 n w) = (result, w2)"
      "fetch_page_with_retry rt pv rp request attempts w =
         (with_attempts result (attempts + of_nat (Suc n)), attempts + of_nat (Suc n), w2)"
    using fetch_page_loop_trace [of 0 rp pv request rt w attempts] by (auto simp: fetch_page_with_retry_def)
  then show ?thesis using assms by (cases result) (auto simp: with_attempts_def map_err_def)
qed

lemma first_request_succeeds:
  assumes "pv_fetch_page pv request w = (Inr page, w')"
  shows "fetch_page_with_retry rt pv rp request attempts w = (Inr page, attempts + 1, w')"
  by (simp add: fetch_page_with_retry_def fetch_page_loop_stop [OF assms] with_attempts_def map_err_def)

section \<open>Paging\<close>

text \<open>What the loop relies on: a page is followed by the next offset exactly when it is full.\<close>

locale paged_provider =
  fixes fetch :: "registry_page_request \<Rightarrow> 'w \<Rightarrow> (registry_provider_error, registry_page) result \<times> 'w"
  assumes next_page: "fetch request w = (Inr page, w') \<Longrightarrow>
    pg_next_offset page =
      (if pr_limit request = 0 \<or>
          length (pg_markets page) + length (pg_quarantined page) < unat (pr_limit request)
       then None else Some (pr_offset request + pr_limit request))"
begin

text \<open>
  If no page from some offset on has a record, the loop returns: each turn that continues adds the page size,
  so after finitely many it is past that offset.
\<close>

lemma paging_returns:
  assumes "pv_fetch_page pv = fetch"
    and beyond: "\<And>offset w page w'. N \<le> unat offset \<Longrightarrow>
      fetch \<lparr>pr_offset = offset, pr_limit = rf_page_size rf\<rparr> w = (Inr page, w') \<Longrightarrow>
      pg_markets page = [] \<and> pg_quarantined page = []"
    and room: "N + unat (rf_page_size rf) \<le> 2 ^ 64"
  shows "\<exists>r. collect_pages rt pv rf offset markets quarantined attempts w = Some r"
proof (induction "N - unat offset" arbitrary: offset markets quarantined attempts w rule: less_induct)
  case less
  define request where "request = \<lparr>pr_offset = offset, pr_limit = rf_page_size rf\<rparr>"
  obtain result attempts' w' where
    fetched: "fetch_page_with_retry rt pv (rf_retry_policy rf) request attempts w = (result, attempts', w')"
    by (cases "fetch_page_with_retry rt pv (rf_retry_policy rf) request attempts w") auto
  show ?case
  proof (cases result)
    case (Inl e)
    then show ?thesis using fetched by (subst collect_pages.simps) (simp add: request_def)
  next
    case (Inr page)
    then obtain v where v: "fetch request v = (Inr page, w')"
      using fetched_page_from_provider fetched assms(1) by metis
    show ?thesis
    proof (cases "pg_next_offset page")
      case None
      then show ?thesis using fetched Inr by (subst collect_pages.simps) (simp add: request_def)
    next
      case (Some next_offset)
      then have full: "unat (rf_page_size rf) \<le> length (pg_markets page) + length (pg_quarantined page)"
        and pos: "rf_page_size rf \<noteq> 0" and next_eq: "next_offset = offset + rf_page_size rf"
        using next_page [OF v] by (auto simp: request_def split: if_splits)
      have "0 < unat (rf_page_size rf)" using pos by (simp add: unat_gt_0)
      moreover from this have before: "unat offset < N"
        using beyond [of offset v page w'] v full by (force simp: request_def not_less [symmetric])
      moreover have "unat next_offset = unat offset + unat (rf_page_size rf)"
        using before room by (simp add: next_eq unat_word_ariths)
      ultimately have "N - unat next_offset < N - unat offset" by simp
      from less [OF this] obtain r where
        "collect_pages rt pv rf next_offset (fold (\<lambda>m. bt_insert (mm_market_id m) m) (pg_markets page) markets)
           (quarantined @ pg_quarantined page) attempts' w' = Some r" by blast
      then show ?thesis using fetched Inr Some by (subst collect_pages.simps) (simp add: request_def)
    qed
  qed
qed

end

lemma gamma_page_parsed:
  assumes "gamma_fetch_page j gp request w = (Inr page, w')"
  shows "\<exists>r w1 body.
    hc_get (gp_client gp) (events_url gp) (events_query request) w = (Inr r, w1) \<and>
    hc_text (gp_client gp) r w1 = (Inr body, w') \<and> parse_page j (gp_provider_name gp) body request = Inr page"
proof -
  obtain got w1 where get: "hc_get (gp_client gp) (events_url gp) (events_query request) w = (got, w1)"
    by fastforce
  from assms get obtain r where r: "got = Inr r" by (cases got) (auto simp: gamma_fetch_page_def)
  obtain got2 w2 where got2: "hc_text (gp_client gp) r w1 = (got2, w2)" by fastforce
  from assms get r got2 obtain body where body: "got2 = Inr body"
    by (cases got2) (auto simp: gamma_fetch_page_def Let_def)
  from assms show ?thesis
    by (simp add: gamma_fetch_page_def Let_def get r got2 body split: if_splits)
qed

interpretation gamma: paged_provider "gamma_fetch_page j gp" for j gp
proof unfold_locales
  fix request w page w'
  assume "gamma_fetch_page j gp request w = (Inr page, w')"
  from gamma_page_parsed [OF this] obtain body where
    page: "parse_page j (gp_provider_name gp) body request = Inr page" by blast
  then obtain events where
      "page = \<lparr>pg_markets = oks (normalized j events),
              pg_quarantined = map (quarantine_record (gp_provider_name gp)) (errs (normalized j events)),
              pg_next_offset =
                (if pr_limit request = 0 \<or> length (normalized j events) < unat (pr_limit request)
                 then None else Some (pr_offset request + pr_limit request))\<rparr>"
    unfolding parse_page_Inr by blast
  then show "pg_next_offset page =
      (if pr_limit request = 0 \<or>
          length (pg_markets page) + length (pg_quarantined page) < unat (pr_limit request)
       then None else Some (pr_offset request + pr_limit request))" by simp
qed

section \<open>Refreshing terminates\<close>

text \<open>The listing has no event from offset \<open>N\<close> on, whatever the world.\<close>

definition listing_ends_at :: "'n registry_json \<Rightarrow> ('w, 'r) gamma_provider \<Rightarrow> nat \<Rightarrow> bool" where
  "listing_ends_at j gp N \<longleftrightarrow>
     (\<forall>request w r w1 body w2 events.
        N \<le> unat (pr_offset request) \<longrightarrow>
        hc_get (gp_client gp) (events_url gp) (events_query request) w = (Inr r, w1) \<longrightarrow>
        hc_text (gp_client gp) r w1 = (Inr body, w2) \<longrightarrow>
        rj_events j body = Inr events \<longrightarrow> events = [])"

lemma page_beyond_end:
  assumes "listing_ends_at j gp N" and "N \<le> unat (pr_offset request)"
    and "gamma_fetch_page j gp request w = (Inr page, w')"
  shows "pg_markets page = [] \<and> pg_quarantined page = []"
proof -
  from gamma_page_parsed [OF assms(3)] obtain r w1 body where
    "hc_get (gp_client gp) (events_url gp) (events_query request) w = (Inr r, w1)"
    "hc_text (gp_client gp) r w1 = (Inr body, w')"
    and page: "parse_page j (gp_provider_name gp) body request = Inr page" by blast
  then have "rj_events j body = Inr events \<Longrightarrow> events = []" for events
    using assms(1,2) unfolding listing_ends_at_def by blast
  then show ?thesis using page by (auto simp: parse_page_Inr normalized_def)
qed

lemma refresh_returns_if_collected:
  assumes "\<exists>r. collect_pages rt (mr_provider mr) (mr_refresh_policy mr) 0 [] [] 0 w = Some r"
  shows "\<exists>r. refresh_once rt mr st w = Some r"
  using assms
  by (auto simp: refresh_once_def collect_snapshot_def Let_def split: prod.splits sum.splits option.splits)

text \<open>
  C19. A refresh from the Gamma listing returns, whatever requests fail, time out or are answered with an error
  status and however the listing changes in between, if there is an offset from which on it holds no event
  (a page size past it fits a machine word).
\<close>

theorem refresh_returns:
  assumes "mr_provider mr = gamma_registry_provider j gp" and "listing_ends_at j gp N"
    and "N + unat (rf_page_size (mr_refresh_policy mr)) \<le> 2 ^ 64"
  shows "\<exists>r. refresh_once rt mr st w = Some r"
proof (rule refresh_returns_if_collected, rule gamma.paging_returns [OF _ _ assms(3)])
  show "pv_fetch_page (mr_provider mr) = gamma_fetch_page j gp"
    by (simp add: assms(1) gamma_registry_provider_def)
qed (rule page_beyond_end [OF assms(2)], simp_all)

section \<open>A refresh collects the whole listing\<close>

text \<open>
  The server answers every request for a page with the events of the listing from the offset on, at most as
  many as the limit.
\<close>

definition serves_listing ::
    "'n registry_json \<Rightarrow> ('w, 'r) gamma_provider \<Rightarrow> u64 \<Rightarrow> 'n gamma_event list \<Rightarrow> bool" where
  "serves_listing j gp limit events \<longleftrightarrow>
     (\<forall>offset w. \<exists>r w1 body w2.
        hc_get (gp_client gp) (events_url gp) (events_query \<lparr>pr_offset = offset, pr_limit = limit\<rparr>) w = (Inr r, w1) \<and>
        hc_status (gp_client gp) r = 200 \<and>
        hc_text (gp_client gp) r w1 = (Inr body, w2) \<and>
        rj_events j body = Inr (take (unat limit) (drop (unat offset) events)))"

lemma served_page:
  assumes "serves_listing j gp limit events"
  defines "here \<equiv> \<lambda>offset. normalized j (take (unat limit) (drop (unat offset) events))"
  shows "\<exists>w'. gamma_fetch_page j gp \<lparr>pr_offset = offset, pr_limit = limit\<rparr> w =
    (Inr \<lparr>pg_markets = oks (here offset),
          pg_quarantined = map (quarantine_record (gp_provider_name gp)) (errs (here offset)),
          pg_next_offset = (if limit = 0 \<or> length (here offset) < unat limit then None
                            else Some (offset + limit))\<rparr>, w')"
proof -
  obtain r w1 body w2 where
    "hc_get (gp_client gp) (events_url gp) (events_query \<lparr>pr_offset = offset, pr_limit = limit\<rparr>) w = (Inr r, w1)"
    "hc_status (gp_client gp) r = 200" "hc_text (gp_client gp) r w1 = (Inr body, w2)"
    and body: "rj_events j body = Inr (take (unat limit) (drop (unat offset) events))"
    using assms(1) unfolding serves_listing_def by blast
  then have "gamma_fetch_page j gp \<lparr>pr_offset = offset, pr_limit = limit\<rparr> w =
      (parse_page j (gp_provider_name gp) body \<lparr>pr_offset = offset, pr_limit = limit\<rparr>, w2)"
    by (simp add: gamma_fetch_page_def Let_def)
  then show ?thesis using body
    by (auto simp: here_def parse_page_Inr intro!: exI [of _ w2])
qed

lemma normalized_at_least_events:
  assumes "\<forall>e \<in> set events. ge_markets e \<noteq> []"
  shows "length events \<le> length (normalized j events)"
  using assms
proof (induction events)
  case (Cons e events)
  then have "Suc 0 \<le> length (ge_markets e)" by (simp add: Suc_leI)
  with Cons show ?case by (simp add: normalized_def)
qed (simp add: normalized_def)

definition insert_markets :: "market_meta list \<Rightarrow> (market_id, market_meta) btree \<Rightarrow> (market_id, market_meta) btree" where
  "insert_markets ms markets = fold (\<lambda>m. bt_insert (mm_market_id m) m) ms markets"

lemma insert_markets_append: "insert_markets (xs @ ys) m = insert_markets ys (insert_markets xs m)"
  by (simp add: insert_markets_def)

text \<open>When no event of the listing is empty, the loop from an offset on inserts everything that follows it.\<close>

lemma collect_pages_served:
  assumes "pv_fetch_page pv = gamma_fetch_page j gp" and "serves_listing j gp (rf_page_size rf) events"
    and full: "\<forall>e \<in> set events. ge_markets e \<noteq> []" and pos: "rf_page_size rf \<noteq> 0"
    and room: "length events + unat (rf_page_size rf) < 2 ^ 64"
  shows "\<exists>attempts' w'. collect_pages rt pv rf offset markets quarantined attempts w =
    Some (Inr (insert_markets (oks (normalized j (drop (unat offset) events))) markets,
               quarantined @ map (quarantine_record (gp_provider_name gp))
                 (errs (normalized j (drop (unat offset) events))), attempts'), w')"
proof (induction "length events - unat offset" arbitrary: offset markets quarantined attempts w rule: less_induct)
  case less
  define limit where "limit = rf_page_size rf"
  define page rest where "page = take (unat limit) (drop (unat offset) events)"
    and "rest = drop (unat limit) (drop (unat offset) events)"
  have split: "drop (unat offset) events = page @ rest"
    unfolding page_def rest_def by (rule append_take_drop_id [symmetric])
  from served_page [OF assms(2), folded limit_def, of offset w] obtain w1 where
    "pv_fetch_page pv \<lparr>pr_offset = offset, pr_limit = limit\<rparr> w =
      (Inr \<lparr>pg_markets = oks (normalized j page),
            pg_quarantined = map (quarantine_record (gp_provider_name gp)) (errs (normalized j page)),
            pg_next_offset = (if limit = 0 \<or> length (normalized j page) < unat limit then None
                              else Some (offset + limit))\<rparr>, w1)"
    by (auto simp: page_def assms(1))
  note fetched = first_request_succeeds [OF this]
  have page_full: "length page \<le> length (normalized j page)"
    using full by (intro normalized_at_least_events) (auto simp: page_def dest: in_set_takeD in_set_dropD)
  show ?case
  proof (cases "length (normalized j page) < unat limit")
    case True
    then have "length (drop (unat offset) events) < unat limit"
      using page_full by (auto simp: page_def)
    then have "rest = []" by (simp add: rest_def)
    with True fetched show ?thesis
      by (subst collect_pages.simps) (simp add: limit_def [symmetric] split insert_markets_def Let_def)
  next
    case False
    then have continue: "collect_pages rt pv rf offset markets quarantined attempts w =
        collect_pages rt pv rf (offset + limit) (insert_markets (oks (normalized j page)) markets)
          (quarantined @ map (quarantine_record (gp_provider_name gp)) (errs (normalized j page)))
          (attempts + 1) w1"
      using fetched pos
      by (subst collect_pages.simps) (simp add: limit_def [symmetric] insert_markets_def Let_def)
    have "0 < unat limit" using pos by (simp add: limit_def unat_gt_0)
    have "page \<noteq> []" using False \<open>0 < unat limit\<close> by (auto simp: normalized_def)
    then have before: "unat offset < length events" by (auto simp: page_def)
    then have moved: "unat (offset + limit) = unat offset + unat limit"
      using room by (simp add: limit_def unat_word_ariths)
    then have "length events - unat (offset + limit) < length events - unat offset"
      using before \<open>0 < unat limit\<close> by simp
    from less [OF this, of "insert_markets (oks (normalized j page)) markets"
        "quarantined @ map (quarantine_record (gp_provider_name gp)) (errs (normalized j page))" "attempts + 1" w1]
    show ?thesis
      by (simp add: continue moved split normalized_append insert_markets_append)
        (simp add: rest_def add.commute normalized_append insert_markets_append)
  qed
qed


text \<open>A server for the witnesses: it keeps the query in its response and serves two events a page.\<close>

definition sample_record :: "string \<Rightarrow> string list \<Rightarrow> unit gamma_market" where
  "sample_record i outcomes =
     \<lparr>gm_id = i, gm_condition_id = None, gm_outcomes = Some (Plain outcomes),
      gm_clob_token_ids = Some (Plain [''t1'', ''t2'']), gm_active = True, gm_closed = False,
      gm_enable_order_book = True, gm_order_price_min_tick_size = Some (ScalarString ''0.01''),
      gm_tick_size = None, gm_order_min_size = None, gm_minimum_order_size = None,
      gm_rewards_min_size = None, gm_rewards_max_spread = None\<rparr>"

definition sample_event :: "unit gamma_market list \<Rightarrow> unit gamma_event" where
  "sample_event ms = \<lparr>ge_markets = ms\<rparr>"

definition sample_listing :: "unit gamma_event list" where
  "sample_listing =
     [sample_event [sample_record ''m1'' [''Yes'', ''No'']],
      sample_event [sample_record ''m2'' [''Yes''], sample_record ''m3'' [''YES'', ''no'']],
      sample_event [sample_record ''m4'' [''No'', ''Yes'']]]"

definition sample_json :: "unit gamma_event list \<Rightarrow> unit registry_json" where
  "sample_json events =
     \<lparr>rj_events = (\<lambda>body. Inr (take 2 (drop (unat (unwrap_or 0 (parse_uint body) :: u64)) events))),
      rj_strings = (\<lambda>raw. Inl ''expected value''), rj_number_text = (\<lambda>n. ''1'')\<rparr>"

definition sample_gamma :: "(unit, (string \<times> string) list) gamma_provider" where
  "sample_gamma = gamma_provider_new
     \<lparr>hc_get = (\<lambda>url query w. (Inr query, w)), hc_status = (\<lambda>r. 200),
      hc_text = (\<lambda>r w. (Inr (unwrap_or [] (map_of r ''offset'')), w)), hc_status_text = (\<lambda>s. ''200 OK'')\<rparr> ''gamma''"

definition sample_registry :: "unit gamma_event list \<Rightarrow> unit market_registry" where
  "sample_registry events =
     \<lparr>mr_provider = gamma_registry_provider (sample_json events) sample_gamma,
      mr_refresh_policy =
        \<lparr>rf_page_size = 2, rf_refresh_interval = 1000000000,
         rf_retry_policy = \<lparr>ry_max_retries = 3, ry_initial_backoff = 1000000, ry_max_backoff = 5000000\<rparr>\<rparr>,
      mr_selection_policy =
        \<lparr>up_active_only = True, up_require_reward = False, up_include_markets = [], up_exclude_markets = [],
         up_bypass_registry = False\<rparr>\<rparr>"

definition sample_runtime :: "unit registry_runtime" where
  "sample_runtime = \<lparr>rt_sleep = (\<lambda>d w. w), rt_since_epoch = (\<lambda>w. (Some 1700000000000000000, w))\<rparr>"

lemma sample_serves: "serves_listing (sample_json events) sample_gamma 2 events"
  by (simp add: serves_listing_def sample_json_def sample_gamma_def gamma_provider_new_def with_client_and_base_url_def events_query_def)

lemma sample_ends: "listing_ends_at (sample_json events) sample_gamma (length events)"
  by (simp add: listing_ends_at_def sample_json_def sample_gamma_def gamma_provider_new_def with_client_and_base_url_def events_query_def)

theorem refresh_returns_witness:
  "\<exists>r. refresh_once sample_runtime (sample_registry sample_listing) registry_state_default () = Some r"
  by (rule refresh_returns [of _ "sample_json sample_listing" sample_gamma "length sample_listing"])
    (simp_all add: sample_ends, simp_all add: sample_registry_def sample_listing_def)

lemma sample_normalized:
  "oks (normalized (sample_json sample_listing) sample_listing) =
     map (\<lambda>(i, yes, no). (sample_market i MarketActive False)
        \<lparr>mm_yes_asset := outcome_token_new yes OutcomeYes, mm_no_asset := outcome_token_new no OutcomeNo\<rparr>)
       [(''m1'', ''t1'', ''t2''), (''m3'', ''t1'', ''t2''), (''m4'', ''t2'', ''t1'')]"
  "map (quarantine_record ''gamma'') (errs (normalized (sample_json sample_listing) sample_listing)) =
     [\<lparr>qm_record_id = Some ''m2'', qm_reason = ''gamma: mismatched_outcomes_and_tokens''\<rparr>]"
  by code_simp+


text \<open>
  An event without markets makes its page look like the last one, because a page counts records while the
  listing is paged by events: here the third event is never read.
\<close>

lemma empty_event_hides_the_rest:
  defines "events \<equiv> [sample_event [], sample_event [sample_record ''m1'' [''Yes'', ''No'']],
                     sample_event [sample_record ''m3'' [''Yes'', ''No'']]]"
  shows "collect_pages sample_runtime (mr_provider (sample_registry events)) (mr_refresh_policy (sample_registry events))
      0 [] [] 0 () =
    Some (Inr ([(''m1'', (sample_market ''m1'' MarketActive False)
      \<lparr>mm_yes_asset := outcome_token_new ''t1'' OutcomeYes, mm_no_asset := outcome_token_new ''t2'' OutcomeNo\<rparr>)], [], 1), ())"
proof -
  have records: "normalized (sample_json events) (take 2 events) =
     [Inr ((sample_market ''m1'' MarketActive False)
      \<lparr>mm_yes_asset := outcome_token_new ''t1'' OutcomeYes, mm_no_asset := outcome_token_new ''t2'' OutcomeNo\<rparr>)]"
    unfolding events_def by code_simp
  have fetch: "pv_fetch_page (mr_provider (sample_registry events)) = gamma_fetch_page (sample_json events) sample_gamma"
    by (simp add: sample_registry_def gamma_registry_provider_def)
  from served_page [OF sample_serves, of events 0 "()"] have
    "pv_fetch_page (mr_provider (sample_registry events)) \<lparr>pr_offset = 0, pr_limit = 2\<rparr> () =
      (Inr \<lparr>pg_markets = [(sample_market ''m1'' MarketActive False)
              \<lparr>mm_yes_asset := outcome_token_new ''t1'' OutcomeYes, mm_no_asset := outcome_token_new ''t2'' OutcomeNo\<rparr>],
            pg_quarantined = [], pg_next_offset = None\<rparr>, ())"
    by (simp add: fetch records)
  note first_request_succeeds [OF this]
  then show ?thesis
    by (subst collect_pages.simps) (simp add: sample_registry_def sample_market_def)
qed

section \<open>The last good snapshot\<close>

text \<open>
  A stored snapshot holds each market under its own id. What the loop returns has this form whenever it
  returns.
\<close>

definition keyed_by_id :: "(market_id, market_meta) btree \<Rightarrow> bool" where
  "keyed_by_id markets \<longleftrightarrow> bt_wf markets \<and> (\<forall>i m. bt_get markets i = Some m \<longrightarrow> mm_market_id m = i)"

lemma keyed_by_id_insert_one: "keyed_by_id markets \<Longrightarrow> keyed_by_id (bt_insert (mm_market_id m) m markets)"
  by (simp add: keyed_by_id_def bt_get_insert bt_wf_insert)

lemma keyed_by_id_insert: "keyed_by_id markets \<Longrightarrow> keyed_by_id (insert_markets ms markets)"
  unfolding insert_markets_def by (induction ms arbitrary: markets) (simp_all add: keyed_by_id_insert_one)

lemma collected_keyed_by_id:
  assumes "collect_pages rt pv rf offset markets quarantined attempts w = Some r"
    and "keyed_by_id markets"
  shows "\<forall>ms q a w'. r = (Inr (ms, q, a), w') \<longrightarrow> keyed_by_id ms"
proof -
  have "keyed_by_id markets \<longrightarrow> (\<forall>ms q a w'. r = (Inr (ms, q, a), w') \<longrightarrow> keyed_by_id ms)"
  proof (rule collect_pages.raw_induct [where P = "\<lambda>rt pv rf offset markets quarantined attempts w r.
      keyed_by_id markets \<longrightarrow> (\<forall>ms q a w'. r = (Inr (ms, q, a), w') \<longrightarrow> keyed_by_id ms)", OF _ assms(1)], intro impI)
    fix f and rt :: "'a registry_runtime" and pv rf offset markets quarantined attempts w r
    assume IH: "\<And>rt pv rf offset markets quarantined attempts w r.
        f rt pv rf offset markets quarantined attempts w = Some r \<Longrightarrow>
        keyed_by_id markets \<longrightarrow> (\<forall>ms q a w'. r = (Inr (ms, q, a), w') \<longrightarrow> keyed_by_id ms)"
      and eq: "(case fetch_page_with_retry rt pv (rf_retry_policy rf)
               \<lparr>pr_offset = offset, pr_limit = rf_page_size rf\<rparr> attempts w of
          (Inl e, attempts, w) \<Rightarrow> Some (Inl e, w)
        | (Inr page, attempts, w) \<Rightarrow>
            (let markets = fold (\<lambda>m. bt_insert (mm_market_id m) m) (pg_markets page) markets;
                 quarantined = quarantined @ pg_quarantined page
             in case pg_next_offset page of
                  None \<Rightarrow> Some (Inr (markets, quarantined, attempts), w)
                | Some next_offset \<Rightarrow> f rt pv rf next_offset markets quarantined attempts w)) = Some r"
      and keyed: "keyed_by_id markets"
    obtain result attempts' w1 where fetched: "fetch_page_with_retry rt pv (rf_retry_policy rf)
        \<lparr>pr_offset = offset, pr_limit = rf_page_size rf\<rparr> attempts w = (result, attempts', w1)"
      by (metis surj_pair)
    show "\<forall>ms q a w'. r = (Inr (ms, q, a), w') \<longrightarrow> keyed_by_id ms"
    proof (cases result)
      case (Inl e)
      then show ?thesis using eq by (auto simp: fetched)
    next
      case (Inr page)
      have "keyed_by_id (fold (\<lambda>m. bt_insert (mm_market_id m) m) (pg_markets page) markets)"
        by (rule keyed_by_id_insert [OF keyed, unfolded insert_markets_def])
      with eq Inr IH show ?thesis
        by (cases "pg_next_offset page") (auto simp: fetched Let_def)
    qed
  qed
  with assms(2) show ?thesis by blast
qed

text \<open>
  What holds between refreshes: nothing is stored before the first success; after it the current snapshot is the
  last good one with the latest sequence number, and the universe is the one the policy selects from it.
\<close>

definition registry_ok :: "universe_selection_policy \<Rightarrow> registry_state \<Rightarrow> bool" where
  "registry_ok p st \<longleftrightarrow>
     rs_current_snapshot st = rs_last_good_snapshot st \<and> rs_current_universe st = rs_last_good_universe st \<and>
     (case rs_last_good_snapshot st of
        None \<Rightarrow> rs_last_good_universe st = None \<and> rs_next_sequence st = 0
      | Some s \<Rightarrow> rs_last_good_universe st = Some (resolve_universe (Some s) p) \<and>
          rg_sequence s = rs_next_sequence st \<and> keyed_by_id (rg_markets s))"

inductive registry_reachable :: "'w registry_runtime \<Rightarrow> 'w market_registry \<Rightarrow> registry_state \<Rightarrow> bool" for rt mr where
  start: "registry_reachable rt mr registry_state_default"
| refresh: "registry_reachable rt mr st \<Longrightarrow> refresh_once rt mr st w = Some (r, st', w') \<Longrightarrow>
    registry_reachable rt mr st'"

lemma collect_snapshot_cases:
  assumes "collect_snapshot rt mr st w = Some (r, st', w')"
  obtains (failed) err attempts where "r = Inl (err, attempts)" "st' = st"
    | (collected) snapshot attempts where "r = Inr (snapshot, attempts)"
        "st' = st\<lparr>rs_next_sequence := rs_next_sequence st + 1\<rparr>"
        "rg_sequence snapshot = rs_next_sequence st + 1" "keyed_by_id (rg_markets snapshot)"
proof -
  obtain pages v where pages: "collect_pages rt (mr_provider mr) (mr_refresh_policy mr) 0 [] [] 0 w = Some (pages, v)"
    using assms by (cases "collect_pages rt (mr_provider mr) (mr_refresh_policy mr) 0 [] [] 0 w")
      (auto simp: collect_snapshot_def)
  have empty: "keyed_by_id []" by (simp add: keyed_by_id_def)
  show thesis
  proof (cases pages)
    case (Inl e)
    then show thesis using assms failed [of "fst e" "snd e"] by (simp add: collect_snapshot_def pages)
  next
    case (Inr c)
    obtain ms q a where c: "c = (ms, q, a)" by (cases c)
    have "keyed_by_id ms" using collected_keyed_by_id [OF pages empty] Inr c by blast
    then show thesis using assms collected Inr c
      by (auto simp: collect_snapshot_def pages Let_def split: prod.splits)
  qed
qed

lemma refresh_once_cases:
  assumes "refresh_once rt mr st w = Some (r, st', w')"
  obtains (failed) err attempts where "st' = st"
      "r = (case (rs_last_good_snapshot st, rs_last_good_universe st) of
              (Some s, Some u) \<Rightarrow> Inr \<lparr>ro_snapshot = s, ro_universe = u, ro_degraded = True,
                 ro_attempts = attempts, ro_error = Some (provider_error_text err)\<rparr>
            | _ \<Rightarrow> Inl \<lparr>rre_message = provider_error_text err\<rparr>)"
    | (succeeded) snapshot attempts where
        "r = Inr \<lparr>ro_snapshot = snapshot, ro_universe = resolve_universe (Some snapshot) (mr_selection_policy mr),
                  ro_degraded = False, ro_attempts = attempts, ro_error = None\<rparr>"
        "st' = st\<lparr>rs_next_sequence := rs_next_sequence st + 1,
                  rs_current_snapshot := Some snapshot,
                  rs_current_universe := Some (resolve_universe (Some snapshot) (mr_selection_policy mr)),
                  rs_last_good_snapshot := Some snapshot,
                  rs_last_good_universe := Some (resolve_universe (Some snapshot) (mr_selection_policy mr))\<rparr>"
        "rg_sequence snapshot = rs_next_sequence st + 1" "keyed_by_id (rg_markets snapshot)"
proof -
  obtain c st1 v where c: "collect_snapshot rt mr st w = Some (c, st1, v)"
    using assms by (cases "collect_snapshot rt mr st w") (auto simp: refresh_once_def)
  from c show thesis
  proof (cases rule: collect_snapshot_cases)
    case (failed err attempts)
    then show thesis using assms that(1) [of err attempts]
      by (auto simp: refresh_once_def c split: option.splits)
  next
    case (collected snapshot attempts)
    then show thesis using assms that(2) [of snapshot attempts]
      by (simp add: refresh_once_def c Let_def)
  qed
qed

lemma registry_reachable_ok: "registry_reachable rt mr st \<Longrightarrow> registry_ok (mr_selection_policy mr) st"
proof (induction rule: registry_reachable.induct)
  case (refresh st w r st' w')
  from refresh.hyps(2) show ?case
    by (cases rule: refresh_once_cases) (use refresh.IH in \<open>simp_all add: registry_ok_def\<close>)
qed (simp add: registry_ok_def registry_state_default_def)

text \<open>
  C20. However refreshes succeed and fail, the registry offers the last good snapshot: a refresh that fails
  leaves the state alone and answers with the snapshot and the universe stored before, marked degraded, or with
  the error when there is none; a refresh that succeeds stores and returns one whose sequence number is one more than
  the last, with every market under its own id and the universe the policy selects from it.
\<close>

theorem registry_keeps_last_good:
  assumes "registry_reachable rt mr st" and "refresh_once rt mr st w = Some (r, st', w')"
  shows "registry_ok (mr_selection_policy mr) st' \<and>
    (case r of
       Inl e \<Rightarrow> st' = st \<and> rs_last_good_snapshot st = None
     | Inr outcome \<Rightarrow>
         rs_last_good_snapshot st' = Some (ro_snapshot outcome) \<and>
         ro_universe outcome = resolve_universe (Some (ro_snapshot outcome)) (mr_selection_policy mr) \<and>
         (if ro_degraded outcome then st' = st \<and> ro_error outcome \<noteq> None
          else ro_error outcome = None \<and> rs_next_sequence st' = rs_next_sequence st + 1 \<and>
               rg_sequence (ro_snapshot outcome) = rs_next_sequence st'))"
proof -
  have before: "registry_ok (mr_selection_policy mr) st" by (rule registry_reachable_ok [OF assms(1)])
  have after: "registry_ok (mr_selection_policy mr) st'"
    by (rule registry_reachable_ok [OF registry_reachable.refresh [OF assms]])
  from assms(2) show ?thesis
  proof (cases rule: refresh_once_cases)
    case (failed err attempts)
    then show ?thesis using before by (auto simp: registry_ok_def split: option.splits)
  next
    case (succeeded snapshot attempts)
    then show ?thesis using after by simp
  qed
qed

lemma sample_refresh:
  "\<exists>r. refresh_once sample_runtime (sample_registry sample_listing) registry_state_default () = Some r"
proof (rule refresh_returns_if_collected, rule gamma.paging_returns [where N = "length sample_listing"])
  show "pv_fetch_page (mr_provider (sample_registry sample_listing)) = gamma_fetch_page (sample_json sample_listing) sample_gamma"
    by (simp add: sample_registry_def gamma_registry_provider_def)
qed (rule page_beyond_end [OF sample_ends], simp_all, simp_all add: sample_registry_def sample_listing_def)

theorem registry_keeps_last_good_witness:
  "\<exists>r st'. refresh_once sample_runtime (sample_registry sample_listing) registry_state_default () = Some (r, st', ()) \<and>
     registry_ok (mr_selection_policy (sample_registry sample_listing)) st'"
proof -
  obtain r st' where r: "refresh_once sample_runtime (sample_registry sample_listing) registry_state_default ()
      = Some (r, st', ())"
    using sample_refresh by (metis old.unit.exhaust prod_cases3)
  then show ?thesis
    using registry_keeps_last_good [OF registry_reachable.start r] by blast
qed

end
