(* ===== verification/ExecConfig.thy ===== *)
theory ExecConfig
  imports Execution Strategy
begin

text \<open>
  The configuration of the executor and the state it keeps between runs (\<open>pm-executor\<close>: \<open>config.rs\<close>,
  \<open>state.rs\<close>). A configuration is read as raw tables, whose missing keys the defaults of the \<open>serde\<close> attributes fill in;
  the TOML and JSON parsers, the environment and the file system are arguments.
\<close>

section \<open>Defaults\<close>

definition default_health_enabled :: bool where "default_health_enabled = True"

definition default_health_port :: "16 word" where "default_health_port = 9090"

definition default_max_orders :: u64 where "default_max_orders = 5"

definition default_max_usd_exposure :: f64 where "default_max_usd_exposure = round_ratio False 10 1"

definition default_max_triggers_per_second :: u64 where "default_max_triggers_per_second = 2"

definition default_require_confirmation :: bool where "default_require_confirmation = True"

definition default_pool_size :: nat where "default_pool_size = 2"

definition default_address_family :: string where "default_address_family = ''auto''"

definition default_ws_channel_capacity :: nat where "default_ws_channel_capacity = 1024"

definition default_snapshot_channel_capacity :: nat where "default_snapshot_channel_capacity = 256"

definition default_presign_count :: nat where "default_presign_count = 100"

definition default_dry_run :: bool where "default_dry_run = True"

definition default_state_file :: string where "default_state_file = ''state.json''"

definition default_log_level :: string where "default_log_level = ''info''"

section \<open>The tables of a configuration\<close>

text \<open>Every table comes twice: as it is written, a key of the file being present or not, and as it is used.\<close>

record health_config =
  hcf_enabled :: bool
  hcf_port :: "16 word"

record raw_health_config =
  rhc_enabled :: "bool option"
  rhc_port :: "16 word option"

definition health_config_default :: health_config where
  "health_config_default = \<lparr>hcf_enabled = default_health_enabled, hcf_port = default_health_port\<rparr>"

definition health_config_of :: "raw_health_config \<Rightarrow> health_config" where
  "health_config_of r =
     \<lparr>hcf_enabled = unwrap_or default_health_enabled (rhc_enabled r),
      hcf_port = unwrap_or default_health_port (rhc_port r)\<rparr>"

record raw_credentials_config =
  rcc_api_key :: "string option"
  rcc_api_secret :: "string option"
  rcc_passphrase :: "string option"
  rcc_private_key :: "string option"
  rcc_maker_address :: "string option"
  rcc_signer_address :: "string option"

definition credentials_config_of :: "raw_credentials_config \<Rightarrow> credentials_config" where
  "credentials_config_of r =
     \<lparr>cc_api_key = unwrap_or [] (rcc_api_key r), cc_api_secret = unwrap_or [] (rcc_api_secret r),
      cc_passphrase = unwrap_or [] (rcc_passphrase r), cc_private_key = unwrap_or [] (rcc_private_key r),
      cc_maker_address = unwrap_or [] (rcc_maker_address r),
      cc_signer_address = unwrap_or [] (rcc_signer_address r)\<rparr>"

record connection_config =
  ncf_pool_size :: nat
  ncf_address_family :: string

record raw_connection_config =
  rnc_pool_size :: "nat option"
  rnc_address_family :: "string option"

definition connection_config_of :: "raw_connection_config \<Rightarrow> connection_config" where
  "connection_config_of r =
     \<lparr>ncf_pool_size = unwrap_or default_pool_size (rnc_pool_size r),
      ncf_address_family = unwrap_or default_address_family (rnc_address_family r)\<rparr>"

datatype market_universe_mode = StaticUniverse | DiscoveryUniverse

record market_universe_config =
  muc_mode :: market_universe_mode
  muc_source_id :: "source_id option"
  muc_market_ids :: "market_id list"

record raw_market_universe_config =
  rmu_mode :: "market_universe_mode option"
  rmu_source_id :: "source_id option"
  rmu_market_ids :: "market_id list option"

definition market_universe_config_of :: "raw_market_universe_config \<Rightarrow> market_universe_config" where
  "market_universe_config_of r =
     \<lparr>muc_mode = unwrap_or StaticUniverse (rmu_mode r), muc_source_id = rmu_source_id r,
      muc_market_ids = unwrap_or [] (rmu_market_ids r)\<rparr>"

record source_binding_config =
  sbc_source_id :: source_id
  sbc_source_kind :: source_kind
  sbc_asset_ids :: "asset_id list"
  sbc_market_ids :: "market_id list"
  sbc_instrument_ids :: "string list"

record raw_source_binding_config =
  rsb_source_id :: source_id
  rsb_source_kind :: source_kind
  rsb_asset_ids :: "asset_id list option"
  rsb_market_ids :: "market_id list option"
  rsb_instrument_ids :: "string list option"

definition source_binding_config_of :: "raw_source_binding_config \<Rightarrow> source_binding_config" where
  "source_binding_config_of r =
     \<lparr>sbc_source_id = rsb_source_id r, sbc_source_kind = rsb_source_kind r,
      sbc_asset_ids = unwrap_or [] (rsb_asset_ids r), sbc_market_ids = unwrap_or [] (rsb_market_ids r),
      sbc_instrument_ids = unwrap_or [] (rsb_instrument_ids r)\<rparr>"

record websocket_config =
  wcf_asset_ids :: "asset_id list"
  wcf_market_universe :: "market_universe_config option"
  wcf_source_bindings :: "source_binding_config list"
  wcf_ws_channel_capacity :: nat
  wcf_snapshot_channel_capacity :: nat

record raw_websocket_config =
  rwc_asset_ids :: "asset_id list option"
  rwc_market_universe :: "raw_market_universe_config option"
  rwc_source_bindings :: "raw_source_binding_config list option"
  rwc_ws_channel_capacity :: "nat option"
  rwc_snapshot_channel_capacity :: "nat option"

definition websocket_config_of :: "raw_websocket_config \<Rightarrow> websocket_config" where
  "websocket_config_of r =
     \<lparr>wcf_asset_ids = unwrap_or [] (rwc_asset_ids r),
      wcf_market_universe = map_option market_universe_config_of (rwc_market_universe r),
      wcf_source_bindings = map source_binding_config_of (unwrap_or [] (rwc_source_bindings r)),
      wcf_ws_channel_capacity = unwrap_or default_ws_channel_capacity (rwc_ws_channel_capacity r),
      wcf_snapshot_channel_capacity =
        unwrap_or default_snapshot_channel_capacity (rwc_snapshot_channel_capacity r)\<rparr>"

record execution_config =
  xcf_presign_count :: nat
  xcf_is_neg_risk :: bool
  xcf_fee_rate_bps :: u64
  xcf_dry_run :: bool
  xcf_state_file :: string

record raw_execution_config =
  rxc_presign_count :: "nat option"
  rxc_is_neg_risk :: "bool option"
  rxc_fee_rate_bps :: "u64 option"
  rxc_dry_run :: "bool option"
  rxc_state_file :: "string option"

definition execution_config_of :: "raw_execution_config \<Rightarrow> execution_config" where
  "execution_config_of r =
     \<lparr>xcf_presign_count = unwrap_or default_presign_count (rxc_presign_count r),
      xcf_is_neg_risk = unwrap_or False (rxc_is_neg_risk r),
      xcf_fee_rate_bps = unwrap_or 0 (rxc_fee_rate_bps r),
      xcf_dry_run = unwrap_or default_dry_run (rxc_dry_run r),
      xcf_state_file = unwrap_or default_state_file (rxc_state_file r)\<rparr>"

record logging_config =
  lcf_level :: string

definition logging_config_of :: "string option \<Rightarrow> logging_config" where
  "logging_config_of level = \<lparr>lcf_level = unwrap_or default_log_level level\<rparr>"

record safety_config =
  scf_max_orders :: u64
  scf_max_usd_exposure :: f64
  scf_max_triggers_per_second :: u64
  scf_require_confirmation :: bool
  scf_alert_webhook_url :: "string option"

record raw_safety_config =
  rsc_max_orders :: "u64 option"
  rsc_max_usd_exposure :: "f64 option"
  rsc_max_triggers_per_second :: "u64 option"
  rsc_require_confirmation :: "bool option"
  rsc_alert_webhook_url :: "string option"

definition safety_config_default :: safety_config where
  "safety_config_default =
     \<lparr>scf_max_orders = default_max_orders, scf_max_usd_exposure = default_max_usd_exposure,
      scf_max_triggers_per_second = default_max_triggers_per_second,
      scf_require_confirmation = default_require_confirmation, scf_alert_webhook_url = None\<rparr>"

definition safety_config_of :: "raw_safety_config \<Rightarrow> safety_config" where
  "safety_config_of r =
     \<lparr>scf_max_orders = unwrap_or default_max_orders (rsc_max_orders r),
      scf_max_usd_exposure = unwrap_or default_max_usd_exposure (rsc_max_usd_exposure r),
      scf_max_triggers_per_second = unwrap_or default_max_triggers_per_second (rsc_max_triggers_per_second r),
      scf_require_confirmation = unwrap_or default_require_confirmation (rsc_require_confirmation r),
      scf_alert_webhook_url = rsc_alert_webhook_url r\<rparr>"

record executor_config =
  ecf_credentials :: credentials_config
  ecf_connection :: connection_config
  ecf_websocket :: websocket_config
  ecf_strategy :: strategy_config
  ecf_execution :: execution_config
  ecf_logging :: logging_config
  ecf_safety :: safety_config
  ecf_health :: health_config

text \<open>The tables \<open>safety\<close> and \<open>health\<close> may be missing; the strategy's has no defaults here.\<close>

record raw_executor_config =
  rec_credentials :: raw_credentials_config
  rec_connection :: raw_connection_config
  rec_websocket :: raw_websocket_config
  rec_strategy :: strategy_config
  rec_execution :: raw_execution_config
  rec_logging :: "string option"
  rec_safety :: "raw_safety_config option"
  rec_health :: "raw_health_config option"

definition executor_config_of :: "raw_executor_config \<Rightarrow> executor_config" where
  "executor_config_of r =
     \<lparr>ecf_credentials = credentials_config_of (rec_credentials r),
      ecf_connection = connection_config_of (rec_connection r),
      ecf_websocket = websocket_config_of (rec_websocket r),
      ecf_strategy = rec_strategy r,
      ecf_execution = execution_config_of (rec_execution r),
      ecf_logging = logging_config_of (rec_logging r),
      ecf_safety = (case rec_safety r of None \<Rightarrow> safety_config_default | Some s \<Rightarrow> safety_config_of s),
      ecf_health = (case rec_health r of None \<Rightarrow> health_config_default | Some h \<Rightarrow> health_config_of h)\<rparr>"

section \<open>Loading a configuration\<close>

text \<open>The environment maps the names of its variables that hold valid text.\<close>

definition override_credentials :: "(string \<Rightarrow> string option) \<Rightarrow> credentials_config \<Rightarrow> credentials_config" where
  "override_credentials env c =
     \<lparr>cc_api_key = unwrap_or (cc_api_key c) (env ''POLY_API_KEY''),
      cc_api_secret = unwrap_or (cc_api_secret c) (env ''POLY_API_SECRET''),
      cc_passphrase = unwrap_or (cc_passphrase c) (env ''POLY_PASSPHRASE''),
      cc_private_key = unwrap_or (cc_private_key c) (env ''POLY_PRIVATE_KEY''),
      cc_maker_address = unwrap_or (cc_maker_address c) (env ''POLY_MAKER_ADDRESS''),
      cc_signer_address = unwrap_or (cc_signer_address c) (env ''POLY_SIGNER_ADDRESS'')\<rparr>"

definition apply_env_overrides :: "(string \<Rightarrow> string option) \<Rightarrow> executor_config \<Rightarrow> executor_config" where
  "apply_env_overrides env c =
     c\<lparr>ecf_credentials := override_credentials env (ecf_credentials c),
       ecf_safety := (ecf_safety c)\<lparr>scf_alert_webhook_url :=
         or_else (env ''POLY_ALERT_WEBHOOK_URL'') (scf_alert_webhook_url (ecf_safety c))\<rparr>\<rparr>"

definition load_config ::
    "(string \<Rightarrow> (string, string) result) \<Rightarrow> (string \<Rightarrow> (string, raw_executor_config) result)
      \<Rightarrow> (string \<Rightarrow> string option) \<Rightarrow> string \<Rightarrow> (string, executor_config) result" where
  "load_config read_to_string parse_toml env path =
     bind_result (read_to_string path) (\<lambda>content.
     bind_result (parse_toml content) (\<lambda>raw. Inr (apply_env_overrides env (executor_config_of raw))))"

section \<open>The assets to subscribe to\<close>

definition push_unique_asset_id :: "asset_id \<Rightarrow> asset_id list \<Rightarrow> asset_id list" where
  "push_unique_asset_id candidate ids = (if candidate \<in> set ids then ids else ids @ [candidate])"

definition resolved_subscription_asset_ids :: "executor_config \<Rightarrow> string list" where
  "resolved_subscription_asset_ids c =
     (let ids = fold (\<lambda>b ids. if sbc_source_kind b = PolymarketWs
                              then fold push_unique_asset_id (sbc_asset_ids b) ids else ids)
                  (wcf_source_bindings (ecf_websocket c)) (wcf_asset_ids (ecf_websocket c));
          token = stc_token_id (ecf_strategy c)
      in if token \<noteq> [] then push_unique_asset_id token ids else ids)"

section \<open>The persisted state\<close>

record executor_state =
  es_orders_fired :: u64
  es_usd_committed_cents :: u64
  es_last_shutdown :: string
  es_tripped :: bool

definition executor_state_default :: executor_state where
  "executor_state_default =
     \<lparr>es_orders_fired = 0, es_usd_committed_cents = 0, es_last_shutdown = [], es_tripped = False\<rparr>"

text \<open>
  The file system and the JSON library; the parent of a path is that of \<open>std::path\<close>. Errors are their texts.
\<close>

record 'w file_system =
  fs_read :: "string \<Rightarrow> 'w \<Rightarrow> (string, string) result"
  fs_parent :: "string \<Rightarrow> string option"
  fs_create_dir_all :: "string \<Rightarrow> 'w \<Rightarrow> (string, unit) result \<times> 'w"
  fs_write :: "string \<Rightarrow> string \<Rightarrow> 'w \<Rightarrow> (string, unit) result \<times> 'w"
  fs_state_to_json :: "executor_state \<Rightarrow> (string, string) result"
  fs_state_from_json :: "string \<Rightarrow> (string, executor_state) result"

definition load_state :: "'w file_system \<Rightarrow> string \<Rightarrow> 'w \<Rightarrow> executor_state" where
  "load_state fs path w =
     (case fs_read fs path w of
        Inr content \<Rightarrow> (case fs_state_from_json fs content of Inr st \<Rightarrow> st | Inl e \<Rightarrow> executor_state_default)
      | Inl e \<Rightarrow> executor_state_default)"

definition save_state ::
    "'w file_system \<Rightarrow> executor_state \<Rightarrow> string \<Rightarrow> 'w \<Rightarrow> (string, unit) result \<times> 'w" where
  "save_state fs st path w =
     (let (created, w) =
        (case fs_parent fs path of
           Some parent \<Rightarrow> if parent \<noteq> [] then fs_create_dir_all fs parent w else (Inr (), w)
         | None \<Rightarrow> (Inr (), w))
      in case created of
           Inl e \<Rightarrow> (Inl e, w)
         | Inr _ \<Rightarrow>
             (case fs_state_to_json fs st of
                Inl e \<Rightarrow> (Inl e, w)
              | Inr json \<Rightarrow> fs_write fs path json w))"

definition state_from_stats :: "string \<Rightarrow> u64 \<Rightarrow> u64 \<Rightarrow> bool \<Rightarrow> executor_state" where
  "state_from_stats now orders cents tripped =
     \<lparr>es_orders_fired = orders, es_usd_committed_cents = cents, es_last_shutdown = now, es_tripped = tripped\<rparr>"

section \<open>Which assets are subscribed to\<close>

lemma set_push_unique [simp]: "set (push_unique_asset_id a ids) = insert a (set ids)"
  by (auto simp: push_unique_asset_id_def)

lemma distinct_push_unique: "distinct ids \<Longrightarrow> distinct (push_unique_asset_id a ids)"
  by (simp add: push_unique_asset_id_def)

lemma push_unique_extends: "\<exists>more. push_unique_asset_id a ids = ids @ more"
  by (simp add: push_unique_asset_id_def)

lemma fold_push_unique:
  "set (fold push_unique_asset_id as ids) = set as \<union> set ids"
  "distinct ids \<Longrightarrow> distinct (fold push_unique_asset_id as ids)"
  "\<exists>more. fold push_unique_asset_id as ids = ids @ more"
proof (induction as arbitrary: ids)
  case (Cons a as)
  { case 1 show ?case using Cons(1) by simp }
  { case 2 then show ?case using Cons(2) distinct_push_unique by simp }
  { case 3
    obtain more where "push_unique_asset_id a ids = ids @ more" using push_unique_extends by blast
    then show ?case using Cons(3) [of "ids @ more"] by auto }
qed simp_all

definition push_binding :: "source_binding_config \<Rightarrow> asset_id list \<Rightarrow> asset_id list" where
  "push_binding b ids =
     (if sbc_source_kind b = PolymarketWs then fold push_unique_asset_id (sbc_asset_ids b) ids else ids)"

lemma fold_push_binding:
  "set (fold push_binding bs ids) =
     set ids \<union> (\<Union>b \<in> {b \<in> set bs. sbc_source_kind b = PolymarketWs}. set (sbc_asset_ids b))"
  "distinct ids \<Longrightarrow> distinct (fold push_binding bs ids)"
  "\<exists>more. fold push_binding bs ids = ids @ more"
proof (induction bs arbitrary: ids)
  case (Cons b bs)
  have step: "set (push_binding b ids) = set ids \<union> (if sbc_source_kind b = PolymarketWs then set (sbc_asset_ids b) else {})"
    "distinct ids \<Longrightarrow> distinct (push_binding b ids)" "\<exists>more. push_binding b ids = ids @ more" for ids
    using fold_push_unique [where as = "sbc_asset_ids b" and ids = ids] by (auto simp: push_binding_def)
  { case 1 show ?case using Cons(1) step(1) by auto }
  { case 2 then show ?case using Cons(2) step(2) by simp }
  { case 3
    obtain more where "push_binding b ids = ids @ more" using step(3) by blast
    then show ?case using Cons(3) [of "ids @ more"] by auto }
qed simp_all

text \<open>
  The executor subscribes to the assets listed for the websocket, in their order, then to those of the websocket
  bindings and to the strategy's token, each new one once: the ids are exactly these, and they are distinct
  when the listed ones are.
\<close>

theorem subscription_covers_bindings:
  "set (resolved_subscription_asset_ids c) =
     set (wcf_asset_ids (ecf_websocket c)) \<union>
     (\<Union>b \<in> {b \<in> set (wcf_source_bindings (ecf_websocket c)). sbc_source_kind b = PolymarketWs}. set (sbc_asset_ids b)) \<union>
     (if stc_token_id (ecf_strategy c) = [] then {} else {stc_token_id (ecf_strategy c)}) \<and>
   (\<exists>more. resolved_subscription_asset_ids c = wcf_asset_ids (ecf_websocket c) @ more) \<and>
   (distinct (resolved_subscription_asset_ids c) \<longleftrightarrow> distinct (wcf_asset_ids (ecf_websocket c)))"
proof -
  define ids where "ids = fold push_binding (wcf_source_bindings (ecf_websocket c)) (wcf_asset_ids (ecf_websocket c))"
  note pushed = fold_push_binding [where bs = "wcf_source_bindings (ecf_websocket c)" and ids = "wcf_asset_ids (ecf_websocket c)", folded ids_def]
  have resolved: "resolved_subscription_asset_ids c =
      (if stc_token_id (ecf_strategy c) \<noteq> [] then push_unique_asset_id (stc_token_id (ecf_strategy c)) ids else ids)"
    by (simp add: resolved_subscription_asset_ids_def ids_def push_binding_def [abs_def] Let_def)
  obtain more where more: "ids = wcf_asset_ids (ecf_websocket c) @ more" using pushed(3) by blast
  have "\<exists>rest. resolved_subscription_asset_ids c = wcf_asset_ids (ecf_websocket c) @ rest"
    by (simp add: resolved push_unique_asset_id_def more)
  moreover from this have "distinct (resolved_subscription_asset_ids c) \<longleftrightarrow> distinct (wcf_asset_ids (ecf_websocket c))"
    using pushed(2) distinct_push_unique by (auto simp: resolved)
  ultimately show ?thesis using pushed(1) by (auto simp: resolved)
qed

text \<open>A missing table means the same as an empty one.\<close>

lemma missing_tables:
  "safety_config_of \<lparr>rsc_max_orders = None, rsc_max_usd_exposure = None, rsc_max_triggers_per_second = None,
     rsc_require_confirmation = None, rsc_alert_webhook_url = None\<rparr> = safety_config_default"
  "health_config_of \<lparr>rhc_enabled = None, rhc_port = None\<rparr> = health_config_default"
  by (simp_all add: safety_config_of_def safety_config_default_def health_config_of_def health_config_default_def)

section \<open>The state survives on disk\<close>

text \<open>What the state file relies on: a written file reads back, and the JSON of a state decodes to it.\<close>

definition reliable_files :: "'w file_system \<Rightarrow> bool" where
  "reliable_files fs \<longleftrightarrow>
     (\<forall>path content w w'. fs_write fs path content w = (Inr (), w') \<longrightarrow> fs_read fs path w' = Inr content) \<and>
     (\<forall>st json. fs_state_to_json fs st = Inr json \<longrightarrow> fs_state_from_json fs json = Inr st)"

lemma saved_state_loads:
  assumes "reliable_files fs" and "save_state fs st path w = (Inr (), w')"
  shows "load_state fs path w' = st"
proof -
  obtain created w1 where created: "(case fs_parent fs path of
           Some parent \<Rightarrow> if parent \<noteq> [] then fs_create_dir_all fs parent w else (Inr (), w)
         | None \<Rightarrow> (Inr (), w)) = (created, w1)" by fastforce
  then obtain json where "fs_state_to_json fs st = Inr json" "fs_write fs path json w1 = (Inr (), w')"
    using assms(2) by (auto simp: save_state_def Let_def split: sum.splits)
  then show ?thesis using assms(1) by (simp add: reliable_files_def load_state_def)
qed

end
