(* ===== verification/ExecShell.thy ===== *)
theory ExecShell
  imports ExecConfig "HOL-Library.Sublist"
begin

text \<open>
  The executable (\<open>pm-executor\<close>: \<open>main.rs\<close>, \<open>bridge.rs\<close>, \<open>health.rs\<close>, \<open>health_server.rs\<close>) and the
  validation of credentials it starts with (\<open>rtt-core/src/clob_auth.rs\<close>): the choice of the configuration file, the start, the two
  bridges between channels, the monitor that persists the state, the health endpoint and the state saved at
  shutdown. A task that selects over channels is a function of the events it receives, in the order in
  which it receives them. Log lines are left out.
\<close>

section \<open>Validating credentials\<close>

text \<open>The client of \<open>reqwest\<close>: its construction, a GET with headers and the parts of the response.\<close>

record ('w, 'r) auth_client =
  ac_build :: "(string, unit) result"
  ac_get :: "string \<Rightarrow> (string \<times> string) list \<Rightarrow> 'w \<Rightarrow> (string, 'r) result \<times> 'w"
  ac_status :: "'r \<Rightarrow> 16 word"
  ac_status_text :: "16 word \<Rightarrow> string"
  ac_text :: "'r \<Rightarrow> 'w \<Rightarrow> (string, string) result \<times> 'w"

definition clob_auth_api_keys_url :: string where
  "clob_auth_api_keys_url = ''https://clob.polymarket.com/auth/api-keys''"

definition validate_credentials ::
    "('w, 'h) platform \<Rightarrow> ('w, 'r) auth_client \<Rightarrow> l2_credentials \<Rightarrow> 'w \<Rightarrow> (string, unit) result \<times> 'w" where
  "validate_credentials pf ac creds w =
     (case pf_unix_secs pf w of
        (Inl e, w) \<Rightarrow> (Inl e, w)
      | (Inr secs, w) \<Rightarrow>
     (case build_l2_headers pf creds (show_word secs) ''GET'' clob_auth_api_keys_path [] of
        Inl e \<Rightarrow> (Inl (''Failed to build auth headers: '' @ e), w)
      | Inr headers \<Rightarrow>
     (case ac_build ac of
        Inl e \<Rightarrow> (Inl (''Failed to build HTTP client: '' @ e), w)
      | Inr _ \<Rightarrow>
     (case ac_get ac clob_auth_api_keys_url headers w of
        (Inl e, w) \<Rightarrow> (Inl (''Request failed: '' @ e), w)
      | (Inr resp, w) \<Rightarrow>
          if 200 \<le> ac_status ac resp \<and> ac_status ac resp < 300 then (Inr (), w)
          else (case ac_text ac resp w of (got, w) \<Rightarrow>
            (Inl (''Credential validation failed: HTTP '' @ ac_status_text ac (ac_status ac resp) @ '' '' @ em_dash
               @ '' '' @ (case got of Inl e \<Rightarrow> [] | Inr body \<Rightarrow> body)), w))))))"

text \<open>\<open>env\<close> is the environment; the error of a missing variable is the library's text for it.\<close>

definition env_var :: "(string \<Rightarrow> string option) \<Rightarrow> string \<Rightarrow> (string, string) result" where
  "env_var env name = ok_or ''environment variable not found'' (env name)"

definition load_credentials_from_env ::
    "(string \<Rightarrow> string option) \<Rightarrow> (string, l2_credentials \<times> string \<times> string) result" where
  "load_credentials_from_env env =
     bind_result (env_var env ''POLY_API_KEY'') (\<lambda>api_key.
     bind_result (env_var env ''POLY_SECRET'') (\<lambda>secret.
     bind_result (env_var env ''POLY_PASSPHRASE'') (\<lambda>passphrase.
     bind_result (env_var env ''POLY_ADDRESS'') (\<lambda>address.
     bind_result (env_var env ''POLY_PRIVATE_KEY'') (\<lambda>private_key.
     bind_result (env_var env ''POLY_PROXY_ADDRESS'') (\<lambda>proxy_address.
       Inr (\<lparr>l2_api_key = api_key, l2_secret = secret, l2_passphrase = passphrase, l2_address = address\<rparr>,
            private_key, proxy_address)))))))"

section \<open>Starting\<close>

fun after_flag :: "string \<Rightarrow> string list \<Rightarrow> string option" where
  "after_flag flag [] = None"
| "after_flag flag (a # rest) =
     (if a = flag then (case rest of [] \<Rightarrow> None | b # _ \<Rightarrow> Some b) else after_flag flag rest)"

definition validate_creds_only :: "string list \<Rightarrow> bool" where
  "validate_creds_only args \<longleftrightarrow> ''--validate-creds'' \<in> set args"

definition config_path :: "string list \<Rightarrow> string" where
  "config_path args =
     unwrap_or ''config.toml''
       (or_else (after_flag ''--config'' args)
          (List.find (\<lambda>a. take 1 a \<noteq> ''-'' \<and> a \<noteq> args ! 0) args))"

definition address_family_of :: "string \<Rightarrow> address_family" where
  "address_family_of s = (if s = ''ipv4'' then AfV4 else if s = ''ipv6'' then AfV6 else AfAuto)"

text \<open>
  The libraries of the executable: \<open>'k\<close> is a parsed signing key, which the platform of the dispatcher signs with.
\<close>

record ('w, 'h, 'a, 't, 's, 'f, 'r, 'k) shell =
  sl_platform :: "'k option \<Rightarrow> ('w, 'h) platform"
  sl_network :: "('w, 'a, 't, 's, 'f) network"
  sl_auth_client :: "('w, 'r) auth_client"
  sl_files :: "'w file_system"
  sl_parse_key :: "string \<Rightarrow> (string, 'k) result"
  sl_key_address :: "'k \<Rightarrow> address"
  sl_parse_address :: "string \<Rightarrow> (string, address) result"
  sl_vec_capacity :: "nat \<Rightarrow> nat"

text \<open>A start ends the process with an exit code, panics, or yields what the tasks run on.\<close>

datatype 'x startup = ExitCode nat | Panicked string | Ready 'x

record ('w, 'h, 'a, 't, 's, 'f) executor =
  ex_assets :: "string list"
  ex_strategy :: boxed_strategy
  ex_setup :: "('w, 'h, 'a, 't, 's, 'f) execution_setup"
  ex_state :: "('w, 's) execution_state"

definition restored_breaker :: "safety_config \<Rightarrow> executor_state \<Rightarrow> circuit_breaker" where
  "restored_breaker sc prev =
     with_initial_counts (scf_max_orders sc) (scf_max_usd_exposure sc) (es_orders_fired prev)
       (es_usd_committed_cents prev)"

definition signer_params_of :: "address \<Rightarrow> address \<Rightarrow> executor_config \<Rightarrow> signer_params" where
  "signer_params_of maker signer_addr c =
     \<lparr>sp_maker = maker, sp_signer_addr = signer_addr,
      sp_fee_rate_bps = xcf_fee_rate_bps (ecf_execution c),
      sp_is_neg_risk = xcf_is_neg_risk (ecf_execution c), sp_sig_type = SigPoly,
      sp_owner_id = cc_api_key (ecf_credentials c)\<rparr>"

definition finish_start ::
    "('w, 'h, 'a, 't, 's, 'f, 'r, 'k) shell \<Rightarrow> executor_config \<Rightarrow> l2_credentials \<Rightarrow> 'k option \<Rightarrow> boxed_strategy
      \<Rightarrow> 's connection_pool \<Rightarrow> signer_params option \<Rightarrow> 'w
      \<Rightarrow> ('w, 'h, 'a, 't, 's, 'f) executor startup" where
  "finish_start sl c l2 signer strategy pool params w =
     (case presigned_pool_new (sl_platform sl signer) [] of
        Inl e \<Rightarrow> Panicked ''Failed to create pre-signed order pool''
      | Inr presigned \<Rightarrow>
          (let prev_state = load_state (sl_files sl) (xcf_state_file (ecf_execution c)) w in
           Ready
             \<lparr>ex_assets = resolved_subscription_asset_ids c, ex_strategy = strategy,
              ex_setup =
                \<lparr>xs_platform = sl_platform sl signer, xs_network = sl_network sl, xs_creds = l2,
                 xs_dry_run = xcf_dry_run (ecf_execution c), xs_signer_params = params,
                 xs_alert_webhook_url = scf_alert_webhook_url (ecf_safety c)\<rparr>,
              ex_state =
                \<lparr>xe_pool = pool, xe_presigned = presigned,
                 xe_breaker = restored_breaker (ecf_safety c) prev_state,
                 xe_limiter = rate_limiter_new (scf_max_triggers_per_second (ecf_safety c)),
                 xe_guard = order_guard_new, xe_world = w\<rparr>\<rparr>))"

text \<open>\<open>run\<close> up to the start of its tasks: credentials, strategy, validation, pool, signer, state.\<close>

definition start ::
    "('w, 'h, 'a, 't, 's, 'f, 'r, 'k) shell \<Rightarrow> executor_config \<Rightarrow> 'w
      \<Rightarrow> ('w, 'h, 'a, 't, 's, 'f) executor startup \<times> 'w" where
  "start sl c w =
     (let dry_run = xcf_dry_run (ecf_execution c) in
      case build_credentials (sl_parse_key sl) (ecf_credentials c) dry_run of
        Inl e \<Rightarrow> (ExitCode 1, w)
      | Inr (l2, signer) \<Rightarrow>
     (case build_strategy (ecf_strategy c) of
        Inl e \<Rightarrow> (ExitCode 1, w)
      | Inr strategy \<Rightarrow>
     (let pool = connection_pool_new (sl_vec_capacity sl) clob_host clob_port (ncf_pool_size (ecf_connection c))
                   (address_family_of (ncf_address_family (ecf_connection c)))
      in if dry_run then (finish_start sl c l2 signer strategy pool None w, w)
         else
     (case validate_credentials (sl_platform sl signer) (sl_auth_client sl) l2 w of
        (Inl e, w) \<Rightarrow> (ExitCode 1, w)
      | (Inr _, w) \<Rightarrow>
     (case warmup (sl_network sl) pool w of
        (Inl e, pool, w) \<Rightarrow> (Panicked ''Failed to warm connection pool'', w)
      | (Inr warm, pool, w) \<Rightarrow>
     (case signer of
        None \<Rightarrow> (Panicked ''signer required for live mode'', w)
      | Some key \<Rightarrow>
     (case sl_parse_address sl (cc_maker_address (ecf_credentials c)) of
        Inl e \<Rightarrow> (Panicked ''invalid maker_address in config'', w)
      | Inr maker \<Rightarrow>
          (finish_start sl c l2 signer strategy pool
             (Some (signer_params_of maker (sl_key_address sl key) c)) w, w))))))))"

text \<open>\<open>main\<close>: what it does with its arguments before it starts the tasks.\<close>

definition main_start ::
    "('w, 'h, 'a, 't, 's, 'f, 'r, 'k) shell \<Rightarrow> (string \<Rightarrow> (string, executor_config) result) \<Rightarrow> string list \<Rightarrow> 'w
      \<Rightarrow> ('w, 'h, 'a, 't, 's, 'f) executor startup \<times> 'w" where
  "main_start sl load args w =
     (case load (config_path args) of
        Inl e \<Rightarrow> (ExitCode 1, w)
      | Inr c \<Rightarrow>
          if validate_creds_only args
          then (case build_credentials (sl_parse_key sl) (ecf_credentials c) False of
                  Inl e \<Rightarrow> (ExitCode 1, w)
                | Inr (l2, signer) \<Rightarrow>
                    (case validate_credentials (sl_platform sl signer) (sl_auth_client sl) l2 w of
                       (Inr _, w) \<Rightarrow> (ExitCode 0, w)
                     | (Inl e, w) \<Rightarrow> (ExitCode 1, w)))
          else start sl c w)"

section \<open>The state saved at shutdown\<close>

definition persisted_state :: "string \<Rightarrow> circuit_breaker \<Rightarrow> executor_state" where
  "persisted_state now cb =
     (case breaker_stats cb of (orders, usd) \<Rightarrow>
        state_from_stats now orders (f64_to_u64 (f64_mul usd f64_100)) (cb_tripped cb))"

definition shutdown ::
    "'w file_system \<Rightarrow> executor_config \<Rightarrow> string \<Rightarrow> circuit_breaker \<Rightarrow> 'w \<Rightarrow> (string, unit) result \<times> 'w" where
  "shutdown fs c now cb w = save_state fs (persisted_state now cb) (xcf_state_file (ecf_execution c)) w"

section \<open>The health monitor\<close>

text \<open>A tick comes with the time of day as text and the breaker as it is read then.\<close>

datatype monitor_event = Tick string circuit_breaker | MonitorShutdown bool

fun run_health_monitor ::
    "'w file_system \<Rightarrow> bool \<Rightarrow> string option \<Rightarrow> monitor_event list \<Rightarrow> 'w \<Rightarrow> 'w" where
  "run_health_monitor fs has_breaker state_file [] w = w"
| "run_health_monitor fs has_breaker state_file (Tick now cb # events) w =
     run_health_monitor fs has_breaker state_file events
       (case state_file of
          Some path \<Rightarrow> if has_breaker then snd (save_state fs (persisted_state now cb) path w) else w
        | None \<Rightarrow> w)"
| "run_health_monitor fs has_breaker state_file (MonitorShutdown b # events) w =
     (if b then w else run_health_monitor fs has_breaker state_file events w)"

section \<open>The health endpoint\<close>

text \<open>The values that \<open>serde_json\<close> prints.\<close>

datatype json = JString string | JNatural u64 | JFloat f64 | JBool bool | JObject "(string \<times> json) list"

record endpoint_response =
  er_status :: nat
  er_headers :: "(string \<times> string) list"
  er_body :: string

definition json_response :: "nat \<Rightarrow> string \<Rightarrow> endpoint_response" where
  "json_response status body =
     \<lparr>er_status = status, er_headers = [(''Content-Type'', ''application/json'')], er_body = body\<rparr>"

definition not_found_response :: endpoint_response where
  "not_found_response = \<lparr>er_status = 404, er_headers = [], er_body = ''Not Found''\<rparr>"

definition quoted :: "string \<Rightarrow> string" where
  "quoted s = CHR 0x22 # s @ [CHR 0x22]"

definition unhealthy_body :: "string \<Rightarrow> string" where
  "unhealthy_body reason =
     ''{'' @ quoted ''status'' @ '':'' @ quoted ''unhealthy'' @ '','' @ quoted ''reason'' @ '':'' @ quoted reason @ ''}''"

definition healthy_body :: string where
  "healthy_body = ''{'' @ quoted ''status'' @ '':'' @ quoted ''ok'' @ ''}''"

definition health_response :: "circuit_breaker \<Rightarrow> u64 \<Rightarrow> u64 \<Rightarrow> endpoint_response" where
  "health_response cb last_message_at now_ms =
     (let stale = 0 < last_message_at \<and> 60000 < saturating_sub now_ms last_message_at
      in if cb_tripped cb then json_response 503 (unhealthy_body ''circuit breaker tripped'')
         else if stale then json_response 503 (unhealthy_body ''websocket data stale'')
         else json_response 200 healthy_body)"

definition status_body :: "circuit_breaker \<Rightarrow> u64 \<Rightarrow> u64 \<Rightarrow> u64 \<Rightarrow> u64 \<Rightarrow> json" where
  "status_body cb last_message_at reconnects uptime now_ms =
     (case breaker_stats cb of (orders, usd) \<Rightarrow>
      let last_msg_ago = (if 0 < last_message_at
                          then f64_div (f64_of_u64 (saturating_sub now_ms last_message_at)) (round_ratio False 1000 1)
                          else round_ratio True 1 1)
      in JObject
        [(''status'', JString (if cb_tripped cb then ''unhealthy'' else ''ok'')),
         (''uptime_seconds'', JNatural uptime),
         (''circuit_breaker'', JObject
           [(''tripped'', JBool (cb_tripped cb)), (''orders_fired'', JNatural orders),
            (''max_orders'', JNatural (cb_max_orders cb)), (''usd_committed'', JFloat usd),
            (''max_usd'', JFloat (breaker_max_usd cb))]),
         (''websocket'', JObject
           [(''last_message_seconds_ago'', JFloat last_msg_ago), (''reconnect_count'', JNatural reconnects)])])"

definition handle_request ::
    "(json \<Rightarrow> string) \<Rightarrow> string \<Rightarrow> circuit_breaker \<Rightarrow> u64 \<Rightarrow> u64 \<Rightarrow> u64 \<Rightarrow> u64 \<Rightarrow> endpoint_response" where
  "handle_request json_text path cb last_message_at reconnects uptime now_ms =
     (if path = ''/health'' then health_response cb last_message_at now_ms
      else if path = ''/status''
      then json_response 200 (json_text (status_body cb last_message_at reconnects uptime now_ms))
      else not_found_response)"

text \<open>
  What the server's loop sees: a connection, with the path it asks for and the counters at that moment, a failed accept, or
  a change of the shutdown flag. \<open>bound\<close> tells whether the port could be bound.
\<close>

datatype server_event =
    HealthRequest string circuit_breaker u64 u64 u64 u64
  | AcceptFailed string
  | ServerShutdown bool

fun serve_health :: "(json \<Rightarrow> string) \<Rightarrow> server_event list \<Rightarrow> endpoint_response list" where
  "serve_health json_text [] = []"
| "serve_health json_text (HealthRequest path cb last_message_at reconnects uptime now_ms # events) =
     handle_request json_text path cb last_message_at reconnects uptime now_ms # serve_health json_text events"
| "serve_health json_text (AcceptFailed e # events) = serve_health json_text events"
| "serve_health json_text (ServerShutdown b # events) = (if b then [] else serve_health json_text events)"

definition run_health_server ::
    "(json \<Rightarrow> string) \<Rightarrow> bool \<Rightarrow> server_event list \<Rightarrow> endpoint_response list" where
  "run_health_server json_text bound events = (if bound then serve_health json_text events else [])"

section \<open>Alerts\<close>

text \<open>
  The delivery of an alert: one \<open>POST\<close> of a JSON text. Whatever the client answers is logged and nothing else.
\<close>

record 'w alert_client =
  al_build :: "(string, unit) result"
  al_post :: "string \<Rightarrow> (string \<times> string) list \<Rightarrow> string \<Rightarrow> 'w \<Rightarrow> (string, 16 word) result \<times> 'w"

definition deliver_alert :: "(json \<Rightarrow> string) \<Rightarrow> 'w alert_client \<Rightarrow> string \<Rightarrow> string \<Rightarrow> 'w \<Rightarrow> 'w" where
  "deliver_alert json_text client webhook_url message w =
     (let body = json_text (JObject [(''text'', JString message)])
      in case al_build client of
           Inl e \<Rightarrow> w
         | Inr _ \<Rightarrow> snd (al_post client webhook_url [(''Content-Type'', ''application/json'')] body w))"

section \<open>The bridges\<close>

text \<open>
  What \<open>broadcast_to_mpsc\<close> receives: a snapshot (with whether the strategy's end is then open), the notice that it lagged,
  the end of the broadcast, or a change of the shutdown flag.
\<close>

datatype snapshot_event =
  SnapshotReceived order_book_snapshot bool | SnapshotsLagged u64 | SnapshotsClosed | SnapshotShutdown bool

fun broadcast_to_mpsc :: "snapshot_event list \<Rightarrow> order_book_snapshot list" where
  "broadcast_to_mpsc [] = []"
| "broadcast_to_mpsc (SnapshotReceived s opened # events) = (if opened then s # broadcast_to_mpsc events else [])"
| "broadcast_to_mpsc (SnapshotsLagged n # events) = broadcast_to_mpsc events"
| "broadcast_to_mpsc (SnapshotsClosed # events) = []"
| "broadcast_to_mpsc (SnapshotShutdown b # events) = (if b then [] else broadcast_to_mpsc events)"

text \<open>What \<open>mpsc_to_crossbeam\<close> receives; a trigger comes with the clock and with whether the queue is open.\<close>

datatype trigger_event =
  TriggerReceived trigger_message u64 bool | TriggersClosed | TriggerShutdown bool

fun mpsc_to_crossbeam :: "trigger_event list \<Rightarrow> trigger_message list" where
  "mpsc_to_crossbeam [] = []"
| "mpsc_to_crossbeam (TriggerReceived t now opened # events) =
     (if opened then t\<lparr>tm_timestamp_ns := now\<rparr> # mpsc_to_crossbeam events else [])"
| "mpsc_to_crossbeam (TriggersClosed # events) = []"
| "mpsc_to_crossbeam (TriggerShutdown b # events) = (if b then [] else mpsc_to_crossbeam events)"

section \<open>The cents survive a restart up to one\<close>

lemma f64_100_real: "f64_real f64_100 = 100"
  by (simp add: f64_100_eq f64_real_def)

lemma f64_div_100_real:
  "f64_div (Finite False m e) f64_100 =
     round_ratio False (m * 2 ^ nat (e + 46)) (7036874417766400 * 2 ^ nat (- 46 - e))"
  "real (m * 2 ^ nat (e + 46)) / real (7036874417766400 * 2 ^ nat (- 46 - e)) = f64_real (Finite False m e) / 100"
proof -
  show "f64_div (Finite False m e) f64_100 =
     round_ratio False (m * 2 ^ nat (e + 46)) (7036874417766400 * 2 ^ nat (- 46 - e))"
    by (simp add: f64_100_eq)
  have "real (m * 2 ^ nat (e + 46)) / real (7036874417766400 * 2 ^ nat (- 46 - e)) =
      real m / 7036874417766400 * (2 ^ nat (e + 46) / 2 ^ nat (- (e + 46)))"
  proof -
    have "- 46 - e = - (e + 46)" by simp
    then show ?thesis by (simp only: of_nat_mult of_nat_power of_nat_numeral times_divide_times_eq)
  qed
  also have "\<dots> = real m / 7036874417766400 * 2 powi (e + 46)" by (simp only: powi_split [of "e + 46"])
  also have "(2::real) powi (e + 46) = 2 powi e * 70368744177664"
    by (subst power_int_add) simp_all
  finally show "real (m * 2 ^ nat (e + 46)) / real (7036874417766400 * 2 ^ nat (- 46 - e)) = f64_real (Finite False m e) / 100"
    by (simp add: f64_real_def)
qed

lemma f64_div_100_approx:
  assumes x: "f64_approx x v f64_unit" and v: "0 \<le> v" and range: "normal_range (f64_real x / 100)"
  shows "f64_approx (f64_div x f64_100) (v / 100) (1 / 2 ^ 51)"
proof -
  obtain m e where xe: "x = Finite False m e" using x by (auto simp: f64_approx_def)
  have A: "f64_approx (f64_div x f64_100) (f64_real x / 100) f64_unit"
    using round_ratio_approx [of "7036874417766400 * 2 ^ nat (- 46 - e)" "m * 2 ^ nat (e + 46)"] range
    unfolding xe f64_div_100_real by simp
  have bounds: "v * (1 - f64_unit) \<le> f64_real x" "f64_real x \<le> v * (1 + f64_unit)"
    using x by (auto simp: f64_approx_def)
  have u: "0 \<le> f64_unit" "f64_unit \<le> 1" by (simp_all add: f64_unit_def)
  have "v / 100 * (1 - 1 / 2 ^ 51) \<le> v / 100 * ((1 - f64_unit) * (1 - f64_unit))"
    using v by (intro mult_left_mono) (simp_all add: f64_unit_def)
  also have "\<dots> = v * (1 - f64_unit) / 100 * (1 - f64_unit)" by simp
  also have "\<dots> \<le> f64_real x / 100 * (1 - f64_unit)"
    using bounds(1) u by (intro mult_right_mono divide_right_mono) auto
  finally have lo: "v / 100 * (1 - 1 / 2 ^ 51) \<le> f64_real (f64_div x f64_100)"
    using A by (simp add: f64_approx_def)
  have "f64_real x / 100 * (1 + f64_unit) \<le> v * (1 + f64_unit) / 100 * (1 + f64_unit)"
    using bounds(2) u by (intro mult_right_mono divide_right_mono) auto
  also have "\<dots> = v / 100 * ((1 + f64_unit) * (1 + f64_unit))" by simp
  also have "\<dots> \<le> v / 100 * (1 + 1 / 2 ^ 51)"
    using v by (intro mult_left_mono) (simp_all add: f64_unit_def)
  finally show ?thesis using lo A by (simp add: f64_approx_def)
qed

text \<open>Between zero and \<open>2 ^ 60\<close> nothing underflows or overflows.\<close>

lemma normal_range_small:
  assumes "r = 0 \<or> 1 / 1000 \<le> r" and "r \<le> 2 ^ 60"
  shows "normal_range r"
proof (rule moderate_normal)
  have "(2::real) powi (- 300) \<le> 1 / 1000" "(2::real) ^ 60 \<le> 2 powi 300" by simp_all
  with assms show "moderate r" unfolding moderate_def by linarith
qed

lemma persisted_cents_range:
  assumes "unat (cb_usd_committed_cents cb) < 2 ^ 50"
  shows "unat (es_usd_committed_cents (persisted_state now cb)) \<le> unat (cb_usd_committed_cents cb)"
    and "unat (cb_usd_committed_cents cb) \<le> unat (es_usd_committed_cents (persisted_state now cb)) + 1"
proof -
  define c where "c = unat (cb_usd_committed_cents cb)"
  have small: "real c < 2 ^ 50"
    using assms unfolding c_def by (metis of_nat_less_iff of_nat_numeral of_nat_power)
  then have small': "real c < 1125899906842624" by simp
  have zero_or_one: "real c = 0 \<or> 1 \<le> real c" by (cases c) simp_all
  define x where "x = f64_of_u64 (cb_usd_committed_cents cb)"
  have "normal_range (real c)"
    using small zero_or_one by (intro normal_range_small) auto
  then have x: "f64_approx x (real c) f64_unit"
    using round_ratio_approx [of 1 c] by (simp add: x_def f64_of_u64_def c_def)
  have u: "0 \<le> f64_unit" "f64_unit \<le> 1" "f64_unit \<le> 1 / 2" by (simp_all add: f64_unit_def)
  note xr = f64_approx_range [OF x of_nat_0_le_iff u(3)]
  have "f64_real x / 100 \<le> 2 ^ 60" "f64_real x / 100 = 0 \<or> 1 / 1000 \<le> f64_real x / 100"
    using xr zero_or_one small' by (simp, linarith)+
  then have "normal_range (f64_real x / 100)" by (intro normal_range_small)
  then have y: "f64_approx (f64_div x f64_100) (real c / 100) (1 / 2 ^ 51)"
    by (intro f64_div_100_approx [OF x]) simp_all
  note yr = f64_approx_range [OF y]
  have yr: "real c / 200 \<le> f64_real (f64_div x f64_100)" "f64_real (f64_div x f64_100) \<le> real c / 50"
    using yr by simp_all
  have "f64_real (f64_div x f64_100) * 100 \<le> 2 ^ 60"
    "f64_real (f64_div x f64_100) * 100 = 0 \<or> 1 / 1000 \<le> f64_real (f64_div x f64_100) * 100"
    using yr zero_or_one small' by (simp, linarith)+
  then have "normal_range (f64_real (f64_div x f64_100) * f64_real f64_100)"
    unfolding f64_100_real by (intro normal_range_small)
  then have "f64_approx (f64_mul (f64_div x f64_100) f64_100) (real c / 100 * 100) (1 / 2 ^ 50)"
    by (intro f64_mul_approx [OF y f64_100_approx]) (simp_all add: f64_unit_def)
  then have z: "f64_approx (f64_mul (f64_div x f64_100) f64_100) (real c) (1 / 2 ^ 50)" by simp
  define n where "n = unat (f64_to_u64 (f64_mul (f64_div x f64_100) f64_100))"
  have "real c * (1 + 1 / 2 ^ 50) < 2 ^ 64" using small by simp
  from f64_to_u64_approx [OF z this] have "real c * (1 - 1 / 2 ^ 50) - 1 < real n" "real n \<le> real c * (1 + 1 / 2 ^ 50)"
    by (simp_all only: n_def)
  then have "real c - 2 < real n" "real n < real c + 1" using small by (simp_all add: algebra_simps)
  then have "n \<le> c" "c \<le> n + 1" by linarith+
  moreover have "es_usd_committed_cents (persisted_state now cb) = f64_to_u64 (f64_mul (f64_div x f64_100) f64_100)"
    by (simp add: persisted_state_def breaker_stats_def state_from_stats_def x_def)
  ultimately show "unat (es_usd_committed_cents (persisted_state now cb)) \<le> unat (cb_usd_committed_cents cb)"
    "unat (cb_usd_committed_cents cb) \<le> unat (es_usd_committed_cents (persisted_state now cb)) + 1"
    by (simp_all add: n_def c_def)
qed

text \<open>One cent is lost at 29 cents: the saved state has 28. The trip is saved, and the restored breaker is not tripped.\<close>

lemma persisted_29_cents:
  assumes "cb_usd_committed_cents cb = 29"
  shows "es_usd_committed_cents (persisted_state now cb) = 28"
proof -
  have a: "f64_of_u64 29 = Finite False 8162774324609024 (- 48)"
    by (simp add: f64_of_u64_def round_eval)
  have b: "f64_div (Finite False 8162774324609024 (- 48)) f64_100 = Finite False 5224175567749775 (- 54)"
    unfolding f64_100_eq by (simp add: round_eval)
  have c: "f64_mul (Finite False 5224175567749775 (- 54)) f64_100 = Finite False 8162774324609023 (- 48)"
    unfolding f64_100_eq by (simp add: round_eval)
  show ?thesis
    by (simp add: persisted_state_def breaker_stats_def state_from_stats_def assms a b c)
qed

lemma restart_forgets_the_trip:
  "\<not> cb_tripped (restored_breaker sc (persisted_state now (trip cb)))" "es_tripped (persisted_state now (trip cb))"
  by (simp_all add: restored_breaker_def with_initial_counts_def persisted_state_def breaker_stats_def
      state_from_stats_def trip_def)

section \<open>The limits hold across restarts\<close>

text \<open>What the breaker \<open>b'\<close> counts after \<open>b\<close>: at least \<open>n\<close> orders and \<open>c\<close> cents more, at most \<open>N\<close> and \<open>C\<close>.\<close>

definition counted :: "circuit_breaker \<Rightarrow> circuit_breaker \<Rightarrow> nat \<Rightarrow> nat \<Rightarrow> nat \<Rightarrow> nat \<Rightarrow> bool" where
  "counted b b' n c N C \<longleftrightarrow>
     unat (cb_orders_fired b) + n \<le> unat (cb_orders_fired b') \<and>
     unat (cb_orders_fired b') \<le> unat (cb_orders_fired b) + N \<and>
     unat (cb_usd_committed_cents b) + c \<le> unat (cb_usd_committed_cents b') \<and>
     unat (cb_usd_committed_cents b') \<le> unat (cb_usd_committed_cents b) + C"

lemma counted_same: "cb_orders_fired b' = cb_orders_fired b \<Longrightarrow> cb_usd_committed_cents b' = cb_usd_committed_cents b \<Longrightarrow>
    counted b b' 0 0 N C"
  by (simp add: counted_def)

lemma counted_trans:
  "counted a b n c N C \<Longrightarrow> counted b d m k M K \<Longrightarrow> counted a d (n + m) (c + k) (N + M) (C + K)"
  by (simp add: counted_def)

lemma counted_trip: "counted b (trip b') n c N C \<longleftrightarrow> counted b b' n c N C"
  by (simp add: counted_def trip_def)

lemma check_and_record_counted:
  assumes "check_and_record b price sz = (r, b')"
    and "unat (cb_orders_fired b) + 1 < 2 ^ 64"
    and "unat (cb_usd_committed_cents b) + unat (order_cents price sz) < 2 ^ 64"
  shows "counted b b' 0 0 1 (unat (order_cents price sz))"
    and "r = Inr () \<Longrightarrow> counted b b' 1 (unat (order_cents price sz)) 1 (unat (order_cents price sz))"
  using assms unat_add_no_wrap [of "cb_orders_fired b" 1]
    unat_add_no_wrap [of "cb_usd_committed_cents b" "order_cents price sz"]
  by (auto simp: check_and_record_def Let_def counted_def split: if_splits)

lemma handle_trigger_counted:
  assumes h: "handle_trigger xs t now st = (status, out, st')" and free: "\<not> og_in_flight (xe_guard st)"
    and room: "unat (cb_orders_fired (xe_breaker st)) + 1 < 2 ^ 64"
      "unat (cb_usd_committed_cents (xe_breaker st)) + trigger_cents t < 2 ^ 64"
  shows "counted (xe_breaker st) (xe_breaker st') (length (dispatched_triggers out))
      (sum_list (map trigger_cents (dispatched_triggers out))) 1 (trigger_cents t) \<and> \<not> og_in_flight (xe_guard st')"
  using h free
proof (cases rule: handle_trigger_cases)
  case (live st1)
  from live(2) show ?thesis
  proof (cases rule: handle_live_cases)
    case (tripped reason)
    with check_and_record_counted(1) [OF tripped(4)] room live(4) show ?thesis by (simp add: trigger_cents_def)
  next
    case (failed oc cb)
    with check_and_record_counted(2) [OF failed(5)] room live(4) show ?thesis
      by (simp add: trigger_cents_def counted_trip)
  next
    case (completed oc cb pp)
    with check_and_record_counted(2) [OF completed(5)] room live(4) show ?thesis by (simp add: trigger_cents_def)
  qed
qed (simp_all add: counted_same)

lemma counted_weaken: "counted a b n c N C \<Longrightarrow> N \<le> M \<Longrightarrow> C \<le> K \<Longrightarrow> counted a b n c M K"
  by (simp add: counted_def)

lemma loop_counted:
  assumes "run_execution_loop xs polls st = (status, outs, st')"
    and "\<not> og_in_flight (xe_guard st)"
    and "unat (cb_orders_fired (xe_breaker st)) + length polls < 2 ^ 64"
    and "unat (cb_usd_committed_cents (xe_breaker st)) + sum_list (map poll_cents polls) < 2 ^ 64"
  shows "counted (xe_breaker st) (xe_breaker st') (length (dispatched_triggers outs))
      (sum_list (map trigger_cents (dispatched_triggers outs))) (length polls) (sum_list (map poll_cents polls))"
  using assms
proof (induction polls arbitrary: st outs)
  case Nil
  then show ?case by (simp add: counted_same)
next
  case (Cons pl polls)
  obtain sd p where pl: "pl = (sd, p)" by force
  from Cons.prems(1) [unfolded pl] show ?case
  proof (cases rule: loop_step_cases)
    case ended
    then show ?thesis by (simp add: counted_same)
  next
    case waited
    from Cons.IH [OF waited(2) Cons.prems(2)] Cons.prems(3,4) show ?thesis by (simp add: counted_def)
  next
    case (last_trigger t now)
    have cents: "poll_cents pl = trigger_cents t" by (simp add: pl last_trigger(1))
    from handle_trigger_counted [OF last_trigger(2) Cons.prems(2)] Cons.prems(3,4) show ?thesis
      by (auto simp: cents intro: counted_weaken)
  next
    case (next_trigger t now out st1 outs1)
    have cents: "poll_cents pl = trigger_cents t" by (simp add: pl next_trigger(1))
    from handle_trigger_counted [OF next_trigger(2) Cons.prems(2)] Cons.prems(3,4)
    have one: "counted (xe_breaker st) (xe_breaker st1) (length (dispatched_triggers out))
        (sum_list (map trigger_cents (dispatched_triggers out))) 1 (trigger_cents t)"
      and free: "\<not> og_in_flight (xe_guard st1)" by (simp_all add: cents)
    from one Cons.prems(3,4) have "unat (cb_orders_fired (xe_breaker st1)) + length polls < 2 ^ 64"
      "unat (cb_usd_committed_cents (xe_breaker st1)) + sum_list (map poll_cents polls) < 2 ^ 64"
      by (simp_all add: counted_def cents)
    from counted_trans [OF one Cons.IH [OF next_trigger(3) free this]] show ?thesis
      by (simp add: next_trigger(4) cents)
  qed
qed

text \<open>
  Runs of the executor one after the other with one configuration: each starts from the breaker restored from the state that the one
  before saved at its end, and none of its own; \<open>now\<close> is the time of day at the end of a run.
\<close>

fun run_sessions ::
    "safety_config \<Rightarrow> executor_state
      \<Rightarrow> (('w, 'h, 'a, 't, 's, 'f) execution_setup \<times> (bool \<times> poll) list \<times> ('w, 's) execution_state \<times> string) list
      \<Rightarrow> trigger_message list" where
  "run_sessions sc saved [] = []"
| "run_sessions sc saved ((xs, polls, st, now) # rest) =
     (case run_execution_loop xs polls
             (st\<lparr>xe_breaker := restored_breaker sc saved, xe_guard := order_guard_new\<rparr>) of
        (status, outs, st') \<Rightarrow>
          dispatched_triggers (outs :: 'a loop_output list) @ run_sessions sc (persisted_state now (xe_breaker st')) rest)"

fun session_polls ::
    "(('w, 'h, 'a, 't, 's, 'f) execution_setup \<times> (bool \<times> poll) list \<times> ('w, 's) execution_state \<times> string) list
      \<Rightarrow> (bool \<times> poll) list" where
  "session_polls [] = []"
| "session_polls ((xs, polls, st, now) # rest) = polls @ session_polls rest"

text \<open>
  C4. The limits hold over any number of runs of the executor, however each of them ends: with the counts in the state
  file at the first start, the orders dispatched over all runs stay within the order limit, and their cents exceed the
  dollar limit by at most one cent for each run, which is what saving the dollars as a binary fraction can lose.
\<close>

theorem limits_hold_across_restarts:
  assumes "unat (es_orders_fired saved) + length (session_polls sessions) < 2 ^ 64"
    and "unat (es_usd_committed_cents saved) + sum_list (map poll_cents (session_polls sessions)) < 2 ^ 50"
    and "run_sessions sc saved sessions \<noteq> []"
  shows "unat (es_orders_fired saved) + length (run_sessions sc saved sessions) \<le> unat (scf_max_orders sc) \<and>
    unat (es_usd_committed_cents saved) + sum_list (map trigger_cents (run_sessions sc saved sessions))
      \<le> unat (f64_to_u64 (f64_mul (scf_max_usd_exposure sc) f64_100)) + length sessions"
  using assms
proof (induction sessions arbitrary: saved)
  case (Cons s sessions)
  obtain xs polls st now where s: "s = (xs, polls, st, now)" by (cases s)
  define st0 where "st0 = st\<lparr>xe_breaker := restored_breaker sc saved, xe_guard := order_guard_new\<rparr>"
  obtain status outs st' where run: "run_execution_loop xs polls st0 = (status, outs, st')" by (metis prod_cases3)
  define saved' where "saved' = persisted_state now (xe_breaker st')"
  have start: "cb_orders_fired (xe_breaker st0) = es_orders_fired saved"
    "cb_usd_committed_cents (xe_breaker st0) = es_usd_committed_cents saved"
    "cb_max_orders (xe_breaker st0) = scf_max_orders sc"
    "cb_max_usd_cents (xe_breaker st0) = f64_to_u64 (f64_mul (scf_max_usd_exposure sc) f64_100)"
    "\<not> og_in_flight (xe_guard st0)"
    by (simp_all add: st0_def restored_breaker_def with_initial_counts_def order_guard_new_def)
  have room: "unat (cb_orders_fired (xe_breaker st0)) + length polls < 2 ^ 64"
    "unat (cb_usd_committed_cents (xe_breaker st0)) + sum_list (map poll_cents polls) < 2 ^ 50"
    using Cons.prems(1,2) by (simp_all add: s start)
  then have room': "unat (cb_usd_committed_cents (xe_breaker st0)) + sum_list (map poll_cents polls) < 2 ^ 64" by simp
  note counts = loop_counted [OF run start(5) room(1) room', unfolded counted_def start]
  have "unat (cb_usd_committed_cents (xe_breaker st')) < 2 ^ 50" using counts room start by simp
  note cents = persisted_cents_range [OF this, of now, folded saved'_def]
  have orders: "es_orders_fired saved' = cb_orders_fired (xe_breaker st')"
    by (simp add: saved'_def persisted_state_def breaker_stats_def state_from_stats_def)
  have all: "run_sessions sc saved (s # sessions) = dispatched_triggers outs @ run_sessions sc saved' sessions"
    by (simp add: s run [unfolded st0_def] saved'_def)
  show ?case
  proof (cases "run_sessions sc saved' sessions = []")
    case True
    then have "dispatched_triggers outs \<noteq> []" using Cons.prems(3) by (simp add: all)
    from loop_within_limits [OF run start(5) room(1) room' this] show ?thesis
      by (simp add: all True start)
  next
    case False
    have "unat (es_orders_fired saved') + length (session_polls sessions) < 2 ^ 64"
      "unat (es_usd_committed_cents saved') + sum_list (map poll_cents (session_polls sessions)) < 2 ^ 50"
      using Cons.prems(1,2) counts cents orders by (simp_all add: s)
    from Cons.IH [OF this False] counts cents orders show ?thesis by (simp add: all)
  qed
qed simp

definition sample_safety :: safety_config where
  "sample_safety =
     \<lparr>scf_max_orders = 1, scf_max_usd_exposure = round_ratio False 5 1, scf_max_triggers_per_second = 10,
      scf_require_confirmation = True, scf_alert_webhook_url = None\<rparr>"

lemma sample_restored: "restored_breaker sample_safety executor_state_default = breaker_for_one"
  by (simp add: restored_breaker_def sample_safety_def executor_state_default_def breaker_for_one_def)

theorem limits_hold_across_restarts_witness:
  "run_sessions sample_safety executor_state_default
     [(sample_setup False, sample_polls, sample_state 1, ''t1''), (sample_setup False, [], sample_state 1, ''t2'')]
     = [sample_trigger] \<and>
   unat (es_usd_committed_cents executor_state_default) + sum_list (map trigger_cents [sample_trigger])
      \<le> unat (f64_to_u64 (f64_mul (scf_max_usd_exposure sample_safety) f64_100)) + 2"
proof -
  let ?sessions = "[(sample_setup False, sample_polls, sample_state 1, ''t1''), (sample_setup False, [], sample_state 1, ''t2'')]"
  obtain status oc st' where r: "run_execution_loop (sample_setup False) sample_polls (sample_state 1)
      = (status, [Dispatched sample_trigger oc], st')"
    using sample_run [of 1] by blast
  have same: "sample_state 1\<lparr>xe_breaker := restored_breaker sample_safety executor_state_default,
      xe_guard := order_guard_new\<rparr> = sample_state 1"
    by (simp add: sample_restored) (simp add: sample_state_def)
  have run: "run_sessions sample_safety executor_state_default ?sessions = [sample_trigger]"
    by (simp add: same r del: One_nat_def)
  have "trigger_cents sample_trigger = 450"
    by (simp add: trigger_cents_def sample_trigger_def order_cents_450)
  then have "unat (es_usd_committed_cents executor_state_default) + sum_list (map poll_cents (session_polls ?sessions)) < 2 ^ 50"
    by (simp add: executor_state_default_def sample_polls_def)
  moreover have "unat (es_orders_fired executor_state_default) + length (session_polls ?sessions) < 2 ^ 64"
    by (simp add: executor_state_default_def sample_polls_def)
  ultimately show ?thesis
    using limits_hold_across_restarts [of executor_state_default ?sessions sample_safety] run by simp
qed

section \<open>What a start has checked\<close>

lemma started:
  fixes sl :: "('w, 'h, 'a, 't, 's, 'f, 'r, 'k) shell"
  assumes "start sl c w = (Ready ex, w')"
  defines "xs \<equiv> ex_setup ex" and "st \<equiv> ex_state ex" and "cc \<equiv> ecf_credentials c"
  shows "xe_guard st = order_guard_new \<and>
    xe_limiter st = rate_limiter_new (scf_max_triggers_per_second (ecf_safety c)) \<and> ex_assets ex = resolved_subscription_asset_ids c \<and>
    build_strategy (ecf_strategy c) = Inr (ex_strategy ex) \<and>
    xe_breaker st = restored_breaker (ecf_safety c) (load_state (sl_files sl) (xcf_state_file (ecf_execution c)) w') \<and>
    \<not> cb_tripped (xe_breaker st) \<and> xs_dry_run xs = xcf_dry_run (ecf_execution c) \<and>
    (if xcf_dry_run (ecf_execution c)
     then w' = w \<and> xs_signer_params xs = None \<and> cp_connections (xe_pool st) = []
     else cc_private_key cc \<noteq> [] \<and> cc_api_key cc \<noteq> [] \<and> cc_api_secret cc \<noteq> [] \<and> cc_passphrase cc \<noteq> [] \<and>
       (\<exists>key maker warm w1. xs_platform xs = sl_platform sl (Some key) \<and>
          validate_credentials (xs_platform xs) (sl_auth_client sl) (xs_creds xs) w = (Inr (), w1) \<and>
          warmup (sl_network sl)
            (connection_pool_new (sl_vec_capacity sl) clob_host clob_port (ncf_pool_size (ecf_connection c))
               (address_family_of (ncf_address_family (ecf_connection c)))) w1 = (Inr warm, xe_pool st, w') \<and>
          sl_parse_address sl (cc_maker_address cc) = Inr maker \<and>
          xs_signer_params xs = Some (signer_params_of maker (sl_key_address sl key) c)))"
proof -
  obtain l2 signer where creds: "build_credentials (sl_parse_key sl) (ecf_credentials c) (xcf_dry_run (ecf_execution c)) = Inr (l2, signer)"
    using assms(1) by (cases "build_credentials (sl_parse_key sl) (ecf_credentials c) (xcf_dry_run (ecf_execution c))")
      (auto simp: start_def Let_def)
  obtain strategy where strategy: "build_strategy (ecf_strategy c) = Inr strategy"
    using assms(1) creds by (cases "build_strategy (ecf_strategy c)") (auto simp: start_def Let_def)
  have finish: "xe_guard (ex_state ex) = order_guard_new \<and>
      xe_limiter (ex_state ex) = rate_limiter_new (scf_max_triggers_per_second (ecf_safety c)) \<and> ex_assets ex = resolved_subscription_asset_ids c \<and> ex_strategy ex = strategy \<and> xs_creds (ex_setup ex) = l2 \<and> xs_platform (ex_setup ex) = sl_platform sl signer \<and>
      xs_dry_run (ex_setup ex) = xcf_dry_run (ecf_execution c) \<and> xs_signer_params (ex_setup ex) = params \<and>
      xe_pool (ex_state ex) = pool \<and> xe_breaker (ex_state ex) =
        restored_breaker (ecf_safety c) (load_state (sl_files sl) (xcf_state_file (ecf_execution c)) v)"
    if "finish_start sl c l2 signer strategy pool params v = Ready ex" for pool params v
    using that by (auto simp: finish_start_def Let_def split: sum.splits)
  define pool :: "'s connection_pool" where "pool = connection_pool_new (sl_vec_capacity sl) clob_host clob_port (ncf_pool_size (ecf_connection c))
    (address_family_of (ncf_address_family (ecf_connection c)))"
  have up: "\<not> cb_tripped (restored_breaker sc prev)" for sc prev
    by (simp add: restored_breaker_def with_initial_counts_def)
  show ?thesis
  proof (cases "xcf_dry_run (ecf_execution c)")
    case True
    then have "finish_start sl c l2 signer strategy pool None w = Ready ex" "w' = w"
      using assms(1) creds strategy by (auto simp: start_def Let_def pool_def)
    from finish [OF this(1)] this(2) show ?thesis
      by (simp add: True strategy xs_def st_def up pool_def connection_pool_new_def)
  next
    case False
    obtain v1 w1 where v: "validate_credentials (sl_platform sl signer) (sl_auth_client sl) l2 w = (v1, w1)" by fastforce
    then have ok: "v1 = Inr ()" using assms(1) creds strategy False
      by (cases v1) (auto simp: start_def Let_def)
    obtain r pool' w2 where warm: "warmup (sl_network sl) pool w1 = (r, pool', w2)" by (metis prod_cases3)
    then obtain n where n: "r = Inr n" using assms(1) creds strategy False v ok
      by (cases r) (auto simp: start_def Let_def pool_def)
    obtain key where key: "signer = Some key" using assms(1) creds strategy False v ok warm n
      by (cases signer) (auto simp: start_def Let_def pool_def)
    obtain maker where maker: "sl_parse_address sl (cc_maker_address cc) = Inr maker"
      using assms(1) creds strategy False v ok warm n key
      by (cases "sl_parse_address sl (cc_maker_address cc)") (auto simp: start_def Let_def pool_def cc_def)
    have "finish_start sl c l2 signer strategy pool' (Some (signer_params_of maker (sl_key_address sl key) c)) w2 = Ready ex"
      "w' = w2"
      using assms(1) creds strategy False v ok warm n key maker by (auto simp: start_def Let_def pool_def cc_def)
    note f = finish [OF this(1)] this(2)
    have "cc_private_key cc \<noteq> [] \<and> cc_api_key cc \<noteq> [] \<and> cc_api_secret cc \<noteq> [] \<and> cc_passphrase cc \<noteq> []"
      using creds False by (auto simp: build_credentials_def Let_def cc_def split: if_splits)
    then show ?thesis using f v warm
      by (simp add: False strategy xs_def st_def up ok n key maker) (auto simp: pool_def)
  qed
qed

text \<open>
  C21. An executor that starts has a strategy built from its configuration and a breaker with the configured limits,
  the counts of the state file and the flag down. In a dry run it has not touched the network: no signer, no connection, the
  world as before. Otherwise every credential was given, the exchange accepted them, the pool was warmed, and orders are
  signed for the configured maker with the key's address.
\<close>

theorem start_checks:
  fixes sl :: "('w, 'h, 'a, 't, 's, 'f, 'r, 'k) shell"
  assumes "start sl c w = (Ready ex, w')"
  defines "xs \<equiv> ex_setup ex" and "st \<equiv> ex_state ex" and "cc \<equiv> ecf_credentials c"
  shows "build_strategy (ecf_strategy c) = Inr (ex_strategy ex) \<and>
    xe_breaker st = restored_breaker (ecf_safety c) (load_state (sl_files sl) (xcf_state_file (ecf_execution c)) w') \<and>
    \<not> cb_tripped (xe_breaker st) \<and> xs_dry_run xs = xcf_dry_run (ecf_execution c) \<and>
    (if xcf_dry_run (ecf_execution c)
     then w' = w \<and> xs_signer_params xs = None \<and> cp_connections (xe_pool st) = []
     else cc_private_key cc \<noteq> [] \<and> cc_api_key cc \<noteq> [] \<and> cc_api_secret cc \<noteq> [] \<and> cc_passphrase cc \<noteq> [] \<and>
       (\<exists>key maker warm w1. xs_platform xs = sl_platform sl (Some key) \<and>
          validate_credentials (xs_platform xs) (sl_auth_client sl) (xs_creds xs) w = (Inr (), w1) \<and>
          warmup (sl_network sl)
            (connection_pool_new (sl_vec_capacity sl) clob_host clob_port (ncf_pool_size (ecf_connection c))
               (address_family_of (ncf_address_family (ecf_connection c)))) w1 = (Inr warm, xe_pool st, w') \<and>
          sl_parse_address sl (cc_maker_address cc) = Inr maker \<and>
          xs_signer_params xs = Some (signer_params_of maker (sl_key_address sl key) c)))"
  using started [OF assms(1)] unfolding assms(2-) by blast

definition sample_client :: "(nat \<times> bool, unit) auth_client" where
  "sample_client =
     \<lparr>ac_build = Inr (), ac_get = (\<lambda>url headers w. (Inr (), w)), ac_status = (\<lambda>r. 200),
      ac_status_text = (\<lambda>s. ''200 OK''), ac_text = (\<lambda>r w. (Inr [], w))\<rparr>"

definition sample_files :: "(nat \<times> bool) file_system" where
  "sample_files =
     \<lparr>fs_read = (\<lambda>path w. Inl ''not found''), fs_parent = (\<lambda>path. Some []),
      fs_create_dir_all = (\<lambda>path w. (Inr (), w)), fs_write = (\<lambda>path content w. (Inl ''read only'', w)),
      fs_state_to_json = (\<lambda>st. Inl ''none''), fs_state_from_json = (\<lambda>s. Inl ''none'')\<rparr>"

definition sample_shell :: "(nat \<times> bool, string, unit, unit, nat, nat, unit, nat) shell" where
  "sample_shell =
     \<lparr>sl_platform = (\<lambda>key. plain_platform), sl_network = flaky_network, sl_auth_client = sample_client,
      sl_files = sample_files, sl_parse_key = (\<lambda>s. Inr 7), sl_key_address = (\<lambda>k. 9),
      sl_parse_address = (\<lambda>s. Inr 8), sl_vec_capacity = (\<lambda>n. n)\<rparr>"

definition sample_config :: "bool \<Rightarrow> executor_config" where
  "sample_config dry = executor_config_of
     \<lparr>rec_credentials =
        \<lparr>rcc_api_key = Some ''k'', rcc_api_secret = Some ''s'', rcc_passphrase = Some ''p'',
         rcc_private_key = Some ''0x1'', rcc_maker_address = Some ''0x2'', rcc_signer_address = None\<rparr>,
      rec_connection = \<lparr>rnc_pool_size = Some 1, rnc_address_family = None\<rparr>,
      rec_websocket =
        \<lparr>rwc_asset_ids = None, rwc_market_universe = None, rwc_source_bindings = None,
         rwc_ws_channel_capacity = None, rwc_snapshot_channel_capacity = None\<rparr>,
      rec_strategy =
        \<lparr>stc_strategy = ''spread'', stc_token_id = ''42'', stc_side = Buy, stc_size = ''10'', stc_order_type = FOK,
         stc_params = \<lparr>prm_threshold = None, prm_max_spread = Some (round_ratio False 5 100)\<rparr>\<rparr>,
      rec_execution =
        \<lparr>rxc_presign_count = None, rxc_is_neg_risk = None, rxc_fee_rate_bps = None, rxc_dry_run = Some dry,
         rxc_state_file = None\<rparr>,
      rec_logging = None, rec_safety = None, rec_health = None\<rparr>"

lemmas sample_config_facts = sample_config_def executor_config_of_def credentials_config_of_def
  connection_config_of_def websocket_config_of_def execution_config_of_def

lemma finish_start_Ready: "\<exists>ex. finish_start sl c l2 signer strategy pool params w = Ready ex"
  by (simp add: finish_start_def presigned_pool_new_def Let_def)

lemma sample_start_with:
  assumes "build_strategy strategy = Inr boxed"
  shows "\<exists>ex w'. start sample_shell ((sample_config False)\<lparr>ecf_strategy := strategy, ecf_safety := safety\<rparr>) (2, False)
    = (Ready ex, w')"
proof -
  have show5: "show_nat 5 = ''5''" by (subst show_nat.simps) simp
  have creds: "build_credentials (sl_parse_key sample_shell) (ecf_credentials (sample_config False)) False =
      Inr (\<lparr>l2_api_key = ''k'', l2_secret = ''s'', l2_passphrase = ''p'', l2_address = ''0x2''\<rparr>, Some 7)"
    by (simp add: build_credentials_def sample_config_facts sample_shell_def Let_def)
  have valid: "validate_credentials plain_platform sample_client
      \<lparr>l2_api_key = ''k'', l2_secret = ''s'', l2_passphrase = ''p'', l2_address = ''0x2''\<rparr> w = (Inr (), w)" for w
    by (simp add: validate_credentials_def sample_client_def plain_platform_def build_l2_headers_def hmac_signature_def)
  have warm: "\<exists>pool' w'. warmup flaky_network (connection_pool_new (\<lambda>n. n) h p 1 AfAuto) w = (Inr 1, pool', w')" for h p w
    by (simp add: warmup_def connection_pool_new_def connect_h2_def resolve_def connect_sender_for_addr_def
        flaky_network_def Let_def)
  obtain pool' w' where warm': "warmup flaky_network (connection_pool_new (\<lambda>n. n) clob_host clob_port 1 AfAuto) (2, False)
      = (Inr 1, pool', w')" using warm by blast
  show ?thesis
    using creds valid [of "(2, False)"] warm'
    by (simp add: start_def Let_def assms)
      (simp add: assms sample_shell_def sample_config_facts address_family_of_def
        default_address_family_def finish_start_Ready)
qed

lemma sample_start: "\<exists>ex w'. start sample_shell (sample_config False) (2, False) = (Ready ex, w')"
proof -
  have "\<exists>boxed. build_strategy (ecf_strategy (sample_config False)) = Inr boxed"
    by (simp add: sample_config_facts build_strategy_def ok_or_def)
  then obtain boxed where "build_strategy (ecf_strategy (sample_config False)) = Inr boxed" ..
  from sample_start_with [OF this, of "ecf_safety (sample_config False)"] show ?thesis by simp
qed

theorem start_checks_witness:
  "\<exists>ex w'. start sample_shell (sample_config False) (2, False) = (Ready ex, w') \<and>
     \<not> xs_dry_run (ex_setup ex) \<and> xs_signer_params (ex_setup ex) = Some (signer_params_of 8 9 (sample_config False)) \<and>
     unat (cb_max_orders (xe_breaker (ex_state ex))) = 5"
proof -
  obtain ex w' where ex: "start sample_shell (sample_config False) (2, False) = (Ready ex, w')"
    using sample_start by blast
  have "\<not> xcf_dry_run (ecf_execution (sample_config False))" by (simp add: sample_config_facts)
  with start_checks [OF ex] have
    "\<not> xs_dry_run (ex_setup ex)" "xs_signer_params (ex_setup ex) = Some (signer_params_of 8 9 (sample_config False))"
    "cb_max_orders (xe_breaker (ex_state ex)) = scf_max_orders (ecf_safety (sample_config False))"
    by (auto simp: sample_shell_def restored_breaker_def with_initial_counts_def)
  then show ?thesis
    using ex by (simp add: sample_config_facts safety_config_default_def default_max_orders_def)
qed

section \<open>From snapshots to orders\<close>

fun polled_triggers :: "(bool \<times> poll) list \<Rightarrow> trigger_message list" where
  "polled_triggers [] = []"
| "polled_triggers ((b, Got t now) # polls) = t # polled_triggers polls"
| "polled_triggers ((b, QueueEmpty) # polls) = polled_triggers polls"
| "polled_triggers ((b, QueueDisconnected) # polls) = polled_triggers polls"

fun received_triggers :: "trigger_event list \<Rightarrow> trigger_message list" where
  "received_triggers [] = []"
| "received_triggers (TriggerReceived t now b # events) = t # received_triggers events"
| "received_triggers (TriggersClosed # events) = received_triggers events"
| "received_triggers (TriggerShutdown b # events) = received_triggers events"

lemma handle_trigger_dispatched:
  assumes "handle_trigger xs t now st = (status, out, st')"
  shows "dispatched_triggers out = [] \<or> dispatched_triggers out = [t]"
proof -
  have "dispatched_triggers out = [] \<or> dispatched_triggers out = [t]"
    if "handle_live xs t st1 = (status, out, st')" for st1
    using that by (cases rule: handle_live_cases) auto
  then show ?thesis using assms by (auto simp: handle_trigger_def Let_def split: if_splits prod.splits)
qed

text \<open>The loop dispatches some of the triggers it polls, in their order.\<close>

lemma dispatched_subseq:
  "run_execution_loop xs polls st = (status, outs, st') \<Longrightarrow> subseq (dispatched_triggers outs) (polled_triggers polls)"
proof (induction polls arbitrary: st outs)
  case (Cons pl polls)
  obtain sd p where pl: "pl = (sd, p)" by force
  from Cons.prems [unfolded pl] show ?case
  proof (cases rule: loop_step_cases)
    case waited
    with Cons.IH show ?thesis by (simp add: pl)
  next
    case (last_trigger t now)
    from handle_trigger_dispatched [OF last_trigger(2)] show ?thesis by (auto simp: pl last_trigger(1))
  next
    case (next_trigger t now out st1 outs1)
    from handle_trigger_dispatched [OF next_trigger(2)] Cons.IH [OF next_trigger(3)] show ?thesis
      by (auto simp: pl next_trigger(1,4))
  qed (simp add: pl)
qed simp

text \<open>The bridges lose a tail at most; the second one replaces the time stamp.\<close>

lemma stamped_prefix:
  "prefix (map (\<lambda>t. t\<lparr>tm_timestamp_ns := 0\<rparr>) (mpsc_to_crossbeam events))
     (map (\<lambda>t. t\<lparr>tm_timestamp_ns := 0\<rparr>) (received_triggers events))"
  by (induction events rule: mpsc_to_crossbeam.induct) auto

lemma bridged_received: "s \<in> set (broadcast_to_mpsc events) \<Longrightarrow> SnapshotReceived s True \<in> set events"
  by (induction events rule: broadcast_to_mpsc.induct) (auto split: if_splits)

text \<open>
  From the feed to the exchange: when the stages of the executable are connected by its channels, each stage
  having taken in some beginning of what the one before put out, the orders dispatched are for triggers of the strategy in
  their order and without repetition, and each of them is for the configured token at a best price of a
  snapshot of that token that the feed delivered.
\<close>

theorem orders_follow_snapshots:
  assumes "build_strategy config = Inr strategy"
    and "prefix (map (\<lambda>(t, s, b). s) taken) (broadcast_to_mpsc snapshot_events)"
    and "runner_run boxed_on_book_update taken strategy = (triggers, strategy')"
    and "prefix (received_triggers trigger_events) triggers"
    and "prefix (polled_triggers polls) (mpsc_to_crossbeam trigger_events)"
    and "run_execution_loop xs polls st = (status, outs, st')"
  shows "subseq (map tm_trigger_id (dispatched_triggers outs)) (map (\<lambda>i. 1 + of_nat i) [0..<length triggers]) \<and>
    (\<forall>t \<in> set (dispatched_triggers outs). tm_token_id t = stc_token_id config \<and>
       (\<exists>snapshot. SnapshotReceived snapshot True \<in> set snapshot_events \<and>
          obs_asset_id snapshot = stc_token_id config \<and>
          tm_price t \<in> pl_price ` (set_option (obs_best_bid snapshot) \<union> set_option (obs_best_ask snapshot))))"
proof -
  define unstamp where "unstamp = (\<lambda>t :: trigger_message. t\<lparr>tm_timestamp_ns := 0\<rparr>)"
  have start: "boxed_next_id strategy = 1" "boxed_token strategy = stc_token_id config"
    using assms(1) by (auto simp: build_strategy_def result_facts threshold_new_def spread_new_def split: if_splits)
  note ran = boxed.runner_triggers [OF assms(3), unfolded start]
  have "prefix (map unstamp (polled_triggers polls)) (map unstamp (mpsc_to_crossbeam trigger_events))"
    by (rule map_mono_prefix [OF assms(5)])
  also have "prefix \<dots> (map unstamp (received_triggers trigger_events))"
    unfolding unstamp_def by (rule stamped_prefix)
  also have "prefix \<dots> (map unstamp triggers)" by (rule map_mono_prefix [OF assms(4)])
  finally have "subseq (map unstamp (polled_triggers polls)) (map unstamp triggers)"
    by (rule prefix_imp_subseq)
  then have sub: "subseq (map unstamp (dispatched_triggers outs)) (map unstamp triggers)"
    using subseq_map [OF dispatched_subseq [OF assms(6)], of unstamp] by (rule subseq_order.trans [rotated])
  have "subseq (map tm_trigger_id (map unstamp (dispatched_triggers outs))) (map tm_trigger_id (map unstamp triggers))"
    by (rule subseq_map [OF sub])
  moreover have "map tm_trigger_id (map unstamp ts) = map tm_trigger_id ts" for ts
    by (simp add: unstamp_def comp_def)
  ultimately have "subseq (map tm_trigger_id (dispatched_triggers outs)) (map tm_trigger_id triggers)" by (simp only:)
  then have ids: "subseq (map tm_trigger_id (dispatched_triggers outs)) (map (\<lambda>i. 1 + of_nat i) [0..<length triggers])"
    by (simp only: ran [THEN conjunct1])
  have "tm_token_id t = stc_token_id config \<and>
       (\<exists>snapshot. SnapshotReceived snapshot True \<in> set snapshot_events \<and>
          obs_asset_id snapshot = stc_token_id config \<and>
          tm_price t \<in> pl_price ` (set_option (obs_best_bid snapshot) \<union> set_option (obs_best_ask snapshot)))"
    if t: "t \<in> set (dispatched_triggers outs)" for t
  proof -
    have "unstamp t \<in> set (map unstamp (dispatched_triggers outs))" using t by simp
    then have "unstamp t \<in> set (map unstamp triggers)"
      using list_emb_set [OF sub] by blast
    then obtain u where u: "u \<in> set triggers" "unstamp t = unstamp u" by auto
    have kept: "tm_token_id (unstamp v) = tm_token_id v" "tm_price (unstamp v) = tm_price v" for v
      by (simp_all add: unstamp_def)
    have "tm_token_id t = tm_token_id u" "tm_price t = tm_price u"
      using kept [of t] kept [of u] u(2) by simp_all
    moreover obtain snapshot where "(tm_timestamp_ns u, snapshot, True) \<in> set taken"
        "tm_token_id u = stc_token_id config" "obs_asset_id snapshot = stc_token_id config" "quotes_price snapshot (tm_price u)"
      using ran u(1) by (auto simp: boxed.accounted_def)
    moreover from this(1) have "snapshot \<in> set (map (\<lambda>(t, s, b). s) taken)" by force
    then have "SnapshotReceived snapshot True \<in> set snapshot_events"
      using bridged_received set_mono_prefix [OF assms(2)] by blast
    ultimately show ?thesis by (auto simp: quotes_price_def)
  qed
  with ids show ?thesis by blast
qed

definition sample_strategy_config :: strategy_config where
  "sample_strategy_config =
     \<lparr>stc_strategy = ''threshold'', stc_token_id = ''42'', stc_side = Buy, stc_size = ''10'', stc_order_type = FOK,
      stc_params = \<lparr>prm_threshold = Some (round_ratio False 1 2), prm_max_spread = None\<rparr>\<rparr>"

lemma sample_fires:
  "threshold_on_book_update 7 (sample_book ''0.44'' ''0.45'') (threshold_new ''42'' Buy (round_ratio False 1 2) ''10'' FOK) =
     (Some (sample_trigger\<lparr>tm_timestamp_ns := 7\<rparr>),
      (threshold_new ''42'' Buy (round_ratio False 1 2) ''10'' FOK)\<lparr>ts_next_trigger_id := 2\<rparr>)"
proof -
  have "round_ratio False 1 2 = Finite False 4503599627370496 (- 53)" by (simp add: round_eval)
  then show ?thesis
    by (simp add: threshold_on_book_update_def threshold_new_def sample_book_def parse_045 threshold_make_trigger_def
        fire_if_def sample_trigger_def signed_units_def Let_def)
qed

theorem orders_follow_snapshots_witness:
  "\<exists>status outs st'. run_execution_loop (sample_setup False) sample_polls (sample_state 1) = (status, outs, st') \<and>
     dispatched_triggers outs = [sample_trigger] \<and>
     (\<exists>snapshot. SnapshotReceived snapshot True \<in> {SnapshotReceived (sample_book ''0.44'' ''0.45'') True} \<and>
        tm_price sample_trigger \<in> pl_price ` (set_option (obs_best_bid snapshot) \<union> set_option (obs_best_ask snapshot)))"
proof -
  let ?st = "BoxThreshold (threshold_new ''42'' Buy (round_ratio False 1 2) ''10'' FOK)"
  let ?snapshot = "sample_book ''0.44'' ''0.45''"
  let ?fired = "sample_trigger\<lparr>tm_timestamp_ns := 7\<rparr>"
  have built: "build_strategy sample_strategy_config = Inr ?st"
    by (simp add: build_strategy_def sample_strategy_config_def ok_or_def)
  have forwarded: "prefix (map (\<lambda>(t, s, b). s) [(7 :: u64, ?snapshot, True)])
      (broadcast_to_mpsc [SnapshotReceived ?snapshot True])" by simp
  obtain strategy' where ran: "runner_run boxed_on_book_update [(7, ?snapshot, True)] ?st = ([?fired], strategy')"
    by (simp add: sample_fires boxed_result_def del: One_nat_def)
  have received: "prefix (received_triggers [TriggerReceived ?fired 0 True]) [?fired]" by simp
  have polled: "prefix (polled_triggers sample_polls) (mpsc_to_crossbeam [TriggerReceived ?fired 0 True])"
    by (simp add: sample_polls_def sample_trigger_def)
  obtain status oc st' where r: "run_execution_loop (sample_setup False) sample_polls (sample_state 1)
      = (status, [Dispatched sample_trigger oc], st')"
    using sample_run [of 1] by blast
  from orders_follow_snapshots [OF built forwarded ran received polled r]
  have "\<exists>snapshot. SnapshotReceived snapshot True \<in> {SnapshotReceived ?snapshot True} \<and>
        tm_price sample_trigger \<in> pl_price ` (set_option (obs_best_bid snapshot) \<union> set_option (obs_best_ask snapshot))"
    by fastforce
  with r show ?thesis by (intro exI conjI) auto
qed

end
