(* ===== verification/EndToEnd.thy ===== *)
theory EndToEnd
  imports FeedBooks ExecShell
begin

text \<open>
  The path of a price through the executable as \<open>pm-executor/src/main.rs\<close> connects it: the messages of the websocket, the feed
  manager with its order books, the snapshot channel and its bridge, the strategy's runner, the trigger channel and
  its bridge, the execution loop. \<open>FeedBooks\<close> relates the snapshots that the feed publishes to the abstract books of
  the messages; here the orders are related to them.
\<close>

section \<open>From messages to orders\<close>

text \<open>The snapshots that the bridge takes from the broadcast channel, which may skip some.\<close>

fun received_snapshots :: "snapshot_event list \<Rightarrow> order_book_snapshot list" where
  "received_snapshots [] = []"
| "received_snapshots (SnapshotReceived s opened # events) = s # received_snapshots events"
| "received_snapshots (SnapshotsLagged n # events) = received_snapshots events"
| "received_snapshots (SnapshotsClosed # events) = received_snapshots events"
| "received_snapshots (SnapshotShutdown b # events) = received_snapshots events"

lemma received_in: "SnapshotReceived s b \<in> set events \<Longrightarrow> s \<in> set (received_snapshots events)"
  by (induction events rule: received_snapshots.induct) auto

lemma dispatched_best_prices:
  assumes "subseq (received_snapshots snapshot_events)
      (fo_snapshots (fm_outputs (feed_process_loop (feed_manager_shared ids) rs)))"
    and "build_strategy config = Inr strategy"
    and "prefix (map (\<lambda>(t, s, b). s) taken) (broadcast_to_mpsc snapshot_events)"
    and "runner_run boxed_on_book_update taken strategy = (triggers, strategy')"
    and "prefix (received_triggers trigger_events) triggers"
    and "prefix (polled_triggers polls) (mpsc_to_crossbeam trigger_events)"
    and "run_execution_loop xs polls st = (status, outs, st')"
  shows "subseq (map tm_trigger_id (dispatched_triggers outs)) (map (\<lambda>i. 1 + of_nat i) [0..<length triggers]) \<and>
    (\<forall>t \<in> set (dispatched_triggers outs). tm_token_id t = stc_token_id config \<and>
      (\<exists>part book best. prefix part (feed_book_ops rs) \<and> abs_run part (stc_token_id config) = Some book \<and>
         tm_price t = pl_price best \<and>
         (is_best_bid (ab_bids book) (Some best) \<or> is_best_ask (ab_asks book) (Some best))))"
proof (intro conjI ballI)
  show "subseq (map tm_trigger_id (dispatched_triggers outs)) (map (\<lambda>i. 1 + of_nat i) [0..<length triggers])"
    using orders_follow_snapshots [OF assms(2-7)] by blast
  fix t
  assume t: "t \<in> set (dispatched_triggers outs)"
  from orders_follow_snapshots [OF assms(2-7)] t obtain snap where token: "tm_token_id t = stc_token_id config"
    and "SnapshotReceived snap True \<in> set snapshot_events" and asset: "obs_asset_id snap = stc_token_id config"
    and price: "tm_price t \<in> pl_price ` (set_option (obs_best_bid snap) \<union> set_option (obs_best_ask snap))" by blast
  from this(2) have "snap \<in> set (fo_snapshots (fm_outputs (feed_process_loop (feed_manager_shared ids) rs)))"
    using received_in list_emb_set [OF assms(1)] by blast
  from feed_snapshot_refines [OF this] obtain part book where "prefix part (feed_book_ops rs)"
      "abs_run part (stc_token_id config) = Some book" "is_best_bid (ab_bids book) (obs_best_bid snap)"
      "is_best_ask (ab_asks book) (obs_best_ask snap)" unfolding asset by blast
  with price show "\<exists>part book best. prefix part (feed_book_ops rs) \<and> abs_run part (stc_token_id config) = Some book \<and>
      tm_price t = pl_price best \<and> (is_best_bid (ab_bids book) (Some best) \<or> is_best_ask (ab_asks book) (Some best))"
    by fastforce
  show "tm_token_id t = stc_token_id config" by (rule token)
qed

section \<open>A session of the executable\<close>

text \<open>
  What each task of the executable observes, in its order: the messages of the processing task, the snapshots of the first
  bridge, the runner's updates, the triggers of the second bridge, the polls of the execution thread, the
  connections of the health endpoint and the ticks of the monitor.
\<close>

record task_events =
  te_messages :: "recv_result list"
  te_snapshots :: "snapshot_event list"
  te_updates :: "(u64 \<times> order_book_snapshot \<times> bool) list"
  te_triggers :: "trigger_event list"
  te_polls :: "(bool \<times> poll) list"
  te_server :: "server_event list"
  te_monitor :: "monitor_event list"

record ('w, 's, 'a) session_outcome =
  so_pipeline :: pipeline
  so_forwarded :: "order_book_snapshot list"
  so_triggers :: "trigger_message list"
  so_queued :: "trigger_message list"
  so_status :: loop_status
  so_outputs :: "'a loop_output list"
  so_state :: "('w, 's) execution_state"
  so_responses :: "endpoint_response list"
  so_save :: "(string, unit) result \<times> 'w"

text \<open>
  The tasks that \<open>run\<close> spawns after the start, and the state it saves once the execution thread is joined. The
  monitor writes only the state file, which no other task uses, so its writes are placed after those of the execution thread.
\<close>

definition run_tasks ::
    "(json \<Rightarrow> string) \<Rightarrow> bool \<Rightarrow> ('w, 'h, 'a, 't, 's, 'f, 'r, 'k) shell \<Rightarrow> executor_config
      \<Rightarrow> ('w, 'h, 'a, 't, 's, 'f) executor \<Rightarrow> string \<Rightarrow> task_events \<Rightarrow> ('w, 's, 'a) session_outcome" where
  "run_tasks json_text bound sl c ex now ev =
     (case run_execution_loop (ex_setup ex) (te_polls ev) (ex_state ex) of
        (status, outs, st) \<Rightarrow>
          \<lparr>so_pipeline = pipeline_run (pipeline_new (ex_assets ex)) (te_messages ev),
           so_forwarded = broadcast_to_mpsc (te_snapshots ev),
           so_triggers = fst (runner_run boxed_on_book_update (te_updates ev) (ex_strategy ex)),
           so_queued = mpsc_to_crossbeam (te_triggers ev),
           so_status = status, so_outputs = outs, so_state = st,
           so_responses = (if hcf_enabled (ecf_health c) then run_health_server json_text bound (te_server ev) else []),
           so_save = shutdown (sl_files sl) c now (xe_breaker st)
             (run_health_monitor (sl_files sl) True (Some (xcf_state_file (ecf_execution c))) (te_monitor ev)
                (xe_world st))\<rparr>)"

text \<open>
  The channels between the tasks: the broadcast channel of the snapshots loses what a lagging receiver missed, the two bounded
  channels and the queue hand on what was put in, and a task may stop before it has taken everything.
\<close>

definition channels_connect :: "task_events \<Rightarrow> ('w, 's, 'a) session_outcome \<Rightarrow> bool" where
  "channels_connect ev out \<longleftrightarrow>
     subseq (received_snapshots (te_snapshots ev))
       (fo_snapshots (fm_outputs (pipe_feed_manager (so_pipeline out)))) \<and>
     prefix (map (\<lambda>(t, s, b). s) (te_updates ev)) (so_forwarded out) \<and>
     prefix (received_triggers (te_triggers ev)) (so_triggers out) \<and>
     prefix (polled_triggers (te_polls ev)) (so_queued out)"

lemma run_tasks_loop:
  "run_execution_loop (ex_setup ex) (te_polls ev) (ex_state ex) =
     (so_status (run_tasks json_text bound sl c ex now ev), so_outputs (run_tasks json_text bound sl c ex now ev),
      so_state (run_tasks json_text bound sl c ex now ev))"
  by (simp add: run_tasks_def split: prod.split)

lemma run_tasks_stages:
  "pipe_feed_manager (so_pipeline (run_tasks json_text bound sl c ex now ev)) =
     feed_process_loop (feed_manager_shared (ex_assets ex)) (te_messages ev)"
  "so_forwarded (run_tasks json_text bound sl c ex now ev) = broadcast_to_mpsc (te_snapshots ev)"
  "so_triggers (run_tasks json_text bound sl c ex now ev) =
     fst (runner_run boxed_on_book_update (te_updates ev) (ex_strategy ex))"
  "so_queued (run_tasks json_text bound sl c ex now ev) = mpsc_to_crossbeam (te_triggers ev)"
  by (simp_all add: run_tasks_def pipeline_run_def pipeline_new_def split: prod.split)

text \<open>
  C5. From the messages of the exchange to the orders sent to it: when the executable has started and its tasks run
  connected by its channels, whatever the snapshot channel skips and wherever a task stops, the orders dispatched
  carry the strategy's ids in their order and without repetition, each is for the configured token, and its
  price is the greatest bid or the least ask of the book that the messages received up to some moment describe,
  a reconnection having emptied it.
\<close>

theorem orders_follow_messages:
  assumes "start sl c w = (Ready ex, w')" and "out = run_tasks json_text bound sl c ex now ev"
    and "channels_connect ev out"
  shows "subseq (map tm_trigger_id (dispatched_triggers (so_outputs out)))
      (map (\<lambda>i. 1 + of_nat i) [0..<length (so_triggers out)]) \<and>
    (\<forall>t \<in> set (dispatched_triggers (so_outputs out)). tm_token_id t = stc_token_id (ecf_strategy c) \<and>
      (\<exists>part book best. prefix part (feed_book_ops (te_messages ev)) \<and>
         abs_run part (stc_token_id (ecf_strategy c)) = Some book \<and> tm_price t = pl_price best \<and>
         (is_best_bid (ab_bids book) (Some best) \<or> is_best_ask (ab_asks book) (Some best))))"
proof -
  obtain triggers strategy' where runner: "runner_run boxed_on_book_update (te_updates ev) (ex_strategy ex) = (triggers, strategy')"
    by fastforce
  note stages = assms(3) [unfolded channels_connect_def assms(2) run_tasks_stages runner fst_conv]
  have built: "build_strategy (ecf_strategy c) = Inr (ex_strategy ex)" using started [OF assms(1)] by blast
  from dispatched_best_prices [OF stages [THEN conjunct1] built
      stages [THEN conjunct2, THEN conjunct1] runner stages [THEN conjunct2, THEN conjunct2, THEN conjunct1]
      stages [THEN conjunct2, THEN conjunct2, THEN conjunct2] run_tasks_loop]
  show ?thesis unfolding assms(2) run_tasks_stages runner fst_conv .
qed

text \<open>
  C6. A session of the executable keeps its limits: in a dry run nothing is dispatched and the saved count of orders stays; a live
  session dispatches, together with what the state file says was fired before, at most the configured orders and dollars,
  and the state saved at its end has counted every order it dispatched.
\<close>

theorem session_within_limits:
  assumes "start sl c w = (Ready ex, w')" and "out = run_tasks json_text bound sl c ex now ev"
    and "before = load_state (sl_files sl) (xcf_state_file (ecf_execution c)) w'"
    and "sent = dispatched_triggers (so_outputs out)"
    and "unat (es_orders_fired before) + length (te_polls ev) < 2 ^ 64"
    and "unat (es_usd_committed_cents before) + sum_list (map poll_cents (te_polls ev)) < 2 ^ 64"
  shows "(if xcf_dry_run (ecf_execution c) then sent = [] \<and> xe_breaker (so_state out) = xe_breaker (ex_state ex)
     else sent = [] \<or>
       unat (es_orders_fired before) + length sent \<le> unat (scf_max_orders (ecf_safety c)) \<and>
       unat (es_usd_committed_cents before) + sum_list (map trigger_cents sent)
         \<le> unat (f64_to_u64 (f64_mul (scf_max_usd_exposure (ecf_safety c)) f64_100))) \<and>
    unat (es_orders_fired before) + length sent
      \<le> unat (es_orders_fired (persisted_state now (xe_breaker (so_state out))))"
proof -
  note s = started [OF assms(1)]
  have free: "\<not> og_in_flight (xe_guard (ex_state ex))" using s by (simp add: order_guard_new_def)
  have counts: "cb_orders_fired (xe_breaker (ex_state ex)) = es_orders_fired before"
    "cb_usd_committed_cents (xe_breaker (ex_state ex)) = es_usd_committed_cents before"
    "cb_max_orders (xe_breaker (ex_state ex)) = scf_max_orders (ecf_safety c)"
    "cb_max_usd_cents (xe_breaker (ex_state ex)) = f64_to_u64 (f64_mul (scf_max_usd_exposure (ecf_safety c)) f64_100)"
    using s by (simp_all add: assms(3) restored_breaker_def with_initial_counts_def)
  have dry: "xs_dry_run (ex_setup ex) = xcf_dry_run (ecf_execution c)" using s by simp
  note loop = run_tasks_loop [of ex ev json_text bound sl c now, folded assms(2)]
  have room: "unat (cb_orders_fired (xe_breaker (ex_state ex))) + length (te_polls ev) < 2 ^ 64"
    "unat (cb_usd_committed_cents (xe_breaker (ex_state ex))) + sum_list (map poll_cents (te_polls ev)) < 2 ^ 64"
    using assms(5,6) by (simp_all only: counts)
  have saved: "unat (es_orders_fired before) + length sent
      \<le> unat (es_orders_fired (persisted_state now (xe_breaker (so_state out))))"
    using loop_counted [OF loop free room]
    by (simp add: counted_def counts assms(4) persisted_state_def breaker_stats_def state_from_stats_def)
  show ?thesis
  proof (cases "xcf_dry_run (ecf_execution c)")
    case True
    with dry_run_sends_nothing [OF loop free] dry saved show ?thesis by (simp add: assms(4))
  next
    case False
    with loop_within_limits [OF loop free room] saved show ?thesis by (auto simp: counts assms(4))
  qed
qed

section \<open>A sample session\<close>

definition sample_message :: ws_message where
  "sample_message = WsBook
     \<lparr>bu_asset_id = ''42'', bu_market = ''m'', bu_timestamp = ''0'',
      bu_bids = [\<lparr>wl_price = ''0.44'', wl_size = ''1''\<rparr>], bu_asks = [\<lparr>wl_price = ''0.45'', wl_size = ''1''\<rparr>],
      bu_hash = None\<rparr>"

lemma sample_message_published:
  "fo_snapshots (fm_outputs (feed_process_loop (feed_manager_shared ids) [Received sample_message])) =
     [Strategy.sample_book ''0.44'' ''0.45'']"
  by (simp add: process_message_def process_adapter_message_def scoped_normalize_def
      to_normalized_updates_def sample_message_def Let_def normalize_book_def publish_def snapshot_from_update_def
      apply_update_to_stores_def book_of_snapshot_def feed_manager_shared_def shared_with_subscription_planner_def with_subscription_planner_def
      feed_stores_new_def feed_outputs_new_def OrderBook.sample_simps Strategy.sample_book_def comp_def parse_timestamp_ms_def parse_uint_digits
      is_digit_def digit_val_def)

definition session_config :: executor_config where
  "session_config = (sample_config False)\<lparr>ecf_strategy := sample_strategy_config, ecf_safety := sample_safety\<rparr>"

definition session_events :: task_events where
  "session_events =
     \<lparr>te_messages = [Received sample_message],
      te_snapshots = [SnapshotReceived (Strategy.sample_book ''0.44'' ''0.45'') True],
      te_updates = [(7, Strategy.sample_book ''0.44'' ''0.45'', True)],
      te_triggers = [TriggerReceived (sample_trigger\<lparr>tm_timestamp_ns := 7\<rparr>) 0 True],
      te_polls = sample_polls, te_server = [], te_monitor = []\<rparr>"

lemma session_start: "\<exists>ex w'. start sample_shell session_config (2, False) = (Ready ex, w')"
  unfolding session_config_def
  by (rule sample_start_with [of _ "BoxThreshold (threshold_new ''42'' Buy (round_ratio False 1 2) ''10'' FOK)"])
    (simp add: build_strategy_def sample_strategy_config_def ok_or_def)

lemma session_dispatches:
  assumes "start sample_shell session_config (2, False) = (Ready ex, w')"
    and "out = run_tasks json_text bound sample_shell session_config ex now session_events"
  shows "channels_connect session_events out" "dispatched_triggers (so_outputs out) = [sample_trigger]"
proof -
  let ?st = "BoxThreshold (threshold_new ''42'' Buy (round_ratio False 1 2) ''10'' FOK)"
  let ?snapshot = "Strategy.sample_book ''0.44'' ''0.45''"
  let ?fired = "sample_trigger\<lparr>tm_timestamp_ns := 7\<rparr>"
  note s = started [OF assms(1)]
  have "build_strategy sample_strategy_config = Inr ?st"
    by (simp add: build_strategy_def sample_strategy_config_def ok_or_def)
  then have strategy: "ex_strategy ex = ?st" using s by (simp add: session_config_def)
  obtain strategy' where ran: "runner_run boxed_on_book_update [(7, ?snapshot, True)] ?st = ([?fired], strategy')"
    by (simp add: sample_fires boxed_result_def del: One_nat_def)
  have "subseq [?snapshot] (fo_snapshots (fm_outputs (feed_process_loop (feed_manager_shared (ex_assets ex)) [Received sample_message])))"
    unfolding sample_message_published by simp
  moreover have "prefix (polled_triggers sample_polls) (mpsc_to_crossbeam [TriggerReceived ?fired 0 True])"
    by (simp add: sample_polls_def sample_trigger_def)
  ultimately show "channels_connect session_events out"
    unfolding channels_connect_def assms(2) run_tasks_stages strategy
    by (simp add: session_events_def ran del: feed_process_loop.simps runner_run.simps One_nat_def)
  have breaker: "xe_breaker (ex_state ex) = breaker_for_one" and live: "\<not> xs_dry_run (ex_setup ex)"
    and guard: "xe_guard (ex_state ex) = order_guard_new" and limiter: "xe_limiter (ex_state ex) = rate_limiter_new 10"
    using s by (simp_all add: session_config_def sample_shell_def sample_files_def load_state_def sample_restored
        sample_config_facts) (simp add: sample_safety_def)
  obtain status outs st' where run: "run_execution_loop (ex_setup ex) sample_polls (ex_state ex) = (status, outs, st')"
    by (metis prod_cases3)
  obtain status1 out1 st1 where h: "handle_trigger (ex_setup ex) sample_trigger 1000000000 (ex_state ex) = (status1, out1, st1)"
    by (metis prod_cases3)
  define st0 where "st0 = (ex_state ex)\<lparr>xe_limiter := \<lparr>rl_max_per_second = 10, rl_window_start_ns = 1000000000, rl_count_in_window = 1\<rparr>,
    xe_guard := \<lparr>og_in_flight = True\<rparr>\<rparr>"
  have "handle_live (ex_setup ex) sample_trigger st0 = (status1, out1, st1)"
    using h live by (simp add: handle_trigger_def breaker breaker_for_one_eq limiter sample_limiter guard guard_try_acquire_def
        order_guard_new_def st0_def)
  moreover have "check_and_record (xe_breaker st0) (tm_price sample_trigger) (tm_size sample_trigger)
      = (Inr (), breaker_for_one\<lparr>cb_orders_fired := 1, cb_usd_committed_cents := 450\<rparr>)"
    by (simp add: st0_def breaker sample_check sample_trigger_def)
  ultimately have "dispatched_triggers out1 = [sample_trigger]"
    by (cases rule: handle_live_cases) auto
  then have "dispatched_triggers outs = [sample_trigger]"
    using run h by (cases status1) (auto simp: sample_polls_def)
  moreover have "te_polls session_events = sample_polls" by (simp add: session_events_def)
  ultimately show "dispatched_triggers (so_outputs out) = [sample_trigger]"
    using run by (simp add: assms(2) run_tasks_def)
qed

theorem orders_follow_messages_witness:
  "\<exists>ex w' part book best. start sample_shell session_config (2, False) = (Ready ex, w') \<and>
     dispatched_triggers (so_outputs (run_tasks (\<lambda>j. []) True sample_shell session_config ex ''t'' session_events)) = [sample_trigger] \<and>
     prefix part (feed_book_ops [Received sample_message]) \<and> abs_run part ''42'' = Some book \<and>
     tm_price sample_trigger = pl_price best \<and>
     (is_best_bid (ab_bids book) (Some best) \<or> is_best_ask (ab_asks book) (Some best))"
proof -
  obtain ex w' where start: "start sample_shell session_config (2, False) = (Ready ex, w')" using session_start by blast
  note sample = session_dispatches [OF start refl, of "\<lambda>j. []" True "''t''"]
  from orders_follow_messages [OF start refl sample(1)] sample(2) start show ?thesis
    by (simp add: session_config_def sample_strategy_config_def session_events_def)
qed

theorem session_within_limits_witness:
  "\<exists>ex w' out. start sample_shell session_config (2, False) = (Ready ex, w') \<and>
     out = run_tasks (\<lambda>j. []) True sample_shell session_config ex ''t'' session_events \<and>
     length (dispatched_triggers (so_outputs out)) = 1 \<and>
     1 \<le> unat (es_orders_fired (persisted_state ''t'' (xe_breaker (so_state out))))"
proof -
  obtain ex w' where start: "start sample_shell session_config (2, False) = (Ready ex, w')" using session_start by blast
  define out where "out = run_tasks (\<lambda>j. []) True sample_shell session_config ex ''t'' session_events"
  note sample = session_dispatches [OF start out_def]
  define before where "before = load_state (sl_files sample_shell) (xcf_state_file (ecf_execution session_config)) w'"
  have none: "before = executor_state_default"
    by (simp add: before_def sample_shell_def sample_files_def load_state_def)
  have "trigger_cents sample_trigger = 450"
    by (simp add: trigger_cents_def sample_trigger_def order_cents_450)
  then have "unat (es_orders_fired before) + length (te_polls session_events) < 2 ^ 64"
    "unat (es_usd_committed_cents before) + sum_list (map poll_cents (te_polls session_events)) < 2 ^ 64"
    by (simp_all add: none executor_state_default_def session_events_def sample_polls_def)
  from session_within_limits [OF start out_def before_def refl this] sample(2) start out_def
  show ?thesis by (intro exI [of _ ex] exI [of _ w'] exI [of _ out]) (simp add: none)
qed

end
