(* ===== verification/Templates.thy ===== *)
theory Templates
  imports Dispatch
begin

text \<open>
  Request templates and order responses (\<open>rtt-core/src/request.rs\<close>, \<open>clob_response.rs\<close>): a body buffer of
  fixed size whose registered slots are overwritten in place. A failed assertion, an index or a slice out of
  range stops the thread; such a panic is a value here. \<open>usize\<close> is a 64-bit word, so the end of a slot wraps.
\<close>

section \<open>The template\<close>

definition max_patch_slots :: nat where
  "max_patch_slots = 8"

definition max_body_size :: nat where
  "max_body_size = 4096"

record patch_slot =
  ps_offset :: u64
  ps_length :: u64

record request_template =
  tpl_method :: string
  tpl_uri :: string
  tpl_headers :: "(string \<times> string) list"
  tpl_body :: string
  tpl_body_len :: nat
  tpl_patches :: "patch_slot list"

datatype template_panic =
    BodyTooLarge
  | PatchOutOfBounds
  | TooManyPatches
  | NoSuchSlot
  | ValueLengthMismatch
  | SliceOutOfRange
  | InvalidRequest

definition request_template_new :: "string \<Rightarrow> string \<Rightarrow> request_template" where
  "request_template_new meth uri =
     \<lparr>tpl_method = meth, tpl_uri = uri, tpl_headers = [], tpl_body = replicate max_body_size (CHR 0x00),
      tpl_body_len = 0, tpl_patches = []\<rparr>"

definition add_header :: "string \<Rightarrow> string \<Rightarrow> request_template \<Rightarrow> request_template" where
  "add_header name val t = t\<lparr>tpl_headers := tpl_headers t @ [(name, val)]\<rparr>"

definition set_body :: "string \<Rightarrow> request_template \<Rightarrow> (template_panic, request_template) result" where
  "set_body body t =
     (if max_body_size < length body then Inl BodyTooLarge
      else Inr (t\<lparr>tpl_body := body @ drop (length body) (tpl_body t), tpl_body_len := length body\<rparr>))"

definition register_patch ::
    "u64 \<Rightarrow> u64 \<Rightarrow> request_template \<Rightarrow> (template_panic, nat \<times> request_template) result" where
  "register_patch offset len t =
     (if \<not> offset + len \<le> of_nat (tpl_body_len t) then Inl PatchOutOfBounds
      else if \<not> length (tpl_patches t) < max_patch_slots then Inl TooManyPatches
      else Inr (length (tpl_patches t),
                t\<lparr>tpl_patches := tpl_patches t @ [\<lparr>ps_offset = offset, ps_length = len\<rparr>]\<rparr>))"

text \<open>\<open>buffer[first..end]\<close> overwritten with a value of the same length; the range is checked first.\<close>

definition overwrite :: "u64 \<Rightarrow> u64 \<Rightarrow> string \<Rightarrow> string \<Rightarrow> (template_panic, string) result" where
  "overwrite first end val buffer =
     (if end < first \<or> length buffer < unat end then Inl SliceOutOfRange
      else if length val \<noteq> unat end - unat first then Inl ValueLengthMismatch
      else Inr (take (unat first) buffer @ val @ drop (unat end) buffer))"

definition patch :: "nat \<Rightarrow> string \<Rightarrow> request_template \<Rightarrow> (template_panic, request_template) result" where
  "patch slot val t =
     (if \<not> slot < length (tpl_patches t) then Inl NoSuchSlot
      else let p = tpl_patches t ! slot
           in if length val \<noteq> unat (ps_length p) then Inl ValueLengthMismatch
              else bind_result (overwrite (ps_offset p) (ps_offset p + ps_length p) val (tpl_body t))
                     (\<lambda>body. Inr (t\<lparr>tpl_body := body\<rparr>)))"

definition body_bytes :: "request_template \<Rightarrow> string" where
  "body_bytes t = take (tpl_body_len t) (tpl_body t)"

text \<open>
  The names of headers are read by the \<open>http\<close> crate, whose reading is the argument \<open>header_name\<close>: the name in
  its canonical form, or none.
\<close>

fun request_headers ::
    "(string \<Rightarrow> string option) \<Rightarrow> (string \<times> string) list \<Rightarrow> (string \<times> string) list option" where
  "request_headers header_name [] = Some []"
| "request_headers header_name ((k, v) # rest) =
     (case header_name k of
        None \<Rightarrow> None
      | Some name \<Rightarrow>
          if header_value_ok v then map_option ((#) (name, v)) (request_headers header_name rest) else None)"

definition build_request ::
    "(string \<Rightarrow> string option) \<Rightarrow> request_template \<Rightarrow> (template_panic, http_request) result" where
  "build_request header_name t =
     (case request_headers header_name (tpl_headers t) of
        None \<Rightarrow> Inl InvalidRequest
      | Some headers \<Rightarrow>
          Inr \<lparr>rq_method = tpl_method t, rq_uri = tpl_uri t, rq_headers = headers, rq_body = body_bytes t\<rparr>)"

section \<open>Order responses\<close>

text \<open>
  The fields of the JSON object as serde finds them: \<open>None\<close> is an absent field. Parsing the text is serde's
  work and an argument of \<open>parse_order_response\<close>.
\<close>

record raw_order_response =
  ror_success :: "bool option"
  ror_order_id :: "string option"
  ror_status :: "string option"
  ror_transaction_hashes :: "string list option"
  ror_trade_ids :: "string list option"
  ror_error_msg :: "string option option"

record order_response =
  or_success :: bool
  or_order_id :: string
  or_status :: string
  or_transaction_hashes :: "string list"
  or_trade_ids :: "string list"
  or_error_msg :: "string option"

definition order_response_of :: "raw_order_response \<Rightarrow> (string, order_response) result" where
  "order_response_of raw =
     bind_result (ok_or ''missing field `success`'' (ror_success raw)) (\<lambda>success. Inr
       \<lparr>or_success = success,
        or_order_id = unwrap_or [] (ror_order_id raw),
        or_status = unwrap_or [] (ror_status raw),
        or_transaction_hashes = unwrap_or [] (ror_transaction_hashes raw),
        or_trade_ids = unwrap_or [] (ror_trade_ids raw),
        or_error_msg = unwrap_or None (ror_error_msg raw)\<rparr>)"

definition parse_order_response ::
    "(string \<Rightarrow> (string, raw_order_response) result) \<Rightarrow> string \<Rightarrow> (string, order_response) result" where
  "parse_order_response from_slice body = bind_result (from_slice body) order_response_of"

section \<open>What a patched body holds\<close>

text \<open>The operations that change a template, and what a sequence of them leaves.\<close>

datatype template_op =
    AddHeader string string
  | SetBody string
  | RegisterPatch u64 u64
  | PatchSlot nat string

fun template_step :: "template_op \<Rightarrow> request_template \<Rightarrow> (template_panic, request_template) result" where
  "template_step (AddHeader name val) t = Inr (add_header name val t)"
| "template_step (SetBody body) t = set_body body t"
| "template_step (RegisterPatch offset len) t = map_sum id snd (register_patch offset len t)"
| "template_step (PatchSlot slot val) t = patch slot val t"

fun template_run :: "template_op list \<Rightarrow> request_template \<Rightarrow> (template_panic, request_template) result" where
  "template_run [] t = Inr t"
| "template_run (x # xs) t = bind_result (template_step x t) (template_run xs)"

definition template_ok :: "request_template \<Rightarrow> bool" where
  "template_ok t \<longleftrightarrow>
     length (tpl_body t) = max_body_size \<and> tpl_body_len t \<le> max_body_size \<and> length (tpl_patches t) \<le> max_patch_slots
   \<and> (\<forall>p \<in> set (tpl_patches t). unat (ps_offset p + ps_length p) \<le> max_body_size)"

definition proper_slot :: "patch_slot \<Rightarrow> bool" where
  "proper_slot p \<longleftrightarrow> unat (ps_offset p) + unat (ps_length p) \<le> max_body_size"

definition slot_range :: "patch_slot \<Rightarrow> nat set" where
  "slot_range p = {unat (ps_offset p) ..< unat (ps_offset p) + unat (ps_length p)}"

text \<open>The byte at a position after some patches: what the latest patch of the slot that covers it wrote there.\<close>

fun patched_byte :: "patch_slot list \<Rightarrow> (nat \<times> string) list \<Rightarrow> string \<Rightarrow> nat \<Rightarrow> char" where
  "patched_byte slots [] body i = body ! i"
| "patched_byte slots ((slot, val) # earlier) body i =
     (if i \<in> slot_range (slots ! slot) then val ! (i - unat (ps_offset (slots ! slot)))
      else patched_byte slots earlier body i)"

lemma proper_slot_end:
  assumes "proper_slot p"
  shows "unat (ps_offset p + ps_length p) = unat (ps_offset p) + unat (ps_length p)"
  using assms by (simp add: proper_slot_def max_body_size_def unat_word_ariths)

lemma proper_slot_iff:
  "unat (ps_offset p + ps_length p) \<le> max_body_size \<Longrightarrow>
     proper_slot p \<longleftrightarrow> unat (ps_offset p) + unat (ps_length p) < 2 ^ 64"
  by (auto simp: proper_slot_def max_body_size_def unat_word_ariths)

text \<open>A slot whose end wraps around ends before it begins.\<close>

lemma wrapped_slot:
  assumes "\<not> proper_slot p" "unat (ps_offset p + ps_length p) \<le> max_body_size" 
  shows "ps_offset p + ps_length p < ps_offset p"
proof -
  have "18446744073709551616 \<le> unat (ps_offset p) + unat (ps_length p)"
  proof (rule ccontr)
    assume "\<not> ?thesis"
    then have "unat (ps_offset p + ps_length p) = unat (ps_offset p) + unat (ps_length p)"
      by (simp add: unat_word_ariths)
    with assms show False by (simp add: proper_slot_def)
  qed
  moreover have *: "unat (ps_length p) < 18446744073709551616" "unat (ps_offset p) < 18446744073709551616" by simp_all
  ultimately have "unat (ps_offset p + ps_length p) = unat (ps_offset p) + unat (ps_length p) - 18446744073709551616"
    by (simp add: unat_word_ariths le_mod_geq) (rule mod_less, use * in linarith)
  then show ?thesis using \<open>unat (ps_length p) < 18446744073709551616\<close> \<open>18446744073709551616 \<le> _\<close>
    unfolding word_less_nat_alt by linarith
qed

lemma template_ok_new: "template_ok (request_template_new meth uri)"
  by (simp add: template_ok_def request_template_new_def)

lemma template_ok_patch:
  assumes "template_ok t" "patch slot val t = Inr t'"
  shows "template_ok t'"
  using assms by (auto simp: patch_def overwrite_def template_ok_def Let_def result_facts not_less word_le_nat_alt
      split: if_splits)

lemma template_ok_step:
  assumes "template_ok t" "template_step x t = Inr t'"
  shows "template_ok t'"
proof (cases x)
  case (PatchSlot slot val)
  with assms show ?thesis by (auto intro: template_ok_patch)
next
  case (RegisterPatch offset len)
  have "of_nat (tpl_body_len t) \<le> (4096 :: u64)"
    using assms(1) by (simp add: template_ok_def max_body_size_def word_le_nat_alt unat_of_nat_less)
  then have "offset + len \<le> 4096" if "offset + len \<le> of_nat (tpl_body_len t)"
    using that by (rule order_trans [rotated])
  then show ?thesis
    using assms RegisterPatch
    by (auto simp: template_ok_def register_patch_def max_patch_slots_def max_body_size_def word_le_nat_alt split: if_splits)
qed (use assms in \<open>auto simp: template_ok_def add_header_def set_body_def split: if_splits\<close>)

lemma template_ok_run: "template_run xs t = Inr t' \<Longrightarrow> template_ok t \<Longrightarrow> template_ok t'"
  by (induction xs arbitrary: t) (auto simp: result_facts intro: template_ok_step)

lemma template_run_append:
  "template_run (xs @ ys) t = bind_result (template_run xs t) (template_run ys)"
  by (induction xs arbitrary: t) (auto simp: bind_result_def split: sum.splits)

text \<open>On a well-formed template a patch fails in three ways only.\<close>

lemma patch_outcome:
  assumes "template_ok t"
  shows "patch slot val t =
    (if length (tpl_patches t) \<le> slot then Inl NoSuchSlot
     else let p = tpl_patches t ! slot
          in if length val \<noteq> unat (ps_length p) then Inl ValueLengthMismatch
             else if \<not> proper_slot p then Inl SliceOutOfRange
             else Inr (t\<lparr>tpl_body := take (unat (ps_offset p)) (tpl_body t) @ val @
                           drop (unat (ps_offset p) + unat (ps_length p)) (tpl_body t)\<rparr>))"
proof (cases "slot < length (tpl_patches t)")
  case True
  let ?p = "tpl_patches t ! slot"
  have le: "unat (ps_offset ?p + ps_length ?p) \<le> max_body_size" and len: "length (tpl_body t) = max_body_size"
    using assms True by (simp_all add: template_ok_def)
  show ?thesis
  proof (cases "proper_slot ?p")
    case p: True
    have "\<not> ps_offset ?p + ps_length ?p < ps_offset ?p"
      by (simp add: word_less_nat_alt proper_slot_end [OF p])
    then show ?thesis using True p le len
      by (simp add: patch_def overwrite_def Let_def proper_slot_end [OF p])
  next
    case False
    with wrapped_slot [OF False le] True show ?thesis by (simp add: patch_def overwrite_def Let_def)
  qed
qed (simp add: patch_def)

text \<open>
  A template that was built with any operations panics on a patch in exactly three cases: the slot was
  not registered, the value does not have the length of the slot, or the end of the slot wraps around the width of
  \<open>usize\<close>, which the assertion of \<open>register_patch\<close> lets through. In every other case the patch replaces the bytes
  of the slot and keeps the length of the body.
\<close>

theorem patch_panics:
  assumes "template_run xs (request_template_new meth uri) = Inr t"
  shows "((\<exists>e. patch slot val t = Inl e) \<longleftrightarrow>
       length (tpl_patches t) \<le> slot \<or> length val \<noteq> unat (ps_length (tpl_patches t ! slot))
       \<or> 2 ^ 64 \<le> unat (ps_offset (tpl_patches t ! slot)) + unat (ps_length (tpl_patches t ! slot))) \<and>
     (\<forall>t'. patch slot val t = Inr t' \<longrightarrow> length (body_bytes t') = length (body_bytes t))"
proof (intro conjI allI impI)
  have ok: "template_ok t" by (rule template_ok_run [OF assms template_ok_new])
  have "proper_slot (tpl_patches t ! slot) \<longleftrightarrow>
      \<not> 2 ^ 64 \<le> unat (ps_offset (tpl_patches t ! slot)) + unat (ps_length (tpl_patches t ! slot))"
    if "slot < length (tpl_patches t)"
    using ok that by (auto simp: template_ok_def proper_slot_iff)
  then show "(\<exists>e. patch slot val t = Inl e) \<longleftrightarrow>
      length (tpl_patches t) \<le> slot \<or> length val \<noteq> unat (ps_length (tpl_patches t ! slot))
      \<or> 2 ^ 64 \<le> unat (ps_offset (tpl_patches t ! slot)) + unat (ps_length (tpl_patches t ! slot))"
    by (auto simp: patch_outcome [OF ok] Let_def not_le)
  show "length (body_bytes t') = length (body_bytes t)" if "patch slot val t = Inr t'" for t'
    using ok template_ok_patch [OF ok that] that
    by (auto simp: template_ok_def body_bytes_def patch_def Let_def result_facts split: if_splits)
qed

definition price_template :: request_template where
  "price_template =
     \<lparr>tpl_method = ''POST'', tpl_uri = ''/order'', tpl_headers = [],
      tpl_body = ''p=XXXX;'' @ replicate 4089 (CHR 0x00), tpl_body_len = 7,
      tpl_patches = [\<lparr>ps_offset = 2, ps_length = 4\<rparr>, \<lparr>ps_offset = - 1, ps_length = 1\<rparr>]\<rparr>"

lemma price_template_run:
  "template_run [SetBody ''p=XXXX;'', RegisterPatch 2 4, RegisterPatch (- 1) 1]
     (request_template_new ''POST'' ''/order'') = Inr price_template"
  by (simp add: set_body_def register_patch_def request_template_new_def max_body_size_def max_patch_slots_def
      price_template_def)

text \<open>The second slot, at the last address with length one, passes the bounds assertion on a body of seven bytes.\<close>

theorem patch_panics_witness:
  "(\<exists>e. patch 1 ''7'' price_template = Inl e) \<and> \<not> (\<exists>e. patch 0 ''0.45'' price_template = Inl e)"
proof -
  have "tpl_patches price_template = [\<lparr>ps_offset = 2, ps_length = 4\<rparr>, \<lparr>ps_offset = - 1, ps_length = 1\<rparr>]"
    by (simp add: price_template_def)
  with patch_panics [OF price_template_run, of 1 "''7''", THEN conjunct1]
    patch_panics [OF price_template_run, of 0 "''0.45''", THEN conjunct1]
  show ?thesis by (simp add: unat_minus_one_word)
qed

lemma registered_kept:
  assumes "template_run (map (\<lambda>(offset, len). RegisterPatch offset len) slots) t = Inr t'"
  shows "tpl_body t' = tpl_body t" "tpl_body_len t' = tpl_body_len t"
    "tpl_method t' = tpl_method t" "tpl_uri t' = tpl_uri t" "tpl_headers t' = tpl_headers t"
  using assms
  by (induction slots arbitrary: t) (auto simp: result_facts register_patch_def split: if_splits)

lemma patched_kept:
  assumes "patch slot val t = Inr t'"
  shows "tpl_patches t' = tpl_patches t" "tpl_body_len t' = tpl_body_len t"
    "tpl_method t' = tpl_method t" "tpl_uri t' = tpl_uri t" "tpl_headers t' = tpl_headers t"
  using assms by (auto simp: patch_def Let_def result_facts split: if_splits)

lemma patched_nth:
  assumes "template_ok t" "patch slot val t = Inr t'" "i < max_body_size"
  shows "tpl_body t' ! i =
     (if i \<in> slot_range (tpl_patches t ! slot) then val ! (i - unat (ps_offset (tpl_patches t ! slot)))
      else tpl_body t ! i)"
proof -
  let ?p = "tpl_patches t ! slot"
  have p: "length val = unat (ps_length ?p)" "proper_slot ?p"
    and body: "tpl_body t' = take (unat (ps_offset ?p)) (tpl_body t) @ val @
         drop (unat (ps_offset ?p) + unat (ps_length ?p)) (tpl_body t)"
    using assms(2) by (auto simp: patch_outcome [OF assms(1)] Let_def split: if_splits)
  have "length (tpl_body t) = max_body_size" using assms(1) by (simp add: template_ok_def)
  with p assms(3) show ?thesis
    by (auto simp: body nth_append proper_slot_def slot_range_def)
qed

lemma patches_written:
  assumes "template_ok t"
    "template_run (map (\<lambda>(slot, val). PatchSlot slot val) writes) t = Inr t'"
  shows "tpl_patches t' = tpl_patches t \<and> tpl_body_len t' = tpl_body_len t \<and> tpl_method t' = tpl_method t
    \<and> tpl_uri t' = tpl_uri t \<and> tpl_headers t' = tpl_headers t \<and>
     (\<forall>i < max_body_size. tpl_body t' ! i = patched_byte (tpl_patches t) (rev writes) (tpl_body t) i)"
  using assms(2)
proof (induction writes arbitrary: t' rule: rev_induct)
  case (snoc w writes)
  obtain slot val where w: "w = (slot, val)" by force
  from snoc.prems obtain t1 where 1: "template_run (map (\<lambda>(slot, val). PatchSlot slot val) writes) t = Inr t1"
    and 2: "patch slot val t1 = Inr t'"
    by (auto simp: w template_run_append result_facts)
  note IH = snoc.IH [OF 1]
  have "template_ok t1" by (rule template_ok_run [OF 1 assms(1)])
  from patched_nth [OF this 2] IH patched_kept [OF 2] show ?case by (simp add: w)
qed simp

text \<open>
  C39. The request built from a patched template is the template's request with, at every position of the body, the
  byte of the latest patch whose slot covers it, or the byte of the body that was set where no slot does. Its length
  is that of the body, and method, address and headers are untouched.
\<close>

theorem patched_request_body:
  assumes "template_run (SetBody body # map (\<lambda>(offset, len). RegisterPatch offset len) slots) t0 = Inr t1"
    and "template_ok t0"
    and "template_run (map (\<lambda>(slot, val). PatchSlot slot val) writes) t1 = Inr t"
    and "build_request header_name t0 = Inr request"
  shows "build_request header_name t =
    Inr (request\<lparr>rq_body := map (patched_byte (tpl_patches t1) (rev writes) body) [0..<length body]\<rparr>)"
proof -
  from assms(1) obtain t' where t': "set_body body t0 = Inr t'"
    and reg: "template_run (map (\<lambda>(offset, len). RegisterPatch offset len) slots) t' = Inr t1"
    by (auto simp: result_facts)
  note kept = registered_kept [OF reg]
  have t1: "tpl_body_len t1 = length body" "tpl_body t1 = body @ drop (length body) (tpl_body t0)"
      "length body \<le> max_body_size" "tpl_method t1 = tpl_method t0" "tpl_uri t1 = tpl_uri t0"
      "tpl_headers t1 = tpl_headers t0"
    using t' kept by (auto simp: set_body_def split: if_splits)
  have ok: "template_ok t1" by (rule template_ok_run [OF assms(1,2)])
  note written = patches_written [OF ok assms(3)]
  have long: "length (tpl_body t) = max_body_size"
    using template_ok_run [OF assms(3) ok] by (simp add: template_ok_def)
  have same: "patched_byte ss ws (tpl_body t1) i = patched_byte ss ws body i" if "i < length body" for ss ws i
    using that by (induction ws) (auto simp: t1 nth_append)
  have "body_bytes t = map (patched_byte (tpl_patches t1) (rev writes) body) [0..<length body]"
    using written t1(1,3) same long by (intro nth_equalityI) (auto simp: body_bytes_def)
  with assms(4) written t1 show ?thesis
    by (auto simp: build_request_def split: option.splits)
qed

theorem patched_request_body_witness:
  "build_request Some (price_template\<lparr>tpl_body := ''p=0.45;'' @ replicate 4089 (CHR 0x00)\<rparr>) =
     Inr \<lparr>rq_method = ''POST'', rq_uri = ''/order'', rq_headers = [], rq_body = ''p=0.45;''\<rparr>"
proof -
  have set_up: "template_run (SetBody ''p=XXXX;'' # map (\<lambda>(offset, len). RegisterPatch offset len) [(2, 4), (- 1, 1)])
      (request_template_new ''POST'' ''/order'') = Inr price_template"
    using price_template_run by simp
  have written: "template_run (map (\<lambda>(slot, val). PatchSlot slot val) [(0, ''0.45'')]) price_template =
      Inr (price_template\<lparr>tpl_body := ''p=0.45;'' @ replicate 4089 (CHR 0x00)\<rparr>)"
    by (simp add: patch_def overwrite_def price_template_def)
  have "build_request Some (request_template_new ''POST'' ''/order'') =
      Inr \<lparr>rq_method = ''POST'', rq_uri = ''/order'', rq_headers = [], rq_body = []\<rparr>"
    by (simp add: build_request_def request_template_new_def body_bytes_def)
  from patched_request_body [OF set_up template_ok_new written this]
  show ?thesis by (simp add: price_template_def slot_range_def upt_rec)
qed

end
