(* ===== verification/GenericExecutor.thy ===== *)
theory GenericExecutor
  imports Templates
begin

text \<open>
  The generic executor (\<open>rtt-core/src/queue.rs\<close>, \<open>executor.rs\<close>): a bounded queue of triggers, the ingress that
  stamps them, the execution thread that sends one request of a template for each, and the maintenance thread
  that checks the pool. The queue is a channel of the crossbeam library, whose operations are the fields of
  \<open>channel\<close>; the threads are interleaved as a sequence of events.
\<close>

section \<open>The queue\<close>

text \<open>\<open>'q\<close> is the state of a channel.\<close>

datatype try_send_error = ChannelFull trigger_message | SendDisconnected trigger_message

datatype try_recv_error = ChannelEmpty | RecvDisconnected

record 'q channel =
  ch_bounded :: "nat \<Rightarrow> 'q"
  ch_try_send :: "trigger_message \<Rightarrow> 'q \<Rightarrow> (try_send_error, unit) result \<times> 'q"
  ch_try_recv :: "'q \<Rightarrow> (try_recv_error, trigger_message) result \<times> 'q"
  ch_len :: "'q \<Rightarrow> nat"
  ch_show_error :: "try_send_error \<Rightarrow> string"

definition queue_capacity :: nat where
  "queue_capacity = 1024"

definition trigger_queue_new :: "'q channel \<Rightarrow> 'q" where
  "trigger_queue_new ch = ch_bounded ch queue_capacity"

definition queue_try_send :: "'q channel \<Rightarrow> trigger_message \<Rightarrow> 'q \<Rightarrow> (try_send_error, unit) result \<times> 'q" where
  "queue_try_send ch msg q = ch_try_send ch msg q"

definition queue_try_recv :: "'q channel \<Rightarrow> 'q \<Rightarrow> (try_recv_error, trigger_message) result \<times> 'q" where
  "queue_try_recv ch q = ch_try_recv ch q"

definition queue_len :: "'q channel \<Rightarrow> 'q \<Rightarrow> nat" where
  "queue_len ch q = ch_len ch q"

definition queue_is_empty :: "'q channel \<Rightarrow> 'q \<Rightarrow> bool" where
  "queue_is_empty ch q \<longleftrightarrow> ch_len ch q = 0"

section \<open>The ingress\<close>

definition ingress_inject ::
    "('w \<Rightarrow> u64 \<times> 'w) \<Rightarrow> 'q channel \<Rightarrow> trigger_message \<Rightarrow> 'q \<Rightarrow> 'w \<Rightarrow> (string, unit) result \<times> 'q \<times> 'w" where
  "ingress_inject now_ns ch msg q w =
     (let (t, w) = now_ns w;
          (sent, q) = ch_try_send ch (msg\<lparr>tm_timestamp_ns := t\<rparr>) q
      in (case sent of Inl e \<Rightarrow> Inl (''queue full: '' @ ch_show_error ch e) | Inr u \<Rightarrow> Inr u, q, w))"

section \<open>The execution thread\<close>

text \<open>One trigger: its record, or the panic of a template whose headers are no HTTP headers.\<close>

definition process_one ::
    "('w \<Rightarrow> u64 \<times> 'w) \<Rightarrow> ('w, 'a, 't, 's, 'f) network \<Rightarrow> (string \<Rightarrow> string option) \<Rightarrow> request_template
      \<Rightarrow> trigger_message \<Rightarrow> 's connection_pool \<Rightarrow> 'w
      \<Rightarrow> (template_panic, timestamp_record) result \<times> 's connection_pool \<times> 'w" where
  "process_one now_ns nw header_name template msg pool w =
     (let r = timestamp_record_default\<lparr>tr_trigger_rx := tm_timestamp_ns msg\<rparr>;
          (t, w) = now_ns w; r = r\<lparr>tr_dispatch_q := t\<rparr>;
          (t, w) = now_ns w; r = r\<lparr>tr_exec_start := t\<rparr>;
          (t, w) = now_ns w; r = r\<lparr>tr_buf_ready := t\<rparr>
      in case build_request header_name template of
           Inl panic \<Rightarrow> (Inl panic, pool, w)
         | Inr req \<Rightarrow>
             (let (t, w) = now_ns w; r = r\<lparr>tr_write_begin := t\<rparr>;
                  (handle_result, pool, w) = send_start nw req pool w;
                  (t, w) = now_ns w; r = r\<lparr>tr_write_end := t\<rparr>
              in case handle_result of
                   Inr handle \<Rightarrow>
                     (let r = r\<lparr>tr_connection_index := sh_connection_index handle\<rparr>;
                          (resp_result, pool, w) = collect nw handle pool w;
                          (t, w) = now_ns w; r = r\<lparr>tr_first_resp_byte := t\<rparr>
                      in case resp_result of
                           Inr resp \<Rightarrow>
                             (let r = (case get_cf_ray resp of
                                         None \<Rightarrow> r | Some cf_ray \<Rightarrow> r\<lparr>tr_cf_ray_pop := extract_pop cf_ray\<rparr>);
                                  (t, w) = now_ns w
                              in (Inr (r\<lparr>tr_headers_done := t, tr_is_reconnect := False\<rparr>), pool, w))
                         | Inl e \<Rightarrow>
                             (let (t, w) = now_ns w
                              in (Inr (r\<lparr>tr_headers_done := t, tr_is_reconnect := True\<rparr>), pool, w)))
                 | Inl e \<Rightarrow>
                     (let (t, w) = now_ns w; r = r\<lparr>tr_first_resp_byte := t\<rparr>;
                          (t, w) = now_ns w
                      in (Inr (r\<lparr>tr_headers_done := t, tr_is_reconnect := True\<rparr>), pool, w))))"

text \<open>
  The state the threads share: the channel, the flag and the records of the execution thread, whether its loop has
  ended, the counters of the maintenance thread, the pool and the world.
\<close>

record ('w, 'q, 's) executor_system =
  sy_queue :: 'q
  sy_running :: bool
  sy_ended :: bool
  sy_records :: "timestamp_record list"
  sy_health_checks :: nat
  sy_reconnects :: nat
  sy_pool :: "'s connection_pool"
  sy_world :: 'w

definition execution_thread_start :: "'q \<Rightarrow> 's connection_pool \<Rightarrow> 'w \<Rightarrow> ('w, 'q, 's) executor_system" where
  "execution_thread_start q pool w =
     \<lparr>sy_queue = q, sy_running = True, sy_ended = False, sy_records = [], sy_health_checks = 0, sy_reconnects = 0,
      sy_pool = pool, sy_world = w\<rparr>"

text \<open>One turn of the execution thread's loop.\<close>

definition execution_turn ::
    "('w \<Rightarrow> u64 \<times> 'w) \<Rightarrow> ('w, 'a, 't, 's, 'f) network \<Rightarrow> (string \<Rightarrow> string option) \<Rightarrow> 'q channel
      \<Rightarrow> request_template \<Rightarrow> ('w, 'q, 's) executor_system \<Rightarrow> ('w, 'q, 's) executor_system" where
  "execution_turn now_ns nw header_name ch template sy =
     (if sy_ended sy then sy
      else if \<not> sy_running sy then sy\<lparr>sy_ended := True\<rparr>
      else case ch_try_recv ch (sy_queue sy) of
             (Inr msg, q) \<Rightarrow>
               (case process_one now_ns nw header_name template msg (sy_pool sy) (sy_world sy) of
                  (Inr r, pool, w) \<Rightarrow>
                    sy\<lparr>sy_queue := q, sy_records := sy_records sy @ [r], sy_pool := pool, sy_world := w\<rparr>
                | (Inl panic, pool, w) \<Rightarrow> sy\<lparr>sy_queue := q, sy_ended := True, sy_pool := pool, sy_world := w\<rparr>)
           | (Inl ChannelEmpty, q) \<Rightarrow> sy\<lparr>sy_queue := q\<rparr>
           | (Inl RecvDisconnected, q) \<Rightarrow> sy\<lparr>sy_queue := q, sy_ended := True\<rparr>)"

definition execution_stop :: "('w, 'q, 's) executor_system \<Rightarrow> ('w, 'q, 's) executor_system" where
  "execution_stop sy = sy\<lparr>sy_running := False\<rparr>"

section \<open>The maintenance thread\<close>

text \<open>
  The sleep between two checks goes in steps of 50 ms and reads the flag before each. \<open>loads\<close> are the values that
  the thread reads from its flag, in their order; the observation ends with the list.
\<close>

definition sleep_step_ms :: nat where
  "sleep_step_ms = 50"

function maintenance_sleep :: "nat \<Rightarrow> nat \<Rightarrow> bool list \<Rightarrow> bool list" where
  "maintenance_sleep interval elapsed loads =
     (if elapsed < interval
      then case loads of
             [] \<Rightarrow> []
           | running # rest \<Rightarrow>
               if running then maintenance_sleep interval (elapsed + sleep_step_ms) rest else rest
      else loads)"
  by pat_completeness auto
termination by (relation "measure (\<lambda>(interval, elapsed, loads). length loads)") auto

declare maintenance_sleep.simps [simp del]

lemma maintenance_sleep_shortens: "length (maintenance_sleep interval elapsed loads) \<le> length loads"
  by (induction interval elapsed loads rule: maintenance_sleep.induct)
    (subst maintenance_sleep.simps, auto split: list.splits intro: le_SucI)

definition maintenance_check ::
    "('w, 'a, 't, 's, 'f) network \<Rightarrow> ('w, 'q, 's) executor_system \<Rightarrow> ('w, 'q, 's) executor_system" where
  "maintenance_check nw sy =
     (let (healthy, pool, w) = health_check nw (sy_pool sy) (sy_world sy)
      in sy\<lparr>sy_health_checks := sy_health_checks sy + 1,
            sy_reconnects := sy_reconnects sy + (if healthy < pool_size pool then 1 else 0),
            sy_pool := pool, sy_world := w\<rparr>)"

function maintenance_loop ::
    "('w, 'a, 't, 's, 'f) network \<Rightarrow> nat \<Rightarrow> bool list \<Rightarrow> ('w, 'q, 's) executor_system
      \<Rightarrow> ('w, 'q, 's) executor_system" where
  "maintenance_loop nw interval [] sy = sy"
| "maintenance_loop nw interval (running # loads) sy =
     (if \<not> running then sy
      else case maintenance_sleep interval 0 loads of
             [] \<Rightarrow> sy
           | still_running # rest \<Rightarrow>
               if \<not> still_running then sy else maintenance_loop nw interval rest (maintenance_check nw sy))"
  by pat_completeness auto
termination
proof (relation "measure (\<lambda>(nw, interval, loads, sy). length loads)", goal_cases)
  case (2 nw interval running loads sy still_running rest)
  then show ?case using maintenance_sleep_shortens [of interval 0 loads] by simp
qed simp

section \<open>The threads together\<close>

text \<open>
  What may happen to the shared state, one operation of a thread at a time. An injection answers with the stamped
  trigger and the result the caller gets.
\<close>

datatype executor_event = Inject trigger_message | ExecutionTurn | MaintenanceCheck | StopExecution

definition inject_step ::
    "('w \<Rightarrow> u64 \<times> 'w) \<Rightarrow> 'q channel \<Rightarrow> trigger_message \<Rightarrow> ('w, 'q, 's) executor_system
      \<Rightarrow> (trigger_message \<times> (string, unit) result) \<times> ('w, 'q, 's) executor_system" where
  "inject_step now_ns ch msg sy =
     (let (result, q, w) = ingress_inject now_ns ch msg (sy_queue sy) (sy_world sy)
      in ((msg\<lparr>tm_timestamp_ns := fst (now_ns (sy_world sy))\<rparr>, result), sy\<lparr>sy_queue := q, sy_world := w\<rparr>))"

fun executor_run ::
    "('w \<Rightarrow> u64 \<times> 'w) \<Rightarrow> ('w, 'a, 't, 's, 'f) network \<Rightarrow> (string \<Rightarrow> string option) \<Rightarrow> 'q channel
      \<Rightarrow> request_template \<Rightarrow> executor_event list \<Rightarrow> ('w, 'q, 's) executor_system
      \<Rightarrow> (trigger_message \<times> (string, unit) result) list \<times> ('w, 'q, 's) executor_system" where
  "executor_run now_ns nw header_name ch template [] sy = ([], sy)"
| "executor_run now_ns nw header_name ch template (ev # evs) sy =
     (case ev of
        Inject msg \<Rightarrow>
          (let (answer, sy) = inject_step now_ns ch msg sy;
               (answers, sy) = executor_run now_ns nw header_name ch template evs sy
           in (answer # answers, sy))
      | ExecutionTurn \<Rightarrow>
          executor_run now_ns nw header_name ch template evs (execution_turn now_ns nw header_name ch template sy)
      | MaintenanceCheck \<Rightarrow> executor_run now_ns nw header_name ch template evs (maintenance_check nw sy)
      | StopExecution \<Rightarrow> executor_run now_ns nw header_name ch template evs (execution_stop sy))"

text \<open>
  What crossbeam documents of a bounded channel with both ends alive: the messages it holds come out in the order they
  went in, and it refuses one exactly when it holds as many as its capacity.
\<close>

definition bounded_fifo :: "'q channel \<Rightarrow> ('q \<Rightarrow> trigger_message list) \<Rightarrow> ('q \<Rightarrow> nat) \<Rightarrow> bool" where
  "bounded_fifo ch contents capacity \<longleftrightarrow>
     (\<forall>n. contents (ch_bounded ch n) = [] \<and> capacity (ch_bounded ch n) = n)
   \<and> (\<forall>m q r q'. ch_try_send ch m q = (r, q') \<longrightarrow> capacity q' = capacity q \<and>
        (if length (contents q) < capacity q then r = Inr () \<and> contents q' = contents q @ [m]
         else r = Inl (ChannelFull m) \<and> contents q' = contents q))
   \<and> (\<forall>q r q'. ch_try_recv ch q = (r, q') \<longrightarrow> capacity q' = capacity q \<and>
        (case contents q of
           [] \<Rightarrow> r = Inl ChannelEmpty \<and> contents q' = []
         | m # ms \<Rightarrow> r = Inr m \<and> contents q' = ms))
   \<and> (\<forall>q. ch_len ch q = length (contents q))"

lemma bounded_fifo_calls:
  assumes "bounded_fifo ch contents capacity"
  shows "contents (ch_bounded ch n) = []" "capacity (ch_bounded ch n) = n"
    "ch_try_send ch m q = (r, q') \<Longrightarrow> capacity q' = capacity q \<and>
        (if length (contents q) < capacity q then r = Inr () \<and> contents q' = contents q @ [m]
         else r = Inl (ChannelFull m) \<and> contents q' = contents q)"
    "ch_try_recv ch q = (r', q') \<Longrightarrow> capacity q' = capacity q \<and>
        (case contents q of
           [] \<Rightarrow> r' = Inl ChannelEmpty \<and> contents q' = []
         | m # ms \<Rightarrow> r' = Inr m \<and> contents q' = ms)"
  using assms unfolding bounded_fifo_def by (elim conjE, simp)+

lemma process_one_stamp:
  assumes "process_one now_ns nw header_name template msg pool w = (Inr r, pool', w')"
  shows "tr_trigger_rx r = tm_timestamp_ns msg"
  using assms by (auto simp: process_one_def Let_def split: prod.splits sum.splits option.splits)

lemma process_one_returns:
  assumes "build_request header_name template = Inr req"
  shows "\<exists>r pool' w'. process_one now_ns nw header_name template msg pool w = (Inr r, pool', w')"
proof -
  have "\<exists>r. fst (process_one now_ns nw header_name template msg pool w) = Inr r"
    using assms by (simp add: process_one_def Let_def split: prod.split sum.split)
  then show ?thesis by (metis prod.collapse)
qed

text \<open>The triggers of the answers that were accepted, by their stamps.\<close>

definition accepted_stamps :: "(trigger_message \<times> (string, unit) result) list \<Rightarrow> u64 list" where
  "accepted_stamps answers = map (\<lambda>(m, r). tm_timestamp_ns m) (filter (\<lambda>(m, r). r = Inr ()) answers)"

definition waiting_stamps :: "('q \<Rightarrow> trigger_message list) \<Rightarrow> ('w, 'q, 's) executor_system \<Rightarrow> u64 list" where
  "waiting_stamps contents sy = map tm_timestamp_ns (contents (sy_queue sy))"

definition record_stamps :: "('w, 'q, 's) executor_system \<Rightarrow> u64 list" where
  "record_stamps sy = map tr_trigger_rx (sy_records sy)"

lemma execution_turn_moves:
  assumes "bounded_fifo ch contents capacity" "build_request header_name template = Inr req"
    and turn: "execution_turn now_ns nw header_name ch template sy = sy'"
  shows "capacity (sy_queue sy') = capacity (sy_queue sy) \<and>
    (sy_records sy' = sy_records sy \<and> contents (sy_queue sy') = contents (sy_queue sy) \<or>
     (\<exists>m r. contents (sy_queue sy) = m # contents (sy_queue sy') \<and> sy_records sy' = sy_records sy @ [r] \<and>
        tr_trigger_rx r = tm_timestamp_ns m))"
proof (cases "sy_ended sy \<or> \<not> sy_running sy")
  case True
  then show ?thesis by (auto simp: turn [symmetric] execution_turn_def)
next
  case False
  obtain got q where recv: "ch_try_recv ch (sy_queue sy) = (got, q)" by force
  note recv_facts = bounded_fifo_calls(4) [OF assms(1) recv]
  show ?thesis
  proof (cases "contents (sy_queue sy)")
    case Nil
    with recv_facts have "got = Inl ChannelEmpty" by simp
    with False recv have "sy' = sy\<lparr>sy_queue := q\<rparr>" by (simp add: turn [symmetric] execution_turn_def)
    with Nil recv_facts show ?thesis by simp
  next
    case (Cons m ms)
    obtain r pool w where one: "process_one now_ns nw header_name template m (sy_pool sy) (sy_world sy) =
        (Inr r, pool, w)"
      using process_one_returns [OF assms(2), of now_ns nw m "sy_pool sy" "sy_world sy"] by blast
    from Cons recv_facts have "got = Inr m" by simp
    with False recv one have
      "sy' = sy\<lparr>sy_queue := q, sy_records := sy_records sy @ [r], sy_pool := pool, sy_world := w\<rparr>"
      by (simp add: turn [symmetric] execution_turn_def)
    with Cons recv_facts process_one_stamp [OF one] show ?thesis by simp
  qed
qed

lemma execution_turn_stamps:
  assumes "bounded_fifo ch contents capacity" "build_request header_name template = Inr req"
    and turn: "execution_turn now_ns nw header_name ch template sy = sy'"
  shows "record_stamps sy' @ waiting_stamps contents sy' = record_stamps sy @ waiting_stamps contents sy"
    and "capacity (sy_queue sy') = capacity (sy_queue sy)"
    and "length (waiting_stamps contents sy') \<le> length (waiting_stamps contents sy)"
  using execution_turn_moves [OF assms]
  by (auto simp: record_stamps_def waiting_stamps_def)

lemma inject_step_stamps:
  assumes "bounded_fifo ch contents capacity" "inject_step now_ns ch msg sy = ((m, result), sy')"
  shows "capacity (sy_queue sy') = capacity (sy_queue sy) \<and> record_stamps sy' = record_stamps sy \<and>
    (if length (waiting_stamps contents sy) < capacity (sy_queue sy)
     then result = Inr () \<and> waiting_stamps contents sy' = waiting_stamps contents sy @ [tm_timestamp_ns m]
     else result = Inl (''queue full: '' @ ch_show_error ch (ChannelFull m)) \<and>
          waiting_stamps contents sy' = waiting_stamps contents sy)"
proof -
  obtain t w where now: "now_ns (sy_world sy) = (t, w)" by force
  obtain r q where sent: "ch_try_send ch (msg\<lparr>tm_timestamp_ns := t\<rparr>) (sy_queue sy) = (r, q)" by force
  from assms(2) now sent bounded_fifo_calls(3) [OF assms(1) sent] show ?thesis
    by (auto simp: inject_step_def ingress_inject_def record_stamps_def waiting_stamps_def split: if_splits)
qed

text \<open>The other events leave the queue and the records alone.\<close>

lemma maintenance_check_stamps:
  "record_stamps (maintenance_check nw sy) = record_stamps sy"
  "waiting_stamps contents (maintenance_check nw sy) = waiting_stamps contents sy"
  "sy_queue (maintenance_check nw sy) = sy_queue sy"
  by (simp_all add: maintenance_check_def record_stamps_def waiting_stamps_def Let_def split: prod.split)

lemma execution_stop_stamps:
  "record_stamps (execution_stop sy) = record_stamps sy"
  "waiting_stamps contents (execution_stop sy) = waiting_stamps contents sy"
  "sy_queue (execution_stop sy) = sy_queue sy"
  by (simp_all add: execution_stop_def record_stamps_def waiting_stamps_def)

lemma accepted_stamps_simps:
  "accepted_stamps [] = []"
  "accepted_stamps ((m, Inr ()) # answers) = tm_timestamp_ns m # accepted_stamps answers"
  "accepted_stamps ((m, Inl e) # answers) = accepted_stamps answers"
  by (simp_all add: accepted_stamps_def)

lemma executor_run_stamps:
  assumes "bounded_fifo ch contents capacity" "build_request header_name template = Inr req"
    and "executor_run now_ns nw header_name ch template evs sy = (answers, sy')"
    and "length (waiting_stamps contents sy) \<le> capacity (sy_queue sy)"
  shows "record_stamps sy @ waiting_stamps contents sy @ accepted_stamps answers =
      record_stamps sy' @ waiting_stamps contents sy' \<and>
    capacity (sy_queue sy') = capacity (sy_queue sy) \<and>
    length (waiting_stamps contents sy') \<le> capacity (sy_queue sy) \<and>
    (\<forall>(m, r) \<in> set answers. r = Inr () \<or> r = Inl (''queue full: '' @ ch_show_error ch (ChannelFull m))) \<and>
    (length (waiting_stamps contents sy) + length answers \<le> capacity (sy_queue sy) \<longrightarrow>
       (\<forall>(m, r) \<in> set answers. r = Inr ()))"
  using assms(3,4)
proof (induction evs arbitrary: sy answers)
  case Nil
  then show ?case by (simp add: accepted_stamps_simps)
next
  case (Cons ev evs)
  show ?case
  proof (cases ev)
    case (Inject msg)
    obtain m r sy1 where 1: "inject_step now_ns ch msg sy = ((m, r), sy1)" by (metis prod.exhaust)
    obtain answers1 where 2: "executor_run now_ns nw header_name ch template evs sy1 = (answers1, sy')"
      and answers: "answers = (m, r) # answers1"
      using Cons.prems(1) 1 by (auto simp: Inject split: prod.splits)
    note step = inject_step_stamps [OF assms(1) 1]
    have "length (waiting_stamps contents sy1) \<le> capacity (sy_queue sy1)"
      using step Cons.prems(2) by (auto split: if_splits)
    note IH = Cons.IH [OF 2 this]
    from step IH show ?thesis
      by (cases "length (waiting_stamps contents sy) < capacity (sy_queue sy)")
        (auto simp: answers accepted_stamps_simps)
  next
    case ExecutionTurn
    define sy1 where "sy1 = execution_turn now_ns nw header_name ch template sy"
    note turn = execution_turn_stamps [OF assms(1,2) sy1_def [symmetric]]
    have "executor_run now_ns nw header_name ch template evs sy1 = (answers, sy')"
      "length (waiting_stamps contents sy1) \<le> capacity (sy_queue sy1)"
      using Cons.prems turn by (simp_all add: ExecutionTurn sy1_def)
    note IH = Cons.IH [OF this]
    have "record_stamps sy @ waiting_stamps contents sy @ accepted_stamps answers =
        record_stamps sy1 @ waiting_stamps contents sy1 @ accepted_stamps answers"
      by (simp add: turn(1) flip: append_assoc)
    with IH turn(2,3) show ?thesis by simp
  next
    case MaintenanceCheck
    then show ?thesis
      using Cons.prems Cons.IH [of "maintenance_check nw sy" answers] by (simp add: maintenance_check_stamps)
  next
    case StopExecution
    then show ?thesis
      using Cons.prems Cons.IH [of "execution_stop sy" answers] by (simp add: execution_stop_stamps)
  qed
qed


definition list_channel :: "(nat \<times> trigger_message list) channel" where
  "list_channel =
     \<lparr>ch_bounded = \<lambda>n. (n, []),
      ch_try_send = \<lambda>m (n, ms). if length ms < n then (Inr (), n, ms @ [m]) else (Inl (ChannelFull m), n, ms),
      ch_try_recv = \<lambda>(n, ms). (case ms of [] \<Rightarrow> (Inl ChannelEmpty, n, []) | m # ms \<Rightarrow> (Inr m, n, ms)),
      ch_len = \<lambda>(n, ms). length ms,
      ch_show_error = \<lambda>e. ''sending on a full channel''\<rparr>"

lemma list_channel_fifo: "bounded_fifo list_channel snd fst"
  by (auto simp: bounded_fifo_def list_channel_def split: list.splits)

definition benchmark_trigger :: trigger_message where
  "benchmark_trigger =
     \<lparr>tm_trigger_id = 1, tm_token_id = ''benchmark'', tm_side = Buy, tm_price = ''0.50'', tm_size = ''1'',
      tm_order_type = FOK, tm_timestamp_ns = 0\<rparr>"

text \<open>Two triggers injected at 7 ns and one turn of the execution thread, over a pool without connections.\<close>

definition sample_system :: "(nat \<times> bool, nat \<times> trigger_message list, nat) executor_system" where
  "sample_system =
     execution_thread_start (trigger_queue_new list_channel) (connection_pool_new id ''host'' 443 0 AfAuto) (0, False)"

abbreviation sample_executor_run where
  "sample_executor_run \<equiv> executor_run (\<lambda>w. (7, w)) flaky_network Some list_channel (request_template_new ''GET'' ''/'')
     [Inject benchmark_trigger, ExecutionTurn, Inject benchmark_trigger] sample_system"

lemma sample_request:
  "build_request Some (request_template_new ''GET'' ''/'') =
     Inr \<lparr>rq_method = ''GET'', rq_uri = ''/'', rq_headers = [], rq_body = []\<rparr>"
  by (simp add: build_request_def request_template_new_def body_bytes_def)

lemma sample_executor_run:
  "\<exists>r sy. sample_executor_run =
     ([(benchmark_trigger\<lparr>tm_timestamp_ns := 7\<rparr>, Inr ()), (benchmark_trigger\<lparr>tm_timestamp_ns := 7\<rparr>, Inr ())], sy) \<and>
     sy_records sy = [r]"
proof -
  have "\<exists>r. process_one (\<lambda>w. (7, w)) flaky_network Some (request_template_new ''GET'' ''/'') msg
      (connection_pool_new id ''host'' 443 0 AfAuto) (0, False) =
      (Inr r, connection_pool_new id ''host'' 443 0 AfAuto, (0, False))" for msg
    by (simp add: process_one_def sample_request send_start_def acquire_def connection_pool_new_def Let_def)
  from this [of "benchmark_trigger\<lparr>tm_timestamp_ns := 7\<rparr>"] show ?thesis
    by (auto simp: inject_step_def ingress_inject_def execution_turn_def execution_thread_start_def sample_system_def
        trigger_queue_new_def queue_capacity_def list_channel_def)
qed


section \<open>The checkpoints of a record\<close>

text \<open>
  A monotonic clock: \<open>time w\<close> is a lower bound of the next reading and an upper bound of the last, and no
  library call turns it back.
\<close>

definition monotonic ::
    "('w \<Rightarrow> u64) \<Rightarrow> ('w \<Rightarrow> u64 \<times> 'w) \<Rightarrow> ('w, 'a, 't, 's, 'f) network \<Rightarrow> bool" where
  "monotonic time now_ns nw \<longleftrightarrow>
     (\<forall>w t w'. now_ns w = (t, w') \<longrightarrow> time w \<le> t \<and> t \<le> time w')
   \<and> (\<forall>host port w r w'. nw_resolve nw host port w = (r, w') \<longrightarrow> time w \<le> time w')
   \<and> (\<forall>a w r w'. nw_tcp_connect nw a w = (r, w') \<longrightarrow> time w \<le> time w')
   \<and> (\<forall>t w r w'. nw_set_nodelay nw t w = (r, w') \<longrightarrow> time w \<le> time w')
   \<and> (\<forall>n t w r w'. nw_tls_connect nw n t w = (r, w') \<longrightarrow> time w \<le> time w')
   \<and> (\<forall>t w r w'. nw_handshake nw t w = (r, w') \<longrightarrow> time w \<le> time w')
   \<and> (\<forall>s req w f w'. nw_submit nw s req w = (f, w') \<longrightarrow> time w \<le> time w')
   \<and> (\<forall>f w r w'. nw_head nw f w = (r, w') \<longrightarrow> time w \<le> time w')
   \<and> (\<forall>f w r w'. nw_body nw f w = (r, w') \<longrightarrow> time w \<le> time w')"

lemma monotonic_calls:
  assumes "monotonic time now_ns nw"
  shows "nw_resolve nw host port w = (r0, w') \<Longrightarrow> time w \<le> time w'"
    and "nw_tcp_connect nw a w = (r1, w') \<Longrightarrow> time w \<le> time w'"
    and "nw_set_nodelay nw t w = (r2, w') \<Longrightarrow> time w \<le> time w'"
    and "nw_tls_connect nw n t w = (r3, w') \<Longrightarrow> time w \<le> time w'"
    and "nw_handshake nw t w = (r4, w') \<Longrightarrow> time w \<le> time w'"
    and "nw_submit nw s req w = (f, w') \<Longrightarrow> time w \<le> time w'"
    and "nw_head nw f w = (r5, w') \<Longrightarrow> time w \<le> time w'"
    and "nw_body nw f w = (r6, w') \<Longrightarrow> time w \<le> time w'"
  using assms unfolding monotonic_def by (elim conjE, simp)+

lemma monotonic_clock:
  assumes "monotonic time now_ns nw" "now_ns w = (t, w')"
  shows "time w \<le> t" "t \<le> time w'"
  using assms unfolding monotonic_def by (elim conjE, simp)+

lemma monotonic_connect_sender:
  assumes M: "monotonic time now_ns nw" and c: "connect_sender_for_addr nw host addr w = (r, w')"
  shows "time w \<le> time w'"
  using c unfolding connect_sender_for_addr_def
  by (auto split: prod.splits sum.splits dest!: monotonic_calls [OF M])

lemma monotonic_connect_first:
  assumes M: "monotonic time now_ns nw"
  shows "connect_first nw host addrs last_error w = (r, w') \<Longrightarrow> time w \<le> time w'"
proof (induction addrs arbitrary: last_error w)
  case (Cons a addrs)
  obtain r1 w1 where 1: "connect_sender_for_addr nw host a w = (r1, w1)" by force
  from monotonic_connect_sender [OF M 1] Cons 1 show ?case
    by (cases r1) (auto intro: order_trans)
qed simp

lemma monotonic_connect:
  assumes M: "monotonic time now_ns nw" and c: "connect_h2 nw host port af w = (r, w')"
  shows "time w \<le> time w'"
  using c unfolding connect_h2_def resolve_def
  by (auto simp: Let_def split: prod.splits sum.splits if_splits
      dest!: monotonic_calls [OF M] monotonic_connect_first [OF M] intro: order_trans)

lemma monotonic_reconnect:
  assumes M: "monotonic time now_ns nw" and c: "reconnect nw i pool w = (r, pool', w')"
  shows "time w \<le> time w'"
  using c unfolding reconnect_def
  by (auto split: prod.splits sum.splits if_splits dest!: monotonic_connect [OF M])

lemma monotonic_send_start:
  assumes M: "monotonic time now_ns nw" and c: "send_start nw req pool w = (r, pool', w')"
  shows "time w \<le> time w'"
  using c unfolding send_start_def acquire_def ensure_healthy_def
  by (auto simp: Let_def split: prod.splits sum.splits if_splits
      dest!: monotonic_reconnect [OF M] monotonic_calls(6) [OF M] intro: order_trans)

lemma monotonic_response:
  assumes M: "monotonic time now_ns nw" and c: "collect_response nw future w = (r, w')"
  shows "time w \<le> time w'"
  using c unfolding collect_response_def
  by (auto split: prod.splits sum.splits dest!: monotonic_calls(7,8) [OF M] intro: order_trans)

lemma monotonic_collect:
  assumes M: "monotonic time now_ns nw" and c: "collect nw handle pool w = (r, pool', w')"
  shows "time w \<le> time w'"
  using c unfolding collect_def send_handle_collect_def report_failure_def
  by (auto simp: Let_def split: prod.splits sum.splits if_splits
      dest!: monotonic_response [OF M] monotonic_reconnect [OF M] intro: order_trans)

lemma monotonic_check_connections:
  assumes M: "monotonic time now_ns nw"
  shows "check_connections nw indices pool w = (hs, pool', w') \<Longrightarrow> time w \<le> time w'"
proof (induction indices arbitrary: pool w hs)
  case (Cons i indices)
  have "time w \<le> time w1" if "check_connection nw i pool w = (h, pool1, w1)" for h pool1 w1
    using that unfolding check_connection_def
    by (auto simp: Let_def split: prod.splits sum.splits
        dest!: monotonic_calls(6) [OF M] monotonic_response [OF M] monotonic_reconnect [OF M] intro: order_trans)
  with Cons show ?case by (auto simp: Let_def split: prod.splits intro: order_trans)
qed simp

definition in_order :: "timestamp_record \<Rightarrow> bool" where
  "in_order r \<longleftrightarrow>
     tr_trigger_rx r \<le> tr_dispatch_q r \<and> tr_dispatch_q r \<le> tr_exec_start r \<and> tr_exec_start r \<le> tr_buf_ready r
   \<and> tr_buf_ready r \<le> tr_write_begin r \<and> tr_write_begin r \<le> tr_write_end r
   \<and> tr_write_end r \<le> tr_first_resp_byte r \<and> tr_first_resp_byte r \<le> tr_headers_done r"

lemma process_one_in_order:
  assumes M: "monotonic time now_ns nw"
    and one: "process_one now_ns nw header_name template msg pool w = (result, pool', w')"
    and stamp: "tm_timestamp_ns msg \<le> time w"
  shows "time w \<le> time w' \<and> (\<forall>r. result = Inr r \<longrightarrow> in_order r)"
proof -
  note clock = monotonic_clock [OF M]
  obtain t1 w1 where 1: "now_ns w = (t1, w1)" by force
  obtain t2 w2 where 2: "now_ns w1 = (t2, w2)" by force
  obtain t3 w3 where 3: "now_ns w2 = (t3, w3)" by force
  note early = clock [OF 1] clock [OF 2] clock [OF 3]
  have "time w \<le> time w3" using early by (metis order_trans)
  show ?thesis
  proof (cases "build_request header_name template")
    case (Inl panic)
    with one 1 2 3 \<open>time w \<le> time w3\<close> show ?thesis by (auto simp: process_one_def Let_def)
  next
    case (Inr req)
    obtain t4 w4 where 4: "now_ns w3 = (t4, w4)" by force
    obtain started pool5 w5 where 5: "send_start nw req pool w4 = (started, pool5, w5)" by (metis prod.exhaust)
    obtain t6 w6 where 6: "now_ns w5 = (t6, w6)" by force
    note middle = clock [OF 4] monotonic_send_start [OF M 5] clock [OF 6]
    have w6: "time w3 \<le> time w6" using middle by (metis order_trans)
    show ?thesis
    proof (cases started)
      case (Inl e)
      obtain t7 w7 where 7: "now_ns w6 = (t7, w7)" by force
      obtain t8 w8 where 8: "now_ns w7 = (t8, w8)" by force
      from one Inr Inl 1 2 3 4 5 6 7 8 have "w' = w8" and result: "\<exists>r. result = Inr r \<and> tr_trigger_rx r = tm_timestamp_ns msg \<and>
          tr_dispatch_q r = t1 \<and> tr_exec_start r = t2 \<and> tr_buf_ready r = t3 \<and> tr_write_begin r = t4 \<and>
          tr_write_end r = t6 \<and> tr_first_resp_byte r = t7 \<and> tr_headers_done r = t8"
        by (auto simp: process_one_def Let_def)
      with stamp early middle w6 clock [OF 7] clock [OF 8] show ?thesis
        by (auto simp: in_order_def intro: order_trans)
    next
      case started: (Inr handle)
      obtain resp pool7 w7 where 7: "collect nw handle pool5 w6 = (resp, pool7, w7)" by (metis prod.exhaust)
      obtain t8 w8 where 8: "now_ns w7 = (t8, w8)" by force
      obtain t9 w9 where 9: "now_ns w8 = (t9, w9)" by force
      from one Inr started 1 2 3 4 5 6 7 8 9 have "w' = w9" and result: "\<exists>r. result = Inr r \<and> tr_trigger_rx r = tm_timestamp_ns msg \<and>
          tr_dispatch_q r = t1 \<and> tr_exec_start r = t2 \<and> tr_buf_ready r = t3 \<and> tr_write_begin r = t4 \<and>
          tr_write_end r = t6 \<and> tr_first_resp_byte r = t8 \<and> tr_headers_done r = t9"
        by (auto simp: process_one_def Let_def split: sum.splits option.splits)
      with stamp early middle w6 monotonic_collect [OF M 7] clock [OF 8] clock [OF 9] show ?thesis
        by (auto simp: in_order_def intro: order_trans)
    qed
  qed
qed

text \<open>Every record is in order and no waiting trigger was stamped after the present.\<close>

definition stamps_past :: "('w \<Rightarrow> u64) \<Rightarrow> ('q \<Rightarrow> trigger_message list) \<Rightarrow> ('w, 'q, 's) executor_system \<Rightarrow> bool" where
  "stamps_past time contents sy \<longleftrightarrow>
     (\<forall>r \<in> set (sy_records sy). in_order r) \<and>
     (\<forall>m \<in> set (contents (sy_queue sy)). tm_timestamp_ns m \<le> time (sy_world sy))"

lemma stamps_past_turn:
  assumes "bounded_fifo ch contents capacity" "monotonic time now_ns nw" "stamps_past time contents sy"
  shows "stamps_past time contents (execution_turn now_ns nw header_name ch template sy)"
proof (cases "sy_ended sy \<or> \<not> sy_running sy")
  case True
  with assms(3) show ?thesis by (auto simp: execution_turn_def stamps_past_def)
next
  case False
  obtain got q where recv: "ch_try_recv ch (sy_queue sy) = (got, q)" by force
  note recv_facts = bounded_fifo_calls(4) [OF assms(1) recv]
  show ?thesis
  proof (cases "contents (sy_queue sy)")
    case Nil
    with recv_facts have "got = Inl ChannelEmpty" by simp
    with False recv Nil recv_facts assms(3) show ?thesis by (simp add: execution_turn_def stamps_past_def)
  next
    case (Cons m ms)
    obtain result pool w where one: "process_one now_ns nw header_name template m (sy_pool sy) (sy_world sy) =
        (result, pool, w)" by (metis prod.exhaust)
    have "tm_timestamp_ns m \<le> time (sy_world sy)" using assms(3) Cons by (simp add: stamps_past_def)
    note order = process_one_in_order [OF assms(2) one this]
    from Cons recv_facts have "got = Inr m" by simp
    with False recv one order Cons recv_facts assms(3) show ?thesis
      by (cases result) (auto simp: execution_turn_def stamps_past_def intro: order_trans)
  qed
qed

lemma stamps_past_inject:
  assumes "bounded_fifo ch contents capacity" "monotonic time now_ns nw" "stamps_past time contents sy"
  shows "stamps_past time contents (snd (inject_step now_ns ch msg sy))"
proof -
  obtain t w where now: "now_ns (sy_world sy) = (t, w)" by force
  obtain r q where sent: "ch_try_send ch (msg\<lparr>tm_timestamp_ns := t\<rparr>) (sy_queue sy) = (r, q)" by force
  from now sent bounded_fifo_calls(3) [OF assms(1) sent] assms(3) monotonic_clock [OF assms(2) now]
  show ?thesis
    by (auto simp: inject_step_def ingress_inject_def stamps_past_def split: if_splits intro: order_trans)
qed

lemma stamps_past_check:
  assumes "monotonic time now_ns nw" "stamps_past time contents sy"
  shows "stamps_past time contents (maintenance_check nw sy)"
  using assms monotonic_check_connections [OF assms(1)]
  by (auto simp: maintenance_check_def health_check_def health_check_detailed_def stamps_past_def Let_def
      split: prod.split intro: order_trans)

lemma stamps_past_run:
  assumes "bounded_fifo ch contents capacity" "monotonic time now_ns nw"
  shows "executor_run now_ns nw header_name ch template evs sy = (answers, sy') \<Longrightarrow>
    stamps_past time contents sy \<Longrightarrow> stamps_past time contents sy'"
proof (induction evs arbitrary: sy answers)
  case (Cons ev evs)
  have "\<exists>sy1 answers1. executor_run now_ns nw header_name ch template evs sy1 = (answers1, sy') \<and>
      stamps_past time contents sy1"
  proof (cases ev)
    case (Inject msg)
    obtain a sy1 where 1: "inject_step now_ns ch msg sy = (a, sy1)" by (metis prod.exhaust)
    obtain answers1 where "executor_run now_ns nw header_name ch template evs sy1 = (answers1, sy')"
      using Cons.prems(1) 1 by (auto simp: Inject split: prod.splits)
    with stamps_past_inject [OF assms Cons.prems(2), of msg] 1 show ?thesis by auto
  next
    case ExecutionTurn
    with Cons.prems(1) stamps_past_turn [OF assms Cons.prems(2), of header_name template] show ?thesis by auto
  next
    case MaintenanceCheck
    with Cons.prems(1) stamps_past_check [OF assms(2) Cons.prems(2)] show ?thesis by auto
  next
    case StopExecution
    have "stamps_past time contents (execution_stop sy)"
      using Cons.prems(2) by (simp add: stamps_past_def execution_stop_def)
    with StopExecution Cons.prems(1) show ?thesis by auto
  qed
  with Cons.IH show ?case by blast
qed simp

text \<open>
  C38. With a monotonic clock the eight checkpoints of every record follow each other, whatever the interleaving and
  the outcome of the requests, so no latency saturates and the parts add up: the time to the wire and the time from the
  wire to the first byte are the whole, and the queue and the preparation fit into the first.
\<close>

theorem checkpoints_in_order:
  assumes "bounded_fifo ch contents capacity" and "monotonic time now_ns nw"
    and "executor_run now_ns nw header_name ch template evs
           (execution_thread_start (trigger_queue_new ch) pool w) = (answers, sy)"
    and "r \<in> set (sy_records sy)"
  shows "sorted [tr_trigger_rx r, tr_dispatch_q r, tr_exec_start r, tr_buf_ready r, tr_write_begin r, tr_write_end r,
      tr_first_resp_byte r, tr_headers_done r] \<and>
    trigger_to_first_byte r = trigger_to_wire r + warm_ttfb r \<and>
    warm_ttfb r = write_duration r + write_to_first_byte r \<and>
    unat (queue_delay r) + unat (prep_time r) \<le> unat (trigger_to_wire r)"
proof -
  have "stamps_past time contents (execution_thread_start (trigger_queue_new ch) pool w)"
    by (simp add: stamps_past_def execution_thread_start_def trigger_queue_new_def bounded_fifo_calls [OF assms(1)])
  from stamps_past_run [OF assms(1-3) this] assms(4) have "in_order r" by (simp add: stamps_past_def)
  then have chain: "tr_trigger_rx r \<le> tr_dispatch_q r" "tr_dispatch_q r \<le> tr_exec_start r" "tr_exec_start r \<le> tr_buf_ready r"
      "tr_buf_ready r \<le> tr_write_begin r" "tr_write_begin r \<le> tr_write_end r"
      "tr_write_end r \<le> tr_first_resp_byte r" "tr_first_resp_byte r \<le> tr_headers_done r"
    by (simp_all add: in_order_def)
  then have le: "tr_trigger_rx r \<le> tr_exec_start r" "tr_trigger_rx r \<le> tr_write_begin r"
      "tr_write_begin r \<le> tr_first_resp_byte r" "tr_trigger_rx r \<le> tr_first_resp_byte r"
    by (meson order_trans)+
  have "sorted [tr_trigger_rx r, tr_dispatch_q r, tr_exec_start r, tr_buf_ready r, tr_write_begin r, tr_write_end r,
      tr_first_resp_byte r, tr_headers_done r]"
    using chain unfolding sorted2_simps by simp
  moreover have "trigger_to_first_byte r = trigger_to_wire r + warm_ttfb r"
    "warm_ttfb r = write_duration r + write_to_first_byte r"
    using chain le by (simp_all add: trigger_to_first_byte_def trigger_to_wire_def warm_ttfb_def write_duration_def
        write_to_first_byte_def saturating_sub_def)
  moreover have "unat (queue_delay r) + unat (prep_time r) \<le> unat (trigger_to_wire r)"
    using chain le unfolding word_le_nat_alt
    by (simp add: queue_delay_def prep_time_def trigger_to_wire_def unat_saturating_sub)
  ultimately show ?thesis by blast
qed

theorem checkpoints_in_order_witness:
  "\<exists>answers sy r. sample_executor_run = (answers, sy) \<and> r \<in> set (sy_records sy) \<and>
     trigger_to_first_byte r = trigger_to_wire r + warm_ttfb r"
proof -
  obtain r sy where run: "sample_executor_run =
      ([(benchmark_trigger\<lparr>tm_timestamp_ns := 7\<rparr>, Inr ()), (benchmark_trigger\<lparr>tm_timestamp_ns := 7\<rparr>, Inr ())], sy)"
    and r: "sy_records sy = [r]"
    using sample_executor_run by blast
  have "monotonic (\<lambda>w. 7) (\<lambda>w. (7, w)) flaky_network" by (simp add: monotonic_def)
  from checkpoints_in_order [OF list_channel_fifo this run [unfolded sample_system_def], of r] run r
  show ?thesis by auto
qed

end
