(* ===== verification/Benchmark.thy ===== *)
theory Benchmark
  imports GenericExecutor "HOL-Library.Multiset"
begin

text \<open>
  The latency benchmark (\<open>rtt-core/src/benchmark.rs\<close>): what each mode injects and when it pauses, the run over the
  generic executor with its waiting loop, and the result. The random generator, the iteration order of the hash
  map and the turns of the other threads are arguments; printing is not modelled.
\<close>

section \<open>The configuration\<close>

datatype benchmark_mode = SingleShot | RandomCadence | BurstRace

record benchmark_config =
  bc_host :: string
  bc_port :: "16 word"
  bc_mode :: benchmark_mode
  bc_sample_count :: u64
  bc_pool_size :: nat
  bc_burst_size :: u64
  bc_min_interval_ms :: u32
  bc_max_interval_ms :: u32
  bc_pin_core :: "nat option"
  bc_address_family :: address_family

definition benchmark_config_default :: benchmark_config where
  "benchmark_config_default =
     \<lparr>bc_host = clob_host, bc_port = clob_port, bc_mode = SingleShot, bc_sample_count = 100, bc_pool_size = 2,
      bc_burst_size = 5, bc_min_interval_ms = 50, bc_max_interval_ms = 500, bc_pin_core = None,
      bc_address_family = AfAuto\<rparr>"

record benchmark_result =
  br_records :: "timestamp_record list"
  br_report :: stats_report
  br_pop_distribution :: "(string \<times> nat) list"

section \<open>What each mode injects\<close>

definition make_trigger :: "u64 \<Rightarrow> trigger_message" where
  "make_trigger i =
     \<lparr>tm_trigger_id = i, tm_token_id = ''benchmark'', tm_side = Buy, tm_price = ''0.50'', tm_size = ''1'',
      tm_order_type = FOK, tm_timestamp_ns = 0\<rparr>"

datatype benchmark_action = InjectId u64 | SleepMs nat

datatype benchmark_panic = DivisionByZero | EmptyRange

definition single_shot_plan :: "nat \<Rightarrow> benchmark_action list" where
  "single_shot_plan n = concat (map (\<lambda>i. [InjectId (of_nat i), SleepMs 200]) [0..<n])"

text \<open>\<open>draw i\<close> is the generator's \<open>i\<close>-th answer; an empty range panics at the first draw, after its injection.\<close>

definition random_cadence_plan ::
    "(nat \<Rightarrow> u32) \<Rightarrow> u32 \<Rightarrow> u32 \<Rightarrow> nat \<Rightarrow> benchmark_action list \<times> benchmark_panic option" where
  "random_cadence_plan draw lo hi n =
     (if n = 0 then ([], None)
      else if hi < lo then ([InjectId 0], Some EmptyRange)
      else (concat (map (\<lambda>i. [InjectId (of_nat i), SleepMs (unat (draw i))]) [0..<n]), None))"

fun burst_rounds :: "nat \<Rightarrow> u64 \<Rightarrow> u64 \<Rightarrow> u64 \<Rightarrow> benchmark_action list" where
  "burst_rounds 0 sample_count burst_size sent = []"
| "burst_rounds (Suc n) sample_count burst_size sent =
     (let burst = min burst_size (sample_count - sent)
      in map (\<lambda>i. InjectId (sent + of_nat i)) [0..<unat burst] @ SleepMs 500 #
         burst_rounds n sample_count burst_size (sent + burst))"

definition burst_race_plan :: "u64 \<Rightarrow> u64 \<Rightarrow> benchmark_action list \<times> benchmark_panic option" where
  "burst_race_plan sample_count burst_size =
     (if burst_size = 0 then ([], Some DivisionByZero)
      else (burst_rounds (unat ((sample_count + burst_size - 1) div burst_size)) sample_count burst_size 0, None))"

definition injection_plan ::
    "(nat \<Rightarrow> u32) \<Rightarrow> benchmark_config \<Rightarrow> benchmark_action list \<times> benchmark_panic option" where
  "injection_plan draw config =
     (case bc_mode config of
        SingleShot \<Rightarrow> (single_shot_plan (unat (bc_sample_count config)), None)
      | RandomCadence \<Rightarrow>
          random_cadence_plan draw (bc_min_interval_ms config) (bc_max_interval_ms config)
            (unat (bc_sample_count config))
      | BurstRace \<Rightarrow> burst_race_plan (bc_sample_count config) (bc_burst_size config))"

fun injected_ids :: "benchmark_action list \<Rightarrow> u64 list" where
  "injected_ids [] = []"
| "injected_ids (InjectId i # rest) = i # injected_ids rest"
| "injected_ids (SleepMs ms # rest) = injected_ids rest"

section \<open>The run\<close>

datatype 'a benchmark_error =
    BenchConnection "'a connection_error"
  | BenchQueueFull string
  | BenchTemplatePanic template_panic
  | BenchPanic benchmark_panic

text \<open>
  \<open>turns k\<close> are the operations of the other two threads between the \<open>k\<close>-th action of the benchmark's task and the next.
  A refused injection ends the run.
\<close>

fun run_plan ::
    "('w \<Rightarrow> u64 \<times> 'w) \<Rightarrow> ('w, 'a, 't, 's, 'f) network \<Rightarrow> (string \<Rightarrow> string option) \<Rightarrow> 'q channel
      \<Rightarrow> request_template \<Rightarrow> (nat \<Rightarrow> executor_event list) \<Rightarrow> nat \<Rightarrow> benchmark_action list
      \<Rightarrow> ('w, 'q, 's) executor_system \<Rightarrow> (string, unit) result \<times> ('w, 'q, 's) executor_system" where
  "run_plan now_ns nw header_name ch template turns k [] sy = (Inr (), sy)"
| "run_plan now_ns nw header_name ch template turns k (action # rest) sy =
     (let (result, sy) = (case action of
                            InjectId i \<Rightarrow>
                              (let ((_, result), sy) = inject_step now_ns ch (make_trigger i) sy in (result, sy))
                          | SleepMs ms \<Rightarrow> (Inr (), sy))
      in case result of
           Inl e \<Rightarrow> (Inl e, sy)
         | Inr _ \<Rightarrow>
             run_plan now_ns nw header_name ch template turns (Suc k) rest
               (snd (executor_run now_ns nw header_name ch template (turns k) sy)))"

text \<open>
  The waiting loop: each round sees whether the deadline has passed and what the threads do in the pause after it. The
  deadline of 30 seconds passes in the end, so the rounds are a finite list that ends with a late one.
\<close>

fun wait_for_records ::
    "('w \<Rightarrow> u64 \<times> 'w) \<Rightarrow> ('w, 'a, 't, 's, 'f) network \<Rightarrow> (string \<Rightarrow> string option) \<Rightarrow> 'q channel
      \<Rightarrow> request_template \<Rightarrow> nat \<Rightarrow> (bool \<times> executor_event list) list
      \<Rightarrow> ('w, 'q, 's) executor_system \<Rightarrow> ('w, 'q, 's) executor_system" where
  "wait_for_records now_ns nw header_name ch template expected [] sy = sy"
| "wait_for_records now_ns nw header_name ch template expected ((late, evs) # rounds) sy =
     (if expected \<le> length (sy_records sy) \<or> late then sy
      else wait_for_records now_ns nw header_name ch template expected rounds
             (snd (executor_run now_ns nw header_name ch template evs sy)))"

definition count_pop :: "timestamp_record \<Rightarrow> (string \<rightharpoonup> nat) \<Rightarrow> (string \<rightharpoonup> nat)" where
  "count_pop r m =
     (if tr_cf_ray_pop r = [] then m
      else m(tr_cf_ray_pop r \<mapsto> unwrap_or 0 (m (tr_cf_ray_pop r)) + 1))"

definition pop_map :: "timestamp_record list \<Rightarrow> (string \<rightharpoonup> nat)" where
  "pop_map records = fold count_pop records Map.empty"

text \<open>\<open>into_iter\<close> lists a hash map in its own order; the sort is stable.\<close>

definition pop_distribution ::
    "((string \<rightharpoonup> nat) \<Rightarrow> (string \<times> nat) list) \<Rightarrow> timestamp_record list \<Rightarrow> (string \<times> nat) list" where
  "pop_distribution into_iter records =
     sort_key (\<lambda>(pop, count). - int count) (into_iter (pop_map records))"

definition benchmark_result_of ::
    "((string \<rightharpoonup> nat) \<Rightarrow> (string \<times> nat) list) \<Rightarrow> timestamp_record list \<Rightarrow> benchmark_result" where
  "benchmark_result_of into_iter records =
     \<lparr>br_records = records,
      br_report = stats_compute (fold stats_add records []),
      br_pop_distribution = pop_distribution into_iter records\<rparr>"

text \<open>\<open>closing\<close> are the operations of the other threads between the end of the waiting loop and their stop.\<close>

definition run_benchmark ::
    "('w \<Rightarrow> u64 \<times> 'w) \<Rightarrow> ('w, 'a, 't, 's, 'f) network \<Rightarrow> (string \<Rightarrow> string option) \<Rightarrow> 'q channel
      \<Rightarrow> (nat \<Rightarrow> nat) \<Rightarrow> (nat \<Rightarrow> u32) \<Rightarrow> ((string \<rightharpoonup> nat) \<Rightarrow> (string \<times> nat) list)
      \<Rightarrow> (nat \<Rightarrow> executor_event list) \<Rightarrow> (bool \<times> executor_event list) list \<Rightarrow> executor_event list \<Rightarrow> benchmark_config
      \<Rightarrow> 'w \<Rightarrow> ('a benchmark_error, benchmark_result) result" where
  "run_benchmark now_ns nw header_name ch alloc draw into_iter turns rounds closing config w =
     (case warmup nw (connection_pool_new alloc (bc_host config) (bc_port config) (bc_pool_size config)
             (bc_address_family config)) w of
        (Inl e, pool, w) \<Rightarrow> Inl (BenchConnection e)
      | (Inr warmed, pool, w) \<Rightarrow>
     (let template = add_header ''host'' (bc_host config) (request_template_new ''GET'' ''/'')
      in case build_request header_name template of
           Inl panic \<Rightarrow> Inl (BenchTemplatePanic panic)
         | Inr warmup_req \<Rightarrow>
        (case send nw warmup_req pool w of
           (Inl e, pool, w) \<Rightarrow> Inl (BenchConnection e)
         | (Inr _, pool, w) \<Rightarrow>
        (let (actions, panic) = injection_plan draw config;
             (injected, sy) = run_plan now_ns nw header_name ch template turns 0 actions
                                (execution_thread_start (trigger_queue_new ch) pool w)
         in case injected of
              Inl e \<Rightarrow> Inl (BenchQueueFull e)
            | Inr _ \<Rightarrow>
           (case panic of
              Some p \<Rightarrow> Inl (BenchPanic p)
            | None \<Rightarrow>
                (let sy = wait_for_records now_ns nw header_name ch template (length (injected_ids actions)) rounds sy;
                     (_, sy) = executor_run now_ns nw header_name ch template closing sy
                 in Inr (benchmark_result_of into_iter (sy_records (execution_stop sy)))))))))"

section \<open>Every sample is injected once\<close>

text \<open>The numbers of injections before each pause.\<close>

fun bursts_of :: "nat \<Rightarrow> benchmark_action list \<Rightarrow> nat list" where
  "bursts_of n [] = []"
| "bursts_of n (InjectId i # rest) = bursts_of (Suc n) rest"
| "bursts_of n (SleepMs ms # rest) = n # bursts_of 0 rest"

lemma injected_ids_append [simp]: "injected_ids (xs @ ys) = injected_ids xs @ injected_ids ys"
  by (induction xs rule: injected_ids.induct) simp_all

lemma injected_ids_inject [simp]: "injected_ids (map (\<lambda>i. InjectId (f i)) is) = map f is"
  by (induction "is") simp_all

lemma bursts_of_inject [simp]: "bursts_of n (map (\<lambda>i. InjectId (f i)) is @ rest) = bursts_of (n + length is) rest"
  by (induction "is" arbitrary: n) simp_all

lemma injected_ids_spaced: "injected_ids (concat (map (\<lambda>i. [InjectId (f i), SleepMs (g i)]) is)) = map f is"
  by (induction "is") simp_all

text \<open>
  \<open>n\<close> rounds are enough for the samples that are left when they number at most \<open>n\<close> bursts; \<open>sent\<close> never passes
  the count, so the difference does not wrap.
\<close>

lemma burst_rounds_ids:
  assumes "sent \<le> sample_count" "unat (sample_count - sent) \<le> n * unat burst_size"
  shows "injected_ids (burst_rounds n sample_count burst_size sent) = map of_nat [unat sent..<unat sample_count] \<and>
    (\<forall>b \<in> set (bursts_of 0 (burst_rounds n sample_count burst_size sent)). b \<le> unat burst_size)"
  using assms
proof (induction n arbitrary: sent)
  case 0
  then have "unat sample_count \<le> unat sent" by (simp add: unat_sub word_le_nat_alt)
  then show ?case by simp
next
  case (Suc n)
  define burst where "burst = min burst_size (sample_count - sent)"
  have bound: "unat burst \<le> unat (sample_count - sent)" "unat burst \<le> unat burst_size"
    and burst: "unat burst = min (unat burst_size) (unat (sample_count - sent))"
    by (auto simp: burst_def min_def word_le_nat_alt)
  have left: "unat (sample_count - sent) = unat sample_count - unat sent" "unat sent \<le> unat sample_count"
    using Suc.prems(1) by (simp_all add: unat_sub word_le_nat_alt)
  have "unat sent + unat burst < 2 ^ 64"
    using left bound(1) unat_less_pow [of sample_count] by (simp del: unat_u64_less)
  then have after: "unat (sent + burst) = unat sent + unat burst"
    by (simp add: unat_word_ariths)
  have le: "sent + burst \<le> sample_count"
    using left bound(1) after unfolding word_le_nat_alt by linarith
  have "unat (sample_count - (sent + burst)) = unat (sample_count - sent) - unat burst"
    using le left after by (simp add: unat_sub)
  with burst Suc.prems(2) have "unat (sample_count - (sent + burst)) \<le> n * unat burst_size" by auto
  note IH = Suc.IH [OF le this]
  have "map (\<lambda>i. sent + of_nat i) [0..<unat burst] = map of_nat [unat sent..<unat (sent + burst)]"
    unfolding after by (intro nth_equalityI) (simp_all add: of_nat_add)
  moreover have "[unat sent..<unat (sent + burst)] @ [unat (sent + burst)..<unat sample_count] =
      [unat sent..<unat sample_count]"
    using le after unfolding word_le_nat_alt by (metis le_add1 upt_add_eq_append le_add_diff_inverse)
  ultimately show ?case
    using IH bound(2) by (simp add: Let_def flip: burst_def map_append)
qed

lemma div_up_enough:
  fixes b n :: nat
  assumes "0 < b"
  shows "n \<le> (n + b - 1) div b * b"
proof -
  have "n + b - 1 < b + b * ((n + b - 1) div b)" by (rule dividend_less_times_div [OF assms])
  with assms show ?thesis by (simp add: mult.commute)
qed

lemma rounds_enough:
  fixes sample_count burst_size :: u64
  assumes "burst_size \<noteq> 0" "unat sample_count + unat burst_size \<le> 2 ^ 64"
  shows "unat sample_count \<le> unat ((sample_count + burst_size - 1) div burst_size) * unat burst_size"
proof -
  have pos: "0 < unat burst_size" using assms(1) by (simp add: unat_gt_0)
  then have "unat (burst_size - 1) = unat burst_size - 1" by (simp add: unat_minus_one assms(1))
  then have "unat (sample_count + (burst_size - 1)) = unat sample_count + (unat burst_size - 1)"
    using assms(2) pos by (simp add: unat_word_ariths)
  then have eq: "unat (sample_count + burst_size - 1) = unat sample_count + unat burst_size - 1"
    using pos by (simp add: add_diff_eq)
  show ?thesis using div_up_enough [OF pos, of "unat sample_count"] by (simp add: unat_div eq)
qed

text \<open>
  Every mode injects the triggers \<open>0, 1, \<dots>\<close> up to the asked number of samples, each once and in that order, without
  a panic, when a burst has a size, the interval is not empty and the count and the size of a burst stay within the width of
  \<open>usize\<close>; and a burst never exceeds its size.
\<close>

theorem plan_injects_every_sample:
  assumes "bc_mode config = BurstRace \<Longrightarrow> 0 < bc_burst_size config
      \<and> unat (bc_sample_count config) + unat (bc_burst_size config) \<le> 2 ^ 64"
    and "bc_mode config = RandomCadence \<Longrightarrow> bc_min_interval_ms config \<le> bc_max_interval_ms config"
  shows "\<exists>actions. injection_plan draw config = (actions, None) \<and>
     injected_ids actions = map of_nat [0..<unat (bc_sample_count config)] \<and>
     (bc_mode config = BurstRace \<longrightarrow> (\<forall>b \<in> set (bursts_of 0 actions). b \<le> unat (bc_burst_size config)))"
proof (cases "bc_mode config")
  case BurstRace
  have size: "bc_burst_size config \<noteq> 0" using assms(1) [OF BurstRace] by auto
  from rounds_enough [OF size assms(1) [OF BurstRace, THEN conjunct2]]
    burst_rounds_ids [of 0 "bc_sample_count config" _ "bc_burst_size config"]
  show ?thesis by (simp add: injection_plan_def burst_race_plan_def BurstRace size)
next
  case RandomCadence
  with assms(2) show ?thesis
    by (auto simp: injection_plan_def random_cadence_plan_def injected_ids_spaced)
next
  case SingleShot
  then show ?thesis by (simp add: injection_plan_def single_shot_plan_def injected_ids_spaced)
qed

theorem plan_injects_every_sample_witness:
  "\<exists>actions. injection_plan (\<lambda>i. 0) (benchmark_config_default\<lparr>bc_mode := BurstRace, bc_sample_count := 7\<rparr>) = (actions, None) \<and>
     injected_ids actions = [0, 1, 2, 3, 4, 5, 6] \<and> (\<forall>b \<in> set (bursts_of 0 actions). b \<in> {..5})"
  using plan_injects_every_sample [of "benchmark_config_default\<lparr>bc_mode := BurstRace, bc_sample_count := 7\<rparr>" "\<lambda>i. 0"]
  by (auto simp: benchmark_config_default_def upt_rec)

section \<open>What the result counts\<close>

lemma no_injection_no_answer:
  assumes "executor_run now_ns nw header_name ch template evs sy = (answers, sy')" "\<forall>msg. Inject msg \<notin> set evs"
  shows "answers = []"
  using assms
proof (induction evs arbitrary: sy)
  case (Cons ev evs)
  then show ?case by (cases ev) auto
qed simp

text \<open>How many triggers the executor has taken, recorded or waiting.\<close>

definition taken_count :: "('q \<Rightarrow> trigger_message list) \<Rightarrow> ('w, 'q, 's) executor_system \<Rightarrow> nat" where
  "taken_count contents sy = length (record_stamps sy) + length (waiting_stamps contents sy)"

definition queue_bounded :: "('q \<Rightarrow> trigger_message list) \<Rightarrow> ('q \<Rightarrow> nat) \<Rightarrow> ('w, 'q, 's) executor_system \<Rightarrow> bool" where
  "queue_bounded contents capacity sy \<longleftrightarrow> length (waiting_stamps contents sy) \<le> capacity (sy_queue sy)"

lemma quiet_run:
  assumes "bounded_fifo ch contents capacity" "build_request header_name template = Inr req"
    and "executor_run now_ns nw header_name ch template evs sy = (answers, sy')"
    and "\<forall>msg. Inject msg \<notin> set evs" "queue_bounded contents capacity sy"
  shows "taken_count contents sy' = taken_count contents sy \<and> queue_bounded contents capacity sy'"
proof -
  note stamps = executor_run_stamps [OF assms(1-3) assms(5) [unfolded queue_bounded_def]]
  have "answers = []" by (rule no_injection_no_answer [OF assms(3,4)])
  with stamps have "record_stamps sy @ waiting_stamps contents sy = record_stamps sy' @ waiting_stamps contents sy'"
    by (simp add: accepted_stamps_simps)
  from arg_cong [OF this, of length] stamps show ?thesis by (simp add: taken_count_def queue_bounded_def)
qed

lemma inject_taken:
  assumes "bounded_fifo ch contents capacity" "inject_step now_ns ch msg sy = ((m, result), sy')"
    and "queue_bounded contents capacity sy"
  shows "taken_count contents sy' \<le> Suc (taken_count contents sy) \<and> queue_bounded contents capacity sy'"
  using inject_step_stamps [OF assms(1,2)] assms(3) by (auto simp: taken_count_def queue_bounded_def split: if_splits)

lemma run_plan_taken:
  assumes "bounded_fifo ch contents capacity" "build_request header_name template = Inr req"
    and "\<And>k msg. Inject msg \<notin> set (turns k)"
  shows "run_plan now_ns nw header_name ch template turns k actions sy = (result, sy') \<Longrightarrow>
    queue_bounded contents capacity sy \<Longrightarrow>
    taken_count contents sy' \<le> taken_count contents sy + length (injected_ids actions) \<and>
    queue_bounded contents capacity sy'"
proof (induction actions arbitrary: k sy)
  case (Cons action actions)
  obtain res sy1 where 1: "(case action of InjectId i \<Rightarrow>
        (let ((_, result), sy) = inject_step now_ns ch (make_trigger i) sy in (result, sy))
      | SleepMs ms \<Rightarrow> (Inr (), sy)) = (res, sy1)" by force
  have taken: "taken_count contents sy1 + length (injected_ids actions) \<le>
      taken_count contents sy + length (injected_ids (action # actions))"
    and bounded: "queue_bounded contents capacity sy1"
    and more: "taken_count contents sy1 \<le> taken_count contents sy + length (injected_ids (action # actions))"
    using 1 Cons.prems(2) inject_taken [OF assms(1), where now_ns = now_ns and sy = sy]
    by (cases action; force split: prod.splits)+
  show ?case
  proof (cases res)
    case (Inl e)
    with Cons.prems(1) 1 bounded more show ?thesis by (simp add: Let_def)
  next
    case (Inr u)
    obtain answers sy2 where 2: "executor_run now_ns nw header_name ch template (turns k) sy1 = (answers, sy2)" by force
    from quiet_run [OF assms(1,2) 2 _ bounded] assms(3)
    have quiet: "taken_count contents sy2 = taken_count contents sy1" "queue_bounded contents capacity sy2" by auto
    from Cons.prems(1) 1 2 Inr
    have "run_plan now_ns nw header_name ch template turns (Suc k) actions sy2 = (result, sy')" by (simp add: Let_def)
    from Cons.IH [OF this quiet(2)] quiet(1) taken show ?thesis by simp
  qed
qed simp

lemma wait_taken:
  assumes "bounded_fifo ch contents capacity" "build_request header_name template = Inr req"
  shows "\<forall>(late, evs) \<in> set rounds. \<forall>msg. Inject msg \<notin> set evs \<Longrightarrow> queue_bounded contents capacity sy \<Longrightarrow>
    taken_count contents (wait_for_records now_ns nw header_name ch template expected rounds sy) =
      taken_count contents sy \<and>
    queue_bounded contents capacity (wait_for_records now_ns nw header_name ch template expected rounds sy)"
proof (induction rounds arbitrary: sy)
  case (Cons round rounds)
  obtain late evs where round: "round = (late, evs)" by force
  obtain answers sy1 where 1: "executor_run now_ns nw header_name ch template evs sy = (answers, sy1)" by force
  from quiet_run [OF assms 1] Cons.prems round
  have "taken_count contents sy1 = taken_count contents sy" "queue_bounded contents capacity sy1" by auto
  with Cons 1 round show ?case by auto
qed simp

lemma pop_map_count:
  "pop_map records pop =
     (let n = length (filter (\<lambda>r. tr_cf_ray_pop r = pop) records)
      in if pop = [] \<or> n = 0 then None else Some n)"
proof (induction records rule: rev_induct)
  case (snoc r records)
  then show ?case by (auto simp: pop_map_def count_pop_def Let_def)
qed (simp add: pop_map_def)

lemma fold_stats_add: "fold stats_add records xs = xs @ records"
  by (induction records arbitrary: xs) (simp_all add: stats_add_def)

lemma stats_counts:
  "sr_sample_count (stats_compute records) + sr_reconnect_count (stats_compute records) = length records"
  using sum_length_filter_compl [of tr_is_reconnect records]
  by (auto simp: stats_compute_def stats_report_default_def Let_def)

text \<open>An iteration over a hash map lists each entry once.\<close>

definition lists_entries :: "((string \<rightharpoonup> nat) \<Rightarrow> (string \<times> nat) list) \<Rightarrow> bool" where
  "lists_entries into_iter \<longleftrightarrow>
     (\<forall>m. finite (dom m) \<longrightarrow> distinct (map fst (into_iter m)) \<and> set (into_iter m) = {(k, v). m k = Some v})"

lemma pop_map_finite: "finite (dom (pop_map records))"
proof -
  have "dom (pop_map records) \<subseteq> set (map tr_cf_ray_pop records)"
    by (auto simp: dom_def pop_map_count Let_def filter_empty_conv split: if_splits)
  then show ?thesis by (rule finite_subset) simp
qed

lemma distribution_exact:
  assumes "lists_entries into_iter"
  shows "sorted_wrt (\<lambda>(p, m) (q, n). n \<le> m) (pop_distribution into_iter records)"
    and "distinct (map fst (pop_distribution into_iter records))"
    and "(pop, k) \<in> set (pop_distribution into_iter records) \<longleftrightarrow>
      pop \<noteq> [] \<and> 0 < k \<and> k = length (filter (\<lambda>r. tr_cf_ray_pop r = pop) records)"
proof -
  let ?key = "\<lambda>(pop :: string, count :: nat). - int count"
  have entries: "distinct (map fst (into_iter (pop_map records)))"
      "set (into_iter (pop_map records)) = {(k, v). pop_map records k = Some v}"
    using assms pop_map_finite by (simp_all add: lists_entries_def)
  have "sorted (map ?key (pop_distribution into_iter records))" by (simp add: pop_distribution_def)
  then show "sorted_wrt (\<lambda>(p, m) (q, n). n \<le> m) (pop_distribution into_iter records)"
    unfolding sorted_map by (rule sorted_wrt_mono_rel [rotated]) auto
  have "mset (map fst (pop_distribution into_iter records)) = mset (map fst (into_iter (pop_map records)))"
    by (simp add: pop_distribution_def)
  with entries(1) show "distinct (map fst (pop_distribution into_iter records))"
    using mset_eq_imp_distinct_iff by blast
  show "(pop, k) \<in> set (pop_distribution into_iter records) \<longleftrightarrow>
      pop \<noteq> [] \<and> 0 < k \<and> k = length (filter (\<lambda>r. tr_cf_ray_pop r = pop) records)"
    by (auto simp: pop_distribution_def entries(2) pop_map_count Let_def)
qed

text \<open>
  A benchmark that returns has a record for at most every injected trigger, whatever the other threads did
  meanwhile; its report counts every record once, warm or reconnected; and its distribution lists each data centre
  seen once, with the number of its records, the busiest first.
\<close>

theorem benchmark_result_counts:
  assumes "bounded_fifo ch contents capacity" and "lists_entries into_iter"
    and "\<And>k msg. Inject msg \<notin> set (turns k)"
    and "\<forall>(late, evs) \<in> set rounds. \<forall>msg. Inject msg \<notin> set evs" and "\<forall>msg. Inject msg \<notin> set closing"
    and "run_benchmark now_ns nw header_name ch alloc draw into_iter turns rounds closing config w = Inr result"
  shows "length (br_records result) \<le> length (injected_ids (fst (injection_plan draw config))) \<and>
     sr_sample_count (br_report result) + sr_reconnect_count (br_report result) = length (br_records result) \<and>
     sorted_wrt (\<lambda>(p, m) (q, n). n \<le> m) (br_pop_distribution result) \<and>
     distinct (map fst (br_pop_distribution result)) \<and>
     (\<forall>pop count. (pop, count) \<in> set (br_pop_distribution result) \<longleftrightarrow>
        pop \<noteq> [] \<and> 0 < count \<and> count = length (filter (\<lambda>r. tr_cf_ray_pop r = pop) (br_records result)))"
proof -
  define template where "template = add_header ''host'' (bc_host config) (request_template_new ''GET'' ''/'')"
  obtain actions panic where plan: "injection_plan draw config = (actions, panic)" by force
  from assms(6) obtain req pool w1 sy1 where built: "build_request header_name template = Inr req"
    and 1: "run_plan now_ns nw header_name ch template turns 0 actions
        (execution_thread_start (trigger_queue_new ch) pool w1) = (Inr (), sy1)"
    and result: "result = benchmark_result_of into_iter (sy_records (execution_stop (snd
        (executor_run now_ns nw header_name ch template closing
          (wait_for_records now_ns nw header_name ch template (length (injected_ids actions)) rounds sy1)))))"
    by (auto simp: run_benchmark_def plan Let_def simp flip: template_def split: prod.splits sum.splits option.splits)
  define sy2 where "sy2 = wait_for_records now_ns nw header_name ch template (length (injected_ids actions)) rounds sy1"
  obtain answers sy3 where 3: "executor_run now_ns nw header_name ch template closing sy2 = (answers, sy3)" by force
  have start: "queue_bounded contents capacity (execution_thread_start (trigger_queue_new ch) pool w1)"
      "taken_count contents (execution_thread_start (trigger_queue_new ch) pool w1) = 0"
    by (simp_all add: queue_bounded_def taken_count_def waiting_stamps_def record_stamps_def execution_thread_start_def
        trigger_queue_new_def bounded_fifo_calls [OF assms(1)])
  from run_plan_taken [OF assms(1) built assms(3) 1 start(1)] start(2)
  have a: "taken_count contents sy1 \<le> length (injected_ids actions)" "queue_bounded contents capacity sy1" by auto
  from wait_taken [OF assms(1) built assms(4) a(2), of now_ns nw "length (injected_ids actions)"]
  have b: "taken_count contents sy2 = taken_count contents sy1" "queue_bounded contents capacity sy2"
    by (simp_all add: sy2_def)
  from quiet_run [OF assms(1) built 3 assms(5) b(2)] a(1) b(1)
  have "length (sy_records sy3) \<le> length (injected_ids actions)" by (simp add: taken_count_def record_stamps_def)
  moreover have "result = benchmark_result_of into_iter (sy_records sy3)"
    using result 3 by (simp add: execution_stop_def flip: sy2_def)
  ultimately show ?thesis
    using distribution_exact [OF assms(2)] stats_counts
    by (simp add: benchmark_result_of_def fold_stats_add plan)
qed

text \<open>A hash map that lists its entries in the order of their keys, and one sample over one connection.\<close>

definition sorted_entries :: "(string \<rightharpoonup> nat) \<Rightarrow> (string \<times> nat) list" where
  "sorted_entries m = map (\<lambda>k. (k, the (m k))) (sorted_list_of_set (dom m))"

lemma sorted_entries: "lists_entries sorted_entries"
  by (auto simp: lists_entries_def sorted_entries_def comp_def)

definition sample_benchmark :: benchmark_config where
  "sample_benchmark = benchmark_config_default\<lparr>bc_sample_count := 1, bc_pool_size := 1\<rparr>"

lemma sample_benchmark_runs:
  "\<exists>r. run_benchmark (\<lambda>w. (7, w)) flaky_network Some list_channel id (\<lambda>i. 0) sorted_entries
     (\<lambda>k. [ExecutionTurn]) [] [] sample_benchmark (1, False) = Inr (benchmark_result_of sorted_entries [r])"
proof -
  note [simp del] = One_nat_def
  let ?pool = "\<lambda>i. \<lparr>cp_host = clob_host, cp_port = clob_port, cp_af = AfAuto, cp_capacity = 1,
      cp_connections = [\<lparr>hc_sender = 1, hc_healthy = True\<rparr>], cp_next_index = i\<rparr> :: nat connection_pool"
  let ?template = "add_header ''host'' clob_host (request_template_new ''GET'' ''/'')"
  let ?req = "\<lparr>rq_method = ''GET'', rq_uri = ''/'', rq_headers = [(''host'', clob_host)], rq_body = []\<rparr>"
  have built: "build_request Some ?template = Inr ?req"
    by (simp add: build_request_def add_header_def request_template_new_def body_bytes_def header_value_ok_def clob_host_def)
  have warm: "warmup flaky_network (connection_pool_new id clob_host clob_port 1 AfAuto) (1, False) = (Inr 1, ?pool 0, (2, False))"
    by (simp add: warmup_def connection_pool_new_def connect_h2_def resolve_def connect_sender_for_addr_def flaky_network_def
        warmup_loop.simps(2) [of _ 0, folded One_nat_def])
  have starts: "send_start flaky_network ?req (?pool i) (2, False) =
      (Inr \<lparr>sh_resp_future = 1, sh_connection_index = 0\<rparr>, ?pool (i + 1), (2, False))" for i
    by (simp add: send_start_def acquire_def ensure_healthy_def flaky_network_def)
  have collects: "collect flaky_network \<lparr>sh_resp_future = 1, sh_connection_index = 0\<rparr> (?pool i) (2, False) =
      (Inr \<lparr>rs_headers = [], rs_body = []\<rparr>, ?pool i, (2, False))" for i
    by (simp add: collect_def send_handle_collect_def collect_response_def flaky_network_def)
  have sent: "send flaky_network ?req (?pool 0) (2, False) =
      (Inr (\<lparr>rs_headers = [], rs_body = []\<rparr>, 0), ?pool 1, (2, False))"
    by (simp add: send_def starts collects)
  have one: "\<exists>r. process_one (\<lambda>w. (7, w)) flaky_network Some ?template msg (?pool 1) (2, False) =
      (Inr r, ?pool 2, (2, False))" for msg
    by (simp add: process_one_def built starts collects get_cf_ray_def Let_def del: One_nat_def)
  obtain r where r: "process_one (\<lambda>w. (7, w)) flaky_network Some ?template ((make_trigger 0)\<lparr>tm_timestamp_ns := 7\<rparr>)
      (?pool 1) (2, False) = (Inr r, ?pool 2, (2, False))"
    using one by blast
  have "injection_plan (\<lambda>i. 0) sample_benchmark = ([InjectId 0, SleepMs 200], None)"
    by (simp add: injection_plan_def sample_benchmark_def benchmark_config_default_def single_shot_plan_def One_nat_def)
  with built warm sent r show ?thesis
    by (auto simp: run_benchmark_def sample_benchmark_def benchmark_config_default_def inject_step_def ingress_inject_def
        execution_turn_def execution_thread_start_def execution_stop_def trigger_queue_new_def queue_capacity_def
        list_channel_def)
qed

theorem benchmark_result_counts_witness:
  "\<exists>result. run_benchmark (\<lambda>w. (7, w)) flaky_network Some list_channel id (\<lambda>i. 0) sorted_entries
     (\<lambda>k. [ExecutionTurn]) [] [] sample_benchmark (1, False) = Inr result \<and>
     sr_sample_count (br_report result) + sr_reconnect_count (br_report result) = 1"
proof -
  obtain r where run: "run_benchmark (\<lambda>w. (7, w)) flaky_network Some list_channel id (\<lambda>i. 0) sorted_entries
     (\<lambda>k. [ExecutionTurn]) [] [] sample_benchmark (1, False) = Inr (benchmark_result_of sorted_entries [r])"
    using sample_benchmark_runs by blast
  from benchmark_result_counts [OF list_channel_fifo sorted_entries _ _ _ run]
  have "sr_sample_count (br_report (benchmark_result_of sorted_entries [r])) +
      sr_reconnect_count (br_report (benchmark_result_of sorted_entries [r])) = 1"
    by (simp add: benchmark_result_of_def)
  with run show ?thesis by blast
qed

end
