(* ===== verification/BenchCli.thy ===== *)
theory BenchCli
  imports Benchmark
begin

text \<open>
  The command \<open>rtt-bench\<close> (\<open>rtt-bench/src/main.rs\<close>) and the report it prints (\<open>print_report\<close> of
  \<open>rtt-core/src/benchmark.rs\<close>). The parser of the command line is a library: the model starts from the parsed options.
  A run's output is the list of its lines on standard output; what goes to standard error is left out.
\<close>

section \<open>Options\<close>

record bench_cli =
  bl_trigger_test :: bool
  bl_benchmark :: bool
  bl_host :: string
  bl_port :: "16 word"
  bl_mode :: string
  bl_samples :: u64
  bl_connections :: nat
  bl_burst_size :: u64
  bl_min_interval :: u32
  bl_max_interval :: u32
  bl_pin_core :: "32 word"
  bl_af :: string

text \<open>The options' defaults.\<close>

definition bench_cli_default :: bench_cli where
  "bench_cli_default =
     \<lparr>bl_trigger_test = False, bl_benchmark = False, bl_host = clob_host, bl_port = clob_port,
      bl_mode = ''single-shot'', bl_samples = 100, bl_connections = 2, bl_burst_size = 5,
      bl_min_interval = 50, bl_max_interval = 500, bl_pin_core = - 1, bl_af = ''v6''\<rparr>"

definition parse_mode :: "string \<Rightarrow> benchmark_mode" where
  "parse_mode s =
     (if s = ''single-shot'' then SingleShot
      else if s = ''random-cadence'' then RandomCadence
      else if s = ''burst-race'' then BurstRace
      else SingleShot)"

definition parse_af :: "string \<Rightarrow> address_family" where
  "parse_af s = (if s = ''v4'' then AfV4 else if s = ''v6'' then AfV6 else AfAuto)"

definition trigger_test_config :: "bench_cli \<Rightarrow> benchmark_config" where
  "trigger_test_config cli =
     benchmark_config_default
       \<lparr>bc_host := bl_host cli, bc_port := bl_port cli, bc_mode := SingleShot, bc_sample_count := 1, bc_pool_size := 1,
        bc_address_family := parse_af (bl_af cli)\<rparr>"

definition benchmark_config_of_cli :: "bench_cli \<Rightarrow> benchmark_config" where
  "benchmark_config_of_cli cli =
     \<lparr>bc_host = bl_host cli, bc_port = bl_port cli, bc_mode = parse_mode (bl_mode cli),
      bc_sample_count = bl_samples cli, bc_pool_size = bl_connections cli, bc_burst_size = bl_burst_size cli,
      bc_min_interval_ms = bl_min_interval cli, bc_max_interval_ms = bl_max_interval cli,
      bc_pin_core = (if 0 \<le> sint (bl_pin_core cli) then Some (nat (sint (bl_pin_core cli))) else None),
      bc_address_family = parse_af (bl_af cli)\<rparr>"

section \<open>The report\<close>

definition format_ns :: "u64 \<Rightarrow> string" where
  "format_ns ns =
     (if 1000000 \<le> ns then format_two_decimals (f64_div (f64_of_u64 ns) (round_ratio False 1000000 1)) @ ''ms''
      else if 1000 \<le> ns then format_two_decimals (f64_div (f64_of_u64 ns) (round_ratio False 1000 1)) @ ''us''
      else show_word ns @ ''ns'')"

text \<open>\<open>{:<n}\<close> and \<open>{:>n}\<close> on ASCII text.\<close>

definition left_aligned :: "nat \<Rightarrow> string \<Rightarrow> string" where
  "left_aligned n s = s @ replicate (n - length s) (CHR '' '')"

definition right_aligned :: "nat \<Rightarrow> string \<Rightarrow> string" where
  "right_aligned n s = replicate (n - length s) (CHR '' '') @ s"

definition table_row :: "string \<Rightarrow> string list \<Rightarrow> string" where
  "table_row name cells = left_aligned 25 name @ concat (map (\<lambda>c. CHR '' '' # right_aligned 10 c) cells)"

definition print_row :: "string \<Rightarrow> percentile_set \<Rightarrow> string" where
  "print_row name ps =
     table_row name (map format_ns [ps_p50 ps, ps_p95 ps, ps_p99 ps, ps_p999 ps, ps_max ps])"

definition bool_text :: "bool \<Rightarrow> string" where
  "bool_text b = (if b then ''true'' else ''false'')"

definition record_line :: "nat \<Rightarrow> timestamp_record \<Rightarrow> string" where
  "record_line i rec =
     ''  ['' @ show_nat i @ ''] ttw='' @ format_ns (trigger_to_wire rec) @ '' ttfb='' @
       format_ns (trigger_to_first_byte rec) @ '' pop='' @ tr_cf_ray_pop rec @ '' reconnect='' @
       bool_text (tr_is_reconnect rec)"

definition print_report :: "benchmark_result \<Rightarrow> string list" where
  "print_report result =
     (let r = br_report result
      in [[], ''=== Benchmark Results ==='',
          ''Samples: '' @ show_nat (sr_sample_count r) @ '' warm, '' @ show_nat (sr_reconnect_count r) @ '' reconnect'',
          [], table_row ''Metric'' [''p50'', ''p95'', ''p99'', ''p99.9'', ''max''],
          replicate 85 (CHR ''-''),
          print_row ''queue_delay'' (sr_queue_delay r),
          print_row ''prep_time'' (sr_prep_time r),
          print_row ''trigger_to_wire'' (sr_trigger_to_wire r),
          print_row ''write_duration'' (sr_write_duration r),
          print_row ''write_to_first_byte'' (sr_write_to_first_byte r),
          print_row ''warm_ttfb'' (sr_warm_ttfb r),
          print_row ''trigger_to_first_byte'' (sr_trigger_to_first_byte r)] @
         (if br_pop_distribution result = [] then []
          else [] # ''POP Distribution:'' #
            map (\<lambda>(pop, n). ''  '' @ pop @ '': '' @ show_nat n @ '' samples'') (br_pop_distribution result)) @
         (if length (br_records result) \<le> 10
          then [] # ''Per-record detail:'' # map (\<lambda>(i, rec). record_line i rec) (enumerate 0 (br_records result))
          else []))"

section \<open>The command\<close>

text \<open>
  The lines it prints and its exit code. A panic of the run ends the process with code 101; without a request for a test or a
  benchmark it prints the usage to standard error and succeeds.
\<close>

definition exit_code_of :: "'a benchmark_error \<Rightarrow> nat" where
  "exit_code_of e =
     (case e of BenchConnection _ \<Rightarrow> 1 | BenchQueueFull _ \<Rightarrow> 1 | BenchTemplatePanic _ \<Rightarrow> 101 | BenchPanic _ \<Rightarrow> 101)"

definition bench_main ::
    "(benchmark_config \<Rightarrow> ('a benchmark_error, benchmark_result) result) \<Rightarrow> bench_cli \<Rightarrow> string list \<times> nat" where
  "bench_main run cli =
     (if bl_trigger_test cli
      then case run (trigger_test_config cli) of
             Inr result \<Rightarrow> (print_report result, 0)
           | Inl e \<Rightarrow> ([], exit_code_of e)
      else if bl_benchmark cli
      then case run (benchmark_config_of_cli cli) of
             Inr result \<Rightarrow> (print_report result, 0)
           | Inl e \<Rightarrow> ([], exit_code_of e)
      else ([], 0))"

text \<open>Without options a benchmark runs with the library's defaults, but over IPv6.\<close>

lemma default_benchmark:
  "benchmark_config_of_cli bench_cli_default = benchmark_config_default\<lparr>bc_address_family := AfV6\<rparr>"
  by (simp add: benchmark_config_of_cli_def bench_cli_default_def benchmark_config_default_def parse_mode_def parse_af_def)

lemma table_width:
  assumes "length name \<le> 25" and "list_all (\<lambda>c. length c \<le> 10) cells"
  shows "length (table_row name cells) = 25 + 11 * length cells"
proof -
  have "length (concat (map (\<lambda>c. CHR '' '' # right_aligned 10 c) cells)) = 11 * length cells"
    using assms(2) by (induction cells) (simp_all add: right_aligned_def)
  then show ?thesis using assms(1) by (simp add: table_row_def left_aligned_def)
qed

text \<open>
  The trigger test sends one request: whatever the options say, its plan injects the single trigger 0 and cannot panic.
\<close>

lemma trigger_test_injects_one:
  "injection_plan draw (trigger_test_config cli) = ([InjectId 0, SleepMs 200], None)"
  by (simp add: injection_plan_def trigger_test_config_def single_shot_plan_def)

text \<open>
  The command fails exactly when the run it was asked for does.
\<close>

lemma bench_main_exit:
  "snd (bench_main run cli) = 0 \<longleftrightarrow>
     (if bl_trigger_test cli then \<exists>result. run (trigger_test_config cli) = Inr result
      else bl_benchmark cli \<longrightarrow> (\<exists>result. run (benchmark_config_of_cli cli) = Inr result))"
proof -
  have "exit_code_of e \<noteq> 0" for e :: "'a benchmark_error" by (simp add: exit_code_of_def split: benchmark_error.split)
  then show ?thesis unfolding bench_main_def by (simp split: sum.split)
qed

end
