(* ===== verification/Spec2Isabelle.thy ===== *)
theory Spec2Isabelle
  imports Prelude OrdMap RustText CoreTypes ClobOrder ClobSigner HotState WsTypes OrderBook
    SubscriptionPlan ReferenceStore WsClient Feed FeedBooks TwoPaths Quote OrderState OrderManager Float64 FloatOrder FloatDecimal
    Safety Metrics Connection Dispatch Execution Strategy Runtime RegistryProvider MarketRegistry
    ExecConfig ExecShell EndToEnd Templates GenericExecutor Benchmark BenchCli
begin

text \<open>
  A verification library of the RTT trading system, a Rust workspace that watches the order books of a
  prediction market over a websocket, lets strategies fire triggers or desired quotes, and turns them into
  signed orders on a pool of warm HTTP/2 connections. This theory imports all others and holds the overview.

  \<^bold>\<open>The program and its parts.\<close>
  Messages of the market's websocket enter through \<open>pm-data\<close>: the client (\<open>ws.rs\<close>) keeps a connection up and
  replays the subscriptions that \<open>subscription_plan.rs\<close> plans; the feed manager (\<open>feed.rs\<close>, behind
  \<open>pipeline.rs\<close>, which delegates to it) applies each message to the order books (\<open>orderbook.rs\<close>) and the reference store
  (\<open>reference_store.rs\<close>) and publishes normalised updates and notices (\<open>types.rs\<close>). The markets come from a registry that
  reads a paged listing (\<open>registry_provider.rs\<close>, \<open>market_registry.rs\<close>) and selects a universe (\<open>snapshot.rs\<close>). The hot
  state store of \<open>rtt-core\<close> (\<open>hot_state.rs\<close>) keeps versioned books for the runtimes of \<open>pm-strategy\<close>, which resolve
  views of them for the strategies (\<open>runtime.rs\<close>, \<open>threshold.rs\<close>, \<open>spread.rs\<close>, \<open>runner.rs\<close>, \<open>backtest.rs\<close>). A
  trigger travels over a bridge (\<open>bridge.rs\<close>) to the execution loop of \<open>pm-executor\<close> (\<open>execution.rs\<close>), passes the safety
  rails (\<open>safety.rs\<close>), becomes an order (\<open>clob_order.rs\<close>), is signed (\<open>clob_signer.rs\<close>) and dispatched
  (\<open>clob_auth.rs\<close>, \<open>clob_request.rs\<close>, \<open>clob_executor.rs\<close>) over the pool (\<open>connection.rs\<close>), with the timestamps of
  \<open>metrics.rs\<close>. Desired quotes go to the order manager (\<open>order_manager.rs\<close>, \<open>order_state.rs\<close>). \<open>main.rs\<close> checks the
  configuration (\<open>config.rs\<close>), restores the saved state (\<open>state.rs\<close>), connects all this by channels, and \<open>health.rs\<close> and
  \<open>health_server.rs\<close> report on it. A second, generic executor (\<open>request.rs\<close>, \<open>queue.rs\<close>, \<open>executor.rs\<close>) serves the
  latency benchmark (\<open>benchmark.rs\<close>), which the command \<open>rtt-bench\<close> runs and reports.

  \<^bold>\<open>The theories.\<close>
  \<^item> \<open>Prelude\<close>, \<open>OrdMap\<close>, \<open>RustText\<close>: machine integers with their overflow policies, results, hash maps; \<open>BTreeMap\<close>
    as sorted association lists; strings as UTF-8 byte lists with the parsers and printers of the standard library.
  \<^item> \<open>Float64\<close>, \<open>FloatOrder\<close>, \<open>FloatDecimal\<close>: binary64 with its rounding, comparison, conversions and the
    parser of decimals, computed on integers, with the error bounds the other theories use.
  \<^item> \<open>CoreTypes\<close>: the shared vocabulary (\<open>trigger.rs\<close>, \<open>market.rs\<close>, \<open>feed_source.rs\<close>, \<open>public_event.rs\<close>,
    \<open>polymarket.rs\<close>).
  \<^item> \<open>ClobOrder\<close>, \<open>ClobSigner\<close>: amounts, orders and their JSON form, building and signing, presigned batches.
  \<^item> \<open>HotState\<close>: the store under its lock, one function for each update, and the resolution of notices.
  \<^item> \<open>WsTypes\<close>, \<open>OrderBook\<close>, \<open>ReferenceStore\<close>, \<open>SubscriptionPlan\<close>, \<open>WsClient\<close>, \<open>Feed\<close>: messages, books, the
    planner, the client as a step on the events its select loop sees, and the processing of a message.
  \<^item> \<open>FeedBooks\<close>, \<open>TwoPaths\<close>: the published snapshots against the abstract books that the messages make, and the best prices
    of the feed's order books against those of a hot state store fed with the published updates.
  \<^item> \<open>RegistryProvider\<close>, \<open>MarketRegistry\<close>: the listing, its pages and retries, the refresh and its state.
  \<^item> \<open>Quote\<close>, \<open>OrderState\<close>, \<open>OrderManager\<close>: desired quotes, the state machine of a working quote, reconciliation
    with the desired quotes and with the exchange.
  \<^item> \<open>Safety\<close>: breaker, rate limiter, guard; the breaker also as the single steps on its atomics.
  \<^item> \<open>Metrics\<close>, \<open>Connection\<close>, \<open>Dispatch\<close>, \<open>Execution\<close>: statistics, the connection pool over a record of network
    calls, the two dispatchers, and the execution loop over the polls of its queue.
  \<^item> \<open>Strategy\<close>, \<open>Runtime\<close>: the strategies and the runner; topology, views, inventory, the runtimes and the replays.
  \<^item> \<open>ExecConfig\<close>, \<open>ExecShell\<close>: configuration, state file, start, bridges, monitor, health endpoint, shutdown.
  \<^item> \<open>EndToEnd\<close>: the session of tasks that \<open>main.rs\<close> spawns after the start, connected by its channels, and what holds
    of the orders it sends from the messages it receives.
  \<^item> \<open>Templates\<close>, \<open>GenericExecutor\<close>, \<open>Benchmark\<close>, \<open>BenchCli\<close>: request templates with patch slots, the bounded queue
    with the ingress, execution and maintenance threads, the benchmark over them, its report and its command.

  \<^bold>\<open>How the model follows the code.\<close>
  A struct is a record, an enum a datatype, a method a function with the code's name on explicit state, a fallible method a
  sum whose left side is the error, a panic a value of its own. Integers have their width (\<open>u64\<close> and \<open>usize\<close> are
  64-bit words wherever they can overflow; the sum wraps as in a release build) and floats are binary64. Calls of
  libraries (cryptography, JSON and TOML, DNS, TCP, TLS, HTTP, clocks, the file system, channels) are the fields of
  parameter records such as \<open>platform\<close>, \<open>network\<close>, \<open>shell\<close>, \<open>http_client\<close> and \<open>channel\<close>, each reading and
  changing a world of any type; what a theorem needs of them is a named hypothesis (\<open>exchange_truthful\<close>, \<open>network_history\<close>, \<open>monotonic\<close>,
  \<open>bounded_fifo\<close>, \<open>serves_listing\<close>, \<open>listing_ends_at\<close>, \<open>reliable_files\<close>, \<open>lists_entries\<close>) with an instance in a witness.
  A task that selects over channels is a function of the events it receives in their order, and threads are interleaved
  as sequences of steps, so a theorem over all sequences holds for every schedule of these steps.

  \<^bold>\<open>What the lemmas show.\<close>
  \<^item> Money: amounts are exact and round down, the breaker's cents are the truncated product up to the rounding of
    binary64, and no interleaving of callers, no run of the loop and no sequence of restarts dispatches more than the limits
    allow (one cent for each restart apart, which the saving of the state can lose).
  \<^item> Orders: what is dispatched is the signed order of its trigger; it goes out for a trigger of the strategy, in order and
    once, at the best bid or ask of the book that the messages of the exchange describe at some moment; a failure of the
    network stops the loop.
  \<^item> Quotes: reconciliation issues the needed commands and converges; uncertain quotes block it until the exchange has
    spoken; fills count once.
  \<^item> Data: the books refine finite maps, the two paths through the feed agree, so do the order books and the hot
    state store on the best prices when the exchange quotes them truly, notices resolve to their own version
    or to nothing, views hold current books only, and replays of both kinds fire alike.
  \<^item> Connections: subscriptions converge over reconfigurations and reconnections; a connection whose response failed
    is not used again before it is dialled anew.
  \<^item> Registry: a refresh returns, collects the whole listing and never loses the last good snapshot.
  \<^item> Executor of the benchmark: no trigger is lost, duplicated or overtaken, the checkpoints of a record are in order, and
    a patched request differs from its template in the patched slots only.
  Locales state the contracts between components (the ordered map behind the books, the adapter of a feed, the trigger strategy
  that a runner drives, the paged provider behind the registry), each interpreted on the model's definitions.

  \<^bold>\<open>Bounds and termination.\<close>
  Loops over data are structural or have a measure (retries count down to the configured number, the batches and shards of
  subscriptions shrink their list). Loops over the outside world take the sequence of what they observe, so they end with
  it. Only the paging of the registry can run for ever: it is a partial function into options, and
  \<open>refresh_returns\<close> gives the condition under which it returns. No fuel is used.

  \<^bold>\<open>Not modelled.\<close>
  Log lines and what goes to standard error, the set-up of logging, the TLS configuration, thread pinning, the parsers of
  command lines, the capacities of broadcast channels (a receiver may skip what it was too slow for), and the derives of serde. Where a
  lock or an atomic is taken for one operation, that operation is one step. The scheduling of tokio is the order of the events.
\<close>

end
